theory Spec2Isabelle
  imports Complex_Main
begin

section \<open>Data model of the system layout engine (libmscore/system.cpp)\<close>

text \<open>
  The C++ type \<open>qreal\<close> is read as a real number: the properties below are about
  assignments, comparisons, maxima and sums, not about rounding.
\<close>

type_synonym qreal = real

subsection \<open>Rectangles\<close>

text \<open>
  Modelled from the spec: the class \<open>RectF\<close> is declared outside the given sources; the
  spec describes a bounding box as a position plus a size. A rectangle is its left/top corner
  and its width/height; \<open>RectF()\<close> is the null rectangle.
\<close>

record RectF =
  m_x :: qreal
  m_y :: qreal
  m_w :: qreal
  m_h :: qreal

definition RectF_null :: RectF where
  "RectF_null = \<lparr>m_x = 0, m_y = 0, m_w = 0, m_h = 0\<rparr>"

definition setRect :: "qreal \<Rightarrow> qreal \<Rightarrow> qreal \<Rightarrow> qreal \<Rightarrow> RectF \<Rightarrow> RectF" where
  "setRect ax ay aw ah r = r\<lparr>m_x := ax, m_y := ay, m_w := aw, m_h := ah\<rparr>"

definition setY :: "qreal \<Rightarrow> RectF \<Rightarrow> RectF" where
  "setY ay r = r\<lparr>m_y := ay\<rparr>"

definition setHeight :: "qreal \<Rightarrow> RectF \<Rightarrow> RectF" where
  "setHeight ah r = r\<lparr>m_h := ah\<rparr>"

definition rect_top :: "RectF \<Rightarrow> qreal" where
  "rect_top r = m_y r"

definition rect_bottom :: "RectF \<Rightarrow> qreal" where
  "rect_bottom r = m_y r + m_h r"

subsection \<open>Elements read from the score\<close>

datatype SpacerType = UP | DOWN | FIXED

record Spacer =
  spacerType :: SpacerType
  gap :: qreal

datatype BracketType = NORMAL | BRACE | SQUARE | LINE | NO_BRACKET

record BracketItem =
  bi_bracketType :: BracketType
  bi_column :: int
  bi_bracketSpan :: int

text \<open>
  A staff of the score, with the values \<open>System\<close> reads from it. \<open>st_part\<close> identifies
  the part the staff belongs to (a pointer in the source, compared with \<open>==\<close>);
  \<open>st_lines\<close> is \<open>lines(Fraction(0, 1))\<close>; \<open>staffMag\<close> depends on the tick.
\<close>

record Staff =
  st_show :: bool
  st_lines :: int
  st_height :: qreal
  st_part :: nat
  userDist :: qreal
  staffMag :: "rat \<Rightarrow> qreal"
  st_brackets :: "BracketItem list"

record Part =
  nstaves :: nat

text \<open>
  The score: its staves, its parts and the style values and modes read by the layout
  (\<open>styleMM\<close>, \<open>styleB\<close>, \<open>enableVerticalSpread()\<close>, \<open>lineMode()\<close>, \<open>spatium()\<close>).
\<close>

record Score =
  sc_staves :: "Staff list"
  parts :: "Part list"
  minVerticalDistance :: qreal
  staffDistance :: qreal
  akkoladeDistance :: qreal
  minStaffSpread :: qreal
  bracketDistance :: qreal
  spatium :: qreal
  enableVerticalSpread :: bool
  lineMode :: bool
  hideEmptyStaves :: bool
  alwaysShowBracketsWhenEmptyStavesAreHidden :: bool

text \<open>\<open>Score::staff(n)\<close>: the staff at index \<open>n\<close>, or null.\<close>

definition score_staff :: "Score \<Rightarrow> int \<Rightarrow> Staff option" where
  "score_staff sc n =
     (if 0 \<le> n \<and> n < int (length (sc_staves sc)) then Some (sc_staves sc ! nat n) else None)"

subsection \<open>Elements owned by a system\<close>

datatype InstrumentNameType = LONG | SHORT

text \<open>
  An instrument name. \<open>in_sysStaff\<close> is the index of the layout record the name points to
  (\<open>setSysStaff\<close>), \<open>in_track\<close> its track, \<open>in_ypos\<close> its vertical position (\<open>rypos()\<close>).
\<close>

record InstrumentName =
  in_text :: string
  in_type :: InstrumentNameType
  in_track :: int
  in_sysStaff :: int
  layoutPos :: int
  in_offset_y :: qreal
  in_ypos :: qreal

text \<open>
  The per-staff layout record. The skyline is kept abstract (type \<open>'sky\<close>): the class
  \<open>Skyline\<close> is outside the given sources and enters the layout only through
  \<open>minDistance\<close>.
\<close>

record 'sky SysStaff =
  bbox :: RectF
  skyline :: 'sky
  yOff :: qreal
  yPos :: qreal
  height :: qreal
  continuousDist :: qreal
  ss_show :: bool
  instrumentNames :: "InstrumentName list"

text \<open>
  A bracket instance. Column, type and span are those of its bracket item; \<open>br_measure\<close>
  identifies the measure the bracket stands in front of (\<open>None\<close> is the null pointer).
\<close>

record Bracket =
  br_item :: BracketItem
  br_track :: int
  br_measure :: "nat option"
  br_generated :: bool
  br_firstStaff :: int
  br_lastStaff :: int
  br_width :: qreal
  br_xpos :: qreal
  br_ypos :: qreal
  br_height :: qreal

datatype MeasureKind = MEASURE | HBOX | VBOX | TBOX | FBOX

text \<open>
  An entry of the measure list. \<open>mb_id\<close> is the identity of the object (measures are
  compared as pointers). Spacers are looked up by staff index (\<open>vspacerDown\<close>,
  \<open>vspacerUp\<close>; \<open>None\<close> is the null pointer). \<open>width()\<close> is the width of the bounding
  box.
\<close>

record MeasureBase =
  mb_id :: nat
  mb_kind :: MeasureKind
  mb_tick :: rat
  mb_bbox :: RectF
  vspacerDown :: "int \<Rightarrow> Spacer option"
  vspacerUp :: "int \<Rightarrow> Spacer option"

record 'sky System =
  staves :: "'sky SysStaff list"
  ml :: "MeasureBase list"
  brackets :: "Bracket list"
  leftMargin :: qreal
  systemHeight :: qreal
  sys_bbox :: RectF
  sys_pos :: "qreal \<times> qreal"

datatype error = NullPointer | OutOfRange | EmptyContainer

subsection \<open>\<open>System::staff\<close>\<close>

definition staff :: "'sky System \<Rightarrow> int \<Rightarrow> 'sky SysStaff option" where
  "staff sys staffIdx =
     (if staffIdx \<ge> 0 \<and> staffIdx < int (length (staves sys))
      then Some (staves sys ! nat staffIdx)
      else None)"

subsection \<open>Constants and collaborators outside the given sources\<close>

text \<open>
  Compile-time constants of the engraving library that \<open>system.cpp\<close> uses but does not
  define. They are parameters of the model; no property below depends on their values.
\<close>

record Consts =
  VOICES :: int
  BARLINE_SPAN_1LINESTAFF_FROM :: int
  BARLINE_SPAN_1LINESTAFF_TO :: int

text \<open>
  Functions of other classes that \<open>System\<close> calls: the skyline query, the layout methods of
  boxes and brackets, and the factory's fresh bracket. They are parameters as well. The layout
  method of a box is taken to decide the bounding box of that box and nothing else this model
  records.
\<close>

record 'sky Externals =
  minDistance :: "'sky \<Rightarrow> 'sky \<Rightarrow> qreal"
  vbox_layout :: "MeasureBase \<Rightarrow> RectF"
  hbox_layout2 :: "MeasureBase \<Rightarrow> RectF"
  tbox_layout :: "MeasureBase \<Rightarrow> RectF"
  bracket_layout :: "Bracket \<Rightarrow> Bracket"
  Factory_createBracket :: Bracket

datatype LogMsg = NoVisibleStaves int int | UnhandledMeasureType

subsection \<open>\<open>SysStaff::saveLayout\<close>, \<open>SysStaff::restoreLayout\<close>\<close>

definition saveLayout :: "'sky SysStaff \<Rightarrow> 'sky SysStaff" where
  "saveLayout s = s\<lparr>height := m_h (bbox s), yPos := m_y (bbox s)\<rparr>"

definition restoreLayout :: "'sky SysStaff \<Rightarrow> 'sky SysStaff" where
  "restoreLayout s = s\<lparr>bbox := setHeight (height s) (setY (yPos s) (bbox s))\<rparr>"

subsection \<open>\<open>System::vbox\<close>, \<open>System::firstMeasure\<close>, \<open>System::setMeasureHeight\<close>\<close>

definition vbox :: "'sky System \<Rightarrow> MeasureBase option" where
  "vbox sys =
     (case ml sys of
        [] \<Rightarrow> None
      | m # _ \<Rightarrow> if mb_kind m = VBOX \<or> mb_kind m = TBOX then Some m else None)"

definition firstMeasure :: "'sky System \<Rightarrow> MeasureBase option" where
  "firstMeasure sys = find (\<lambda>mb. mb_kind mb = MEASURE) (ml sys)"

text \<open>One round of the loop of \<open>setMeasureHeight\<close>: the entry and what is logged for it.\<close>

definition setMeasureHeight1 ::
  "'sky Externals \<Rightarrow> qreal \<Rightarrow> qreal \<Rightarrow> MeasureBase \<Rightarrow> MeasureBase \<times> LogMsg list" where
  "setMeasureHeight1 ext sp h m =
     (if mb_kind m = MEASURE then
        (m\<lparr>mb_bbox := setRect 0 (- sp) (m_w (mb_bbox m)) (h + 2 * sp) (mb_bbox m)\<rparr>, [])
      else if mb_kind m = HBOX then
        (let m1 = m\<lparr>mb_bbox := setRect 0 0 (m_w (mb_bbox m)) h (mb_bbox m)\<rparr>
         in (m1\<lparr>mb_bbox := hbox_layout2 ext m1\<rparr>, []))
      else if mb_kind m = TBOX then
        (m\<lparr>mb_bbox := tbox_layout ext m\<rparr>, [])
      else (m, [UnhandledMeasureType]))"

definition setMeasureHeight ::
  "'sky Externals \<Rightarrow> Score \<Rightarrow> qreal \<Rightarrow> 'sky System \<Rightarrow> 'sky System \<times> LogMsg list" where
  "setMeasureHeight ext sc h sys =
     (let rs = map (setMeasureHeight1 ext (spatium sc) h) (ml sys)
      in (sys\<lparr>ml := map fst rs\<rparr>, concat (map snd rs)))"

subsection \<open>\<open>System::layout2\<close>: the staff stacker\<close>

text \<open>
  First loop of \<open>layout2\<close>: the indices of the visible staves, in order, and the layout
  records with the bounding box of every other staff cleared. \<open>score()->staff(i)\<close> is
  dereferenced, so a system with more records than the score has staves fails.
\<close>

fun visibleStaves ::
  "Score \<Rightarrow> nat \<Rightarrow> 'sky SysStaff list \<Rightarrow> error + (nat list \<times> 'sky SysStaff list)" where
  "visibleStaves sc i [] = Inr ([], [])"
| "visibleStaves sc i (ss # rest) =
     (case score_staff sc (int i) of
        None \<Rightarrow> Inl NullPointer
      | Some s \<Rightarrow>
          (case visibleStaves sc (Suc i) rest of
             Inl e \<Rightarrow> Inl e
           | Inr (vis, rest') \<Rightarrow>
               if st_show s \<and> ss_show ss then Inr (i # vis, ss # rest')
               else Inr (vis, ss\<lparr>bbox := RectF_null\<rparr> # rest')))"

text \<open>
  The scan of the measures for spacers at the boundary below staff \<open>si1\<close> and above staff
  \<open>si2\<close>: the distance and the flag \<open>fixedSpace\<close>. \<open>h\<close> is \<open>staff->height()\<close>.
\<close>

fun spacerScan ::
  "int \<Rightarrow> int \<Rightarrow> qreal \<Rightarrow> MeasureBase list \<Rightarrow> qreal \<Rightarrow> qreal \<times> bool" where
  "spacerScan si1 si2 h [] dst = (dst, False)"
| "spacerScan si1 si2 h (mb # rest) dst =
     (if mb_kind mb \<noteq> MEASURE then spacerScan si1 si2 h rest dst
      else
        (case vspacerDown mb si1 of
           Some sp \<Rightarrow>
             if spacerType sp = FIXED then (h + gap sp, True)
             else
               (let dst1 = max dst (h + gap sp) in
                case vspacerUp mb si2 of
                  Some sp2 \<Rightarrow> spacerScan si1 si2 h rest (max dst1 (gap sp2 + h))
                | None \<Rightarrow> spacerScan si1 si2 h rest dst1)
         | None \<Rightarrow>
             (case vspacerUp mb si2 of
                Some sp2 \<Rightarrow> spacerScan si1 si2 h rest (max dst (gap sp2 + h))
              | None \<Rightarrow> spacerScan si1 si2 h rest dst)))"

text \<open>The style distances after the test of \<open>enableVerticalSpread()\<close>.\<close>

definition effStaffDistance :: "Score \<Rightarrow> qreal" where
  "effStaffDistance sc = (if enableVerticalSpread sc then minStaffSpread sc else staffDistance sc)"

definition effAkkoladeDistance :: "Score \<Rightarrow> qreal" where
  "effAkkoladeDistance sc = (if enableVerticalSpread sc then minStaffSpread sc else akkoladeDistance sc)"

text \<open>
  The distance from staff \<open>si1\<close> to the next visible staff \<open>si2\<close>, as one round of the main
  loop computes it, with the layout record of \<open>si1\<close> (whose remembered continuous distance
  the round may raise).
\<close>

definition staffDist ::
  "'sky Externals \<Rightarrow> Score \<Rightarrow> 'sky System \<Rightarrow> 'sky SysStaff list \<Rightarrow> nat \<Rightarrow> nat
     \<Rightarrow> qreal \<times> 'sky SysStaff" where
  "staffDist ext sc sys sts si1 si2 =
     (let ss = sts ! si1;
          staff1 = sc_staves sc ! si1;
          staff2 = sc_staves sc ! si2;
          dst0 = st_height staff1;
          dst1 = (if st_part staff1 = st_part staff2 then
                     dst0 + effAkkoladeDistance sc *
                       (case firstMeasure sys of
                          Some m \<Rightarrow> staffMag staff1 (mb_tick m)
                        | None \<Rightarrow> 1)
                   else dst0 + effStaffDistance sc);
          dst2 = dst1 + userDist staff2;
          scan = spacerScan (int si1) (int si2) (st_height staff1) (ml sys) dst2;
          dst3 = fst scan;
          fixedSpace = snd scan
      in if \<not> fixedSpace then
           (let d = minDistance ext (skyline ss) (skyline (sts ! si2)) in
            if lineMode sc then
              (let previousDist = continuousDist ss in
               if d > previousDist
               then (max dst3 (d + minVerticalDistance sc), ss\<lparr>continuousDist := d\<rparr>)
               else (max dst3 (previousDist + minVerticalDistance sc), ss))
            else (max dst3 (d + minVerticalDistance sc), ss))
         else (dst3, ss))"

text \<open>The vertical offset and the height of the box of a staff (one line or more).\<close>

definition staffYOffset :: "Consts \<Rightarrow> Score \<Rightarrow> Staff \<Rightarrow> qreal" where
  "staffYOffset k sc st =
     (if st_lines st = 1 then spatium sc * real_of_int (BARLINE_SPAN_1LINESTAFF_TO k) * 0.5 else 0)"

definition staffBoxHeight :: "Consts \<Rightarrow> Score \<Rightarrow> Staff \<Rightarrow> qreal" where
  "staffBoxHeight k sc st =
     (if st_lines st = 1
      then spatium sc * real_of_int (BARLINE_SPAN_1LINESTAFF_TO k - BARLINE_SPAN_1LINESTAFF_FROM k) * 0.5
      else st_height st)"

text \<open>\<open>setYOff\<close>, \<open>bbox().setRect\<close> and \<open>saveLayout\<close> on one record, at vertical position \<open>y\<close>.\<close>

definition placeStaff ::
  "Consts \<Rightarrow> Score \<Rightarrow> 'sky System \<Rightarrow> Staff \<Rightarrow> qreal \<Rightarrow> 'sky SysStaff \<Rightarrow> 'sky SysStaff" where
  "placeStaff k sc sys st y ss =
     saveLayout
       (ss\<lparr>yOff := staffYOffset k sc st,
           bbox := setRect (leftMargin sys) (y - staffYOffset k sc st)
                     (m_w (sys_bbox sys) - leftMargin sys) (staffBoxHeight k sc st) (bbox ss)\<rparr>)"

text \<open>
  The main loop of \<open>layout2\<close> over the visible staves, from the top, \<open>y\<close> being the position
  reached. The loop ends at the last visible staff; the caller has excluded the empty list.
\<close>

fun stackStaves ::
  "Consts \<Rightarrow> 'sky Externals \<Rightarrow> Score \<Rightarrow> 'sky System \<Rightarrow> nat list \<Rightarrow> qreal
     \<Rightarrow> 'sky SysStaff list \<Rightarrow> 'sky SysStaff list" where
  "stackStaves k ext sc sys [] y sts = sts"
| "stackStaves k ext sc sys [si1] y sts =
     sts[si1 := placeStaff k sc sys (sc_staves sc ! si1) y (sts ! si1)]"
| "stackStaves k ext sc sys (si1 # si2 # rest) y sts =
     (let r = staffDist ext sc sys sts si1 si2;
          dst = fst r;
          ss = snd r
      in stackStaves k ext sc sys (si2 # rest) (y + dst)
           (sts[si1 := placeStaff k sc sys (sc_staves sc ! si1) y ss]))"

subsection \<open>Loops that stop at the first failure\<close>

text \<open>
  A \<open>for\<close> loop over a list whose body may dereference a null pointer: the state is threaded
  through the rounds, and the first failure ends the loop.
\<close>

fun foldE :: "('a \<Rightarrow> 's \<Rightarrow> error + 's) \<Rightarrow> 'a list \<Rightarrow> 's \<Rightarrow> error + 's" where
  "foldE f [] s = Inr s"
| "foldE f (x # xs) s = (case f x s of Inl e \<Rightarrow> Inl e | Inr s' \<Rightarrow> foldE f xs s')"

fun mapE :: "('a \<Rightarrow> error + 'b) \<Rightarrow> 'a list \<Rightarrow> error + 'b list" where
  "mapE f [] = Inr []"
| "mapE f (x # xs) =
     (case f x of
        Inl e \<Rightarrow> Inl e
      | Inr y \<Rightarrow> (case mapE f xs of Inl e \<Rightarrow> Inl e | Inr ys \<Rightarrow> Inr (y # ys)))"

subsection \<open>Brackets\<close>

definition br_column :: "Bracket \<Rightarrow> int" where
  "br_column b = bi_column (br_item b)"

definition br_bracketType :: "Bracket \<Rightarrow> BracketType" where
  "br_bracketType b = bi_bracketType (br_item b)"

definition br_span :: "Bracket \<Rightarrow> int" where
  "br_span b = bi_bracketSpan (br_item b)"

text \<open>
  Modelled from the spec: \<open>Bracket::setStaffSpan\<close> is defined outside the given sources; a
  bracket instance spans the contiguous range \<open>[firstStaff, lastStaff]\<close>.
\<close>

definition setStaffSpan :: "int \<Rightarrow> int \<Rightarrow> Bracket \<Rightarrow> Bracket" where
  "setStaffSpan a b br = br\<lparr>br_firstStaff := a, br_lastStaff := b\<rparr>"

text \<open>The two loops of \<open>createBracket\<close> that move the ends of the range past hidden staves.\<close>

function firstShown :: "'sky System \<Rightarrow> int \<Rightarrow> int \<Rightarrow> error + int" where
  "firstShown sys firstStaff lastStaff =
     (if firstStaff \<le> lastStaff then
        (case staff sys firstStaff of
           None \<Rightarrow> Inl NullPointer
         | Some s \<Rightarrow> if ss_show s then Inr firstStaff else firstShown sys (firstStaff + 1) lastStaff)
      else Inr firstStaff)"
  by pat_completeness auto
termination
  by (relation "measure (\<lambda>(sys, f, l). nat (l - f + 1))") auto

function lastShown :: "'sky System \<Rightarrow> int \<Rightarrow> int \<Rightarrow> error + int" where
  "lastShown sys firstStaff lastStaff =
     (if lastStaff \<ge> firstStaff then
        (case staff sys lastStaff of
           None \<Rightarrow> Inl NullPointer
         | Some s \<Rightarrow> if ss_show s then Inr lastStaff else lastShown sys firstStaff (lastStaff - 1))
      else Inr lastStaff)"
  by pat_completeness auto
termination
  by (relation "measure (\<lambda>(sys, f, l). nat (l - f + 1))") auto

text \<open>The search of the old brackets for one to reuse: \<open>takeAt\<close> of the first match.\<close>

fun takeMatching :: "(Bracket \<Rightarrow> bool) \<Rightarrow> Bracket list \<Rightarrow> Bracket option \<times> Bracket list" where
  "takeMatching P [] = (None, [])"
| "takeMatching P (b # bs) =
     (if P b then (Some b, bs)
      else (case takeMatching P bs of (r, bs') \<Rightarrow> (r, b # bs')))"

text \<open>
  The arithmetic of \<open>createBracket\<close> is done in the C++ type \<open>int\<close>, 32 bits wide.
  \<open>wrap_int\<close> takes the exact result of an addition, subtraction or multiplication to the
  value the compiled code holds, by two's-complement wrap-around (the language leaves signed
  overflow undefined). The increments of the two loops stay between the ends of the range and
  need no wrap. Elsewhere the integers are staff indices below the number of staves and values
  computed from them, read without wrap.
\<close>

definition wrap_int :: "int \<Rightarrow> int" where
  "wrap_int x = (x + 2147483648) mod 4294967296 - 2147483648"

text \<open>
  \<open>createBracket\<close>: the bracket if one is created, the old brackets left, and the system
  with the bracket appended to its brackets (\<open>add(b)\<close>).
\<close>

definition createBracket ::
  "Consts \<Rightarrow> 'sky Externals \<Rightarrow> Score \<Rightarrow> 'sky System \<Rightarrow> BracketItem \<Rightarrow> int \<Rightarrow> int
     \<Rightarrow> Bracket list \<Rightarrow> nat option
     \<Rightarrow> error + (Bracket option \<times> Bracket list \<times> 'sky System)" where
  "createBracket k ext sc sys bi column staffIdx bl measureId =
     (let nstaves = int (length (staves sys));
          lastStaff0 = wrap_int (wrap_int (staffIdx + bi_bracketSpan bi) - 1);
          lastStaff1 = (if lastStaff0 \<ge> nstaves then nstaves - 1 else lastStaff0)
      in case firstShown sys staffIdx lastStaff1 of
           Inl e \<Rightarrow> Inl e
         | Inr firstStaff \<Rightarrow>
             (case lastShown sys firstStaff lastStaff1 of
                Inl e \<Rightarrow> Inl e
              | Inr lastStaff \<Rightarrow>
                  (let span = wrap_int (wrap_int (lastStaff - firstStaff) + 1) in
                   if span > 1
                      \<or> bi_bracketSpan bi = span
                      \<or> (span = 1 \<and> alwaysShowBracketsWhenEmptyStavesAreHidden sc)
                   then
                     (let track = wrap_int (staffIdx * VOICES k);
                          found = takeMatching
                                    (\<lambda>b. br_track b = track \<and> br_column b = column
                                          \<and> br_bracketType b = bi_bracketType bi
                                          \<and> br_measure b = measureId) bl;
                          b = (case fst found of
                                 Some b0 \<Rightarrow> b0
                               | None \<Rightarrow> (Factory_createBracket ext)
                                           \<lparr>br_item := bi, br_track := track,
                                            br_measure := measureId, br_generated := True\<rparr>);
                          b' = setStaffSpan firstStaff lastStaff b
                      in Inr (Some b', snd found, sys\<lparr>brackets := brackets sys @ [b']\<rparr>))
                   else Inr (None, bl, sys))))"

text \<open>\<open>getBracketsColumnsCount\<close>.\<close>

definition getBracketsColumnsCount :: "Score \<Rightarrow> 'sky System \<Rightarrow> error + int" where
  "getBracketsColumnsCount sc sys =
     foldE (\<lambda>idx columns.
              case score_staff sc (int idx) of
                None \<Rightarrow> Inl NullPointer
              | Some st \<Rightarrow> Inr (fold (\<lambda>bi c. max c (bi_column bi + 1)) (st_brackets st) columns))
       [0 ..< length (staves sys)] 0"

text \<open>The conversion of a \<open>qreal\<close> to \<open>int\<close> (towards zero), as in \<open>for (int w : bracketWidth)\<close>.\<close>

definition toInt :: "qreal \<Rightarrow> int" where
  "toInt w = (if w \<ge> 0 then \<lfloor>w\<rfloor> else \<lceil>w\<rceil>)"

text \<open>
  \<open>layoutBrackets\<close>: the state of its loops is the system (its brackets grow), the old
  brackets not yet reused, and the widest bracket of every column.
\<close>

definition layoutBrackets_item ::
  "Consts \<Rightarrow> 'sky Externals \<Rightarrow> Score \<Rightarrow> nat option \<Rightarrow> nat \<Rightarrow> nat \<Rightarrow> BracketItem
     \<Rightarrow> 'sky System \<times> Bracket list \<times> qreal list
     \<Rightarrow> error + ('sky System \<times> Bracket list \<times> qreal list)" where
  "layoutBrackets_item k ext sc measureId staffIdx i bi st =
     (case st of (sys, bl, bracketWidth) \<Rightarrow>
        if bi_column bi \<noteq> int i \<or> bi_bracketType bi = NO_BRACKET then Inr st
        else
          (case createBracket k ext sc sys bi (int i) (int staffIdx) bl measureId of
             Inl e \<Rightarrow> Inl e
           | Inr (None, bl', sys') \<Rightarrow> Inr (sys', bl', bracketWidth)
           | Inr (Some b, bl', sys') \<Rightarrow>
               Inr (sys', bl', bracketWidth[i := max (bracketWidth ! i) (br_width b)])))"

definition layoutBrackets_staff ::
  "Consts \<Rightarrow> 'sky Externals \<Rightarrow> Score \<Rightarrow> nat option \<Rightarrow> nat \<Rightarrow> nat
     \<Rightarrow> 'sky System \<times> Bracket list \<times> qreal list
     \<Rightarrow> error + ('sky System \<times> Bracket list \<times> qreal list)" where
  "layoutBrackets_staff k ext sc measureId columns staffIdx st =
     (case score_staff sc (int staffIdx) of
        None \<Rightarrow> (if columns = 0 then Inr st else Inl NullPointer)
      | Some s \<Rightarrow>
          foldE (\<lambda>i. foldE (layoutBrackets_item k ext sc measureId staffIdx i) (st_brackets s))
            [0 ..< columns] st)"

definition layoutBrackets ::
  "Consts \<Rightarrow> 'sky Externals \<Rightarrow> Score \<Rightarrow> 'sky System \<Rightarrow> error + (qreal \<times> 'sky System)" where
  "layoutBrackets k ext sc sys =
     (case getBracketsColumnsCount sc sys of
        Inl e \<Rightarrow> Inl e
      | Inr columns \<Rightarrow>
          (case foldE (layoutBrackets_staff k ext sc (map_option mb_id (firstMeasure sys)) (nat columns))
                  [0 ..< length (staves sys)]
                  (sys\<lparr>brackets := []\<rparr>, brackets sys, replicate (nat columns) 0) of
             Inl e \<Rightarrow> Inl e
           | Inr (sys', bl, bracketWidth) \<Rightarrow>
               Inr (if brackets sys' \<noteq> []
                    then fold (\<lambda>w total. total + (real_of_int (toInt w) + bracketDistance sc))
                           bracketWidth 0
                    else 0,
                    sys')))"

text \<open>\<open>totalBracketOffset\<close>: the offset, the score as the call leaves it, and the system.\<close>

definition totalBracketOffset ::
  "Consts \<Rightarrow> 'sky Externals \<Rightarrow> Score \<Rightarrow> 'sky System \<Rightarrow> error + (qreal \<times> Score \<times> 'sky System)" where
  "totalBracketOffset k ext sc sys =
     (let hideEmptyStaves0 = hideEmptyStaves sc;
          sc1 = sc\<lparr>hideEmptyStaves := False\<rparr>
      in case layoutBrackets k ext sc1 sys of
           Inl e \<Rightarrow> Inl e
         | Inr (offset, sys') \<Rightarrow> Inr (offset, sc1\<lparr>hideEmptyStaves := hideEmptyStaves0\<rparr>, sys'))"

text \<open>
  \<open>setBracketsXPosition\<close>. The inner loop reads staff range, column and width of the
  brackets, the outer loop writes their horizontal position only, so the rounds of the
  outer loop are independent.
\<close>

definition xOffsetStep :: "qreal \<Rightarrow> Bracket \<Rightarrow> Bracket \<Rightarrow> qreal \<Rightarrow> qreal" where
  "xOffsetStep bd b1 b2 xOffset =
     (let b1FirstStaffInB2 = (br_firstStaff b1 \<ge> br_firstStaff b2 \<and> br_firstStaff b1 \<le> br_lastStaff b2);
          b1LastStaffInB2 = (br_lastStaff b1 \<ge> br_firstStaff b2 \<and> br_lastStaff b1 \<le> br_lastStaff b2)
      in if br_column b1 > br_column b2 \<and> (b1FirstStaffInB2 \<or> b1LastStaffInB2)
         then xOffset + (br_width b2 + bd)
         else xOffset)"

definition setBracketsXPosition :: "Score \<Rightarrow> qreal \<Rightarrow> 'sky System \<Rightarrow> 'sky System" where
  "setBracketsXPosition sc xPosition sys =
     sys\<lparr>brackets :=
           map (\<lambda>b1. b1\<lparr>br_xpos := xPosition
                                   - fold (xOffsetStep (bracketDistance sc) b1) (brackets sys) 0
                                   - br_width b1\<rparr>)
             (brackets sys)\<rparr>"

text \<open>\<open>_staves[i]\<close>: the unchecked index of the list of layout records.\<close>

definition staves_at :: "'sky System \<Rightarrow> int \<Rightarrow> error + 'sky SysStaff" where
  "staves_at sys i =
     (if 0 \<le> i \<and> i < int (length (staves sys)) then Inr (staves sys ! nat i) else Inl OutOfRange)"

function skipHiddenDown :: "'sky System \<Rightarrow> int \<Rightarrow> int \<Rightarrow> error + int" where
  "skipHiddenDown sys staffIdx1 staffIdx2 =
     (if staffIdx1 \<le> staffIdx2 then
        (case staves_at sys staffIdx1 of
           Inl e \<Rightarrow> Inl e
         | Inr s \<Rightarrow> if \<not> ss_show s then skipHiddenDown sys (staffIdx1 + 1) staffIdx2
                    else Inr staffIdx1)
      else Inr staffIdx1)"
  by pat_completeness auto
termination
  by (relation "measure (\<lambda>(sys, f, l). nat (l - f + 1))") auto

function skipHiddenUp :: "'sky System \<Rightarrow> int \<Rightarrow> int \<Rightarrow> error + int" where
  "skipHiddenUp sys staffIdx1 staffIdx2 =
     (if staffIdx1 \<le> staffIdx2 then
        (case staves_at sys staffIdx2 of
           Inl e \<Rightarrow> Inl e
         | Inr s \<Rightarrow> if \<not> ss_show s then skipHiddenUp sys staffIdx1 (staffIdx2 - 1)
                    else Inr staffIdx2)
      else Inr staffIdx2)"
  by pat_completeness auto
termination
  by (relation "measure (\<lambda>(sys, f, l). nat (l - f + 1))") auto

definition layoutBracketsVertical1 ::
  "'sky Externals \<Rightarrow> Score \<Rightarrow> 'sky System \<Rightarrow> Bracket \<Rightarrow> error + Bracket" where
  "layoutBracketsVertical1 ext sc sys b =
     (case skipHiddenDown sys (br_firstStaff b) (br_lastStaff b) of
        Inl e \<Rightarrow> Inl e
      | Inr staffIdx1 \<Rightarrow>
          (case skipHiddenUp sys staffIdx1 (br_lastStaff b) of
             Inl e \<Rightarrow> Inl e
           | Inr staffIdx2 \<Rightarrow>
               (let notHidden =
                      (if alwaysShowBracketsWhenEmptyStavesAreHidden sc
                       then staffIdx1 \<le> staffIdx2
                       else staffIdx1 < staffIdx2 \<or> (br_span b = 1 \<and> staffIdx1 = staffIdx2))
                in if notHidden then
                     (case staves_at sys staffIdx1 of
                        Inl e \<Rightarrow> Inl e
                      | Inr s1 \<Rightarrow>
                          (case staves_at sys staffIdx2 of
                             Inl e \<Rightarrow> Inl e
                           | Inr s2 \<Rightarrow>
                               (let sy = rect_top (bbox s1); ey = rect_bottom (bbox s2)
                                in Inr (bracket_layout ext (b\<lparr>br_ypos := sy, br_height := ey - sy\<rparr>)))))
                   else Inr (bracket_layout ext (b\<lparr>br_ypos := 0, br_height := 0 - 0\<rparr>)))))"

definition layoutBracketsVertical ::
  "'sky Externals \<Rightarrow> Score \<Rightarrow> 'sky System \<Rightarrow> error + 'sky System" where
  "layoutBracketsVertical ext sc sys =
     (case mapE (layoutBracketsVertical1 ext sc sys) (brackets sys) of
        Inl e \<Rightarrow> Inl e
      | Inr bs \<Rightarrow> Inr (sys\<lparr>brackets := bs\<rparr>))"

subsection \<open>Instrument names\<close>

text \<open>
  \<open>firstSysStaffOfPart\<close>. A part is identified by its position \<open>pidx\<close> in the list of
  parts (the source compares pointers); the loop adds up the staves of the parts before it.
\<close>

fun firstSysStaffOfPart_loop :: "Part list \<Rightarrow> nat \<Rightarrow> int \<Rightarrow> int" where
  "firstSysStaffOfPart_loop [] pidx staffIdx = - 1"
| "firstSysStaffOfPart_loop (p # ps) pidx staffIdx =
     (if pidx = 0 then staffIdx
      else firstSysStaffOfPart_loop ps (pidx - 1) (staffIdx + int (nstaves p)))"

definition firstSysStaffOfPart :: "Score \<Rightarrow> nat \<Rightarrow> int" where
  "firstSysStaffOfPart sc pidx = firstSysStaffOfPart_loop (parts sc) pidx 0"

text \<open>
  \<open>firstVisibleSysStaffOfPart\<close>: \<open>n\<close> indices from \<open>idx\<close> on are tried; \<open>staff(idx)\<close> is
  dereferenced.
\<close>

fun firstVisible_loop :: "'sky System \<Rightarrow> int \<Rightarrow> nat \<Rightarrow> error + int" where
  "firstVisible_loop sys idx 0 = Inr (- 1)"
| "firstVisible_loop sys idx (Suc n) =
     (case staff sys idx of
        None \<Rightarrow> Inl NullPointer
      | Some s \<Rightarrow> if ss_show s then Inr idx else firstVisible_loop sys (idx + 1) n)"

definition firstVisibleSysStaffOfPart :: "Score \<Rightarrow> 'sky System \<Rightarrow> nat \<Rightarrow> error + int" where
  "firstVisibleSysStaffOfPart sc sys pidx =
     firstVisible_loop sys (firstSysStaffOfPart sc pidx) (nstaves (parts sc ! pidx))"

text \<open>
  The block of \<open>layoutInstrumentNames\<close> that moves the names of the record \<open>staffIdx\<close> to
  the record \<open>visible\<close> (\<open>visible \<noteq> staffIdx\<close>).
\<close>

definition moveNames :: "Consts \<Rightarrow> int \<Rightarrow> int \<Rightarrow> 'sky System \<Rightarrow> error + 'sky System" where
  "moveNames k staffIdx visible sys =
     (case staff sys visible of
        None \<Rightarrow> Inl NullPointer
      | Some vs \<Rightarrow>
          (case staff sys staffIdx of
             None \<Rightarrow> Inl NullPointer
           | Some s \<Rightarrow>
               (let moved = map (\<lambda>t. t\<lparr>in_track := visible * VOICES k, in_sysStaff := visible\<rparr>)
                              (instrumentNames s);
                    vs' = vs\<lparr>instrumentNames := instrumentNames vs @ moved\<rparr>;
                    s' = s\<lparr>instrumentNames := []\<rparr>
                in Inr (sys\<lparr>staves := (staves sys)[nat visible := vs', nat staffIdx := s']\<rparr>))))"

text \<open>The loop of case 0 of the switch: the last shown record from index \<open>i\<close> down to 1.\<close>

function lastShownFrom ::
  "'sky System \<Rightarrow> int \<Rightarrow> 'sky SysStaff option \<Rightarrow> error + 'sky SysStaff option" where
  "lastShownFrom sys i s2 =
     (if i > 0 then
        (case staff sys i of
           None \<Rightarrow> Inl NullPointer
         | Some s3 \<Rightarrow> if ss_show s3 then Inr (Some s3) else lastShownFrom sys (i - 1) s2)
      else Inr s2)"
  by pat_completeness auto
termination
  by (relation "measure (\<lambda>(sys, i, s2). nat i)") auto

text \<open>The switch over \<open>layoutPos()\<close>: the pair \<open>(y1, y2)\<close>.\<close>

definition nameSpan ::
  "'sky System \<Rightarrow> int \<Rightarrow> int \<Rightarrow> 'sky SysStaff \<Rightarrow> int \<Rightarrow> error + (qreal \<times> qreal)" where
  "nameSpan sys staffIdx nst s lp =
     (if lp = 1 then Inr (rect_top (bbox s), rect_bottom (bbox s))
      else if lp = 2 then
        (case staff sys (staffIdx + 1) of
           None \<Rightarrow> Inl NullPointer
         | Some a \<Rightarrow> Inr (rect_top (bbox s), rect_bottom (bbox a)))
      else if lp = 3 then
        (case staff sys (staffIdx + 1) of
           None \<Rightarrow> Inl NullPointer
         | Some a \<Rightarrow> Inr (rect_top (bbox a), rect_bottom (bbox a)))
      else if lp = 4 then
        (case staff sys (staffIdx + 1) of
           None \<Rightarrow> Inl NullPointer
         | Some a \<Rightarrow>
             (case staff sys (staffIdx + 2) of
                None \<Rightarrow> Inl NullPointer
              | Some b \<Rightarrow> Inr (rect_top (bbox a), rect_bottom (bbox b))))
      else if lp = 5 then
        (case staff sys (staffIdx + 2) of
           None \<Rightarrow> Inl NullPointer
         | Some b \<Rightarrow> Inr (rect_top (bbox b), rect_bottom (bbox b)))
      else
        (case lastShownFrom sys (staffIdx + nst - 1) (staff sys staffIdx) of
           Inl e \<Rightarrow> Inl e
         | Inr None \<Rightarrow> Inl NullPointer
         | Inr (Some s2) \<Rightarrow> Inr (rect_top (bbox s), rect_bottom (bbox s2))))"

definition positionName ::
  "'sky System \<Rightarrow> int \<Rightarrow> int \<Rightarrow> 'sky SysStaff \<Rightarrow> InstrumentName \<Rightarrow> error + InstrumentName" where
  "positionName sys staffIdx nst s t =
     (case nameSpan sys staffIdx nst s (layoutPos t) of
        Inl e \<Rightarrow> Inl e
      | Inr (y1, y2) \<Rightarrow> Inr (t\<lparr>in_ypos := y1 + (y2 - y1) * 0.5 + in_offset_y t\<rparr>))"

text \<open>The second loop of a round: the names of the record \<open>sidx\<close> get their position.\<close>

definition positionNames :: "int \<Rightarrow> int \<Rightarrow> int \<Rightarrow> 'sky System \<Rightarrow> error + 'sky System" where
  "positionNames staffIdx nst sidx sys =
     (case staff sys sidx of
        None \<Rightarrow> Inl NullPointer
      | Some s \<Rightarrow>
          (case mapE (positionName sys staffIdx nst s) (instrumentNames s) of
             Inl e \<Rightarrow> Inl e
           | Inr ts \<Rightarrow> Inr (sys\<lparr>staves := (staves sys)[nat sidx := s\<lparr>instrumentNames := ts\<rparr>]\<rparr>)))"

text \<open>One round of the loop of \<open>layoutInstrumentNames\<close>, for the part at position \<open>pidx\<close>.\<close>

definition layoutInstrumentNames_part ::
  "Consts \<Rightarrow> Score \<Rightarrow> nat \<Rightarrow> int \<Rightarrow> 'sky System \<Rightarrow> error + 'sky System" where
  "layoutInstrumentNames_part k sc pidx staffIdx sys =
     (case firstVisibleSysStaffOfPart sc sys pidx of
        Inl e \<Rightarrow> Inl e
      | Inr visible \<Rightarrow>
          if visible \<ge> 0 then
            (if visible \<noteq> staffIdx then
               (case moveNames k staffIdx visible sys of
                  Inl e \<Rightarrow> Inl e
                | Inr sys1 \<Rightarrow> positionNames staffIdx (int (nstaves (parts sc ! pidx))) visible sys1)
             else positionNames staffIdx (int (nstaves (parts sc ! pidx))) staffIdx sys)
          else Inr sys)"

fun layoutInstrumentNames_loop ::
  "Consts \<Rightarrow> Score \<Rightarrow> nat \<Rightarrow> nat \<Rightarrow> int \<Rightarrow> 'sky System \<Rightarrow> error + 'sky System" where
  "layoutInstrumentNames_loop k sc 0 pidx staffIdx sys = Inr sys"
| "layoutInstrumentNames_loop k sc (Suc n) pidx staffIdx sys =
     (case layoutInstrumentNames_part k sc pidx staffIdx sys of
        Inl e \<Rightarrow> Inl e
      | Inr sys' \<Rightarrow>
          layoutInstrumentNames_loop k sc n (Suc pidx)
            (staffIdx + int (nstaves (parts sc ! pidx))) sys')"

definition layoutInstrumentNames :: "Consts \<Rightarrow> Score \<Rightarrow> 'sky System \<Rightarrow> error + 'sky System" where
  "layoutInstrumentNames k sc sys = layoutInstrumentNames_loop k sc (length (parts sc)) 0 0 sys"

subsection \<open>\<open>System::layout2\<close> and \<open>System::restoreLayout2\<close>\<close>

text \<open>
  \<open>layout2\<close>: the system as the call leaves it and what it logs, or the failure. The last
  block of the function lays out cross-staff slurs; it reads the first and the last entry of
  the measure list and touches no field of this model.
\<close>

definition layout2 ::
  "Consts \<Rightarrow> 'sky Externals \<Rightarrow> Score \<Rightarrow> 'sky System \<Rightarrow> error + ('sky System \<times> LogMsg list)" where
  "layout2 k ext sc sys =
     (case vbox sys of
        Some vb \<Rightarrow>
          (let vb' = vb\<lparr>mb_bbox := vbox_layout ext vb\<rparr>
           in Inr (sys\<lparr>ml := vb' # tl (ml sys), sys_bbox := mb_bbox vb'\<rparr>, []))
      | None \<Rightarrow>
          (case visibleStaves sc 0 (staves sys) of
             Inl e \<Rightarrow> Inl e
           | Inr (vis, sts) \<Rightarrow>
               (let sys1 = sys\<lparr>sys_pos := (0, 0), staves := sts\<rparr> in
                if vis = [] then
                  Inr (sys1, [NoVisibleStaves (int (length (staves sys))) (int (length (sc_staves sc)))])
                else
                  (let sys2 = sys1\<lparr>staves := stackStaves k ext sc sys1 vis 0 sts\<rparr> in
                   case staff sys2 (int (last vis)) of
                     None \<Rightarrow> Inl NullPointer
                   | Some lst \<Rightarrow>
                       (let h = rect_bottom (bbox lst);
                            sys3 = sys2\<lparr>systemHeight := h, sys_bbox := setHeight h (sys_bbox sys2)\<rparr>;
                            r = setMeasureHeight ext sc h sys3
                        in case layoutBracketsVertical ext sc (fst r) of
                             Inl e \<Rightarrow> Inl e
                           | Inr sys5 \<Rightarrow>
                               (case layoutInstrumentNames k sc sys5 of
                                  Inl e \<Rightarrow> Inl e
                                | Inr sys6 \<Rightarrow>
                                    if ml sys6 = [] then Inl EmptyContainer
                                    else Inr (sys6, snd r)))))))"

definition restoreLayout2 ::
  "'sky Externals \<Rightarrow> Score \<Rightarrow> 'sky System \<Rightarrow> 'sky System \<times> LogMsg list" where
  "restoreLayout2 ext sc sys =
     (case vbox sys of
        Some vb \<Rightarrow> (sys, [])
      | None \<Rightarrow>
          (let sys1 = sys\<lparr>staves := map restoreLayout (staves sys)\<rparr>;
               sys2 = sys1\<lparr>sys_bbox := setHeight (systemHeight sys1) (sys_bbox sys1)\<rparr>
           in setMeasureHeight ext sc (systemHeight sys2) sys2))"

subsection \<open>Notions used to state the properties\<close>

text \<open>
  The vertical position of the first staff line of a layout record (\<open>SysStaff::y()\<close>): the
  top of its box plus the offset of the line within the box.
\<close>

definition staffLineY :: "'sky SysStaff \<Rightarrow> qreal" where
  "staffLineY s = m_y (bbox s) + yOff s"

text \<open>A staff is visible when the staff of the score and its layout record are both shown.\<close>

definition isVisible :: "Score \<Rightarrow> 'sky System \<Rightarrow> nat \<Rightarrow> bool" where
  "isVisible sc sys i = (st_show (sc_staves sc ! i) \<and> ss_show (staves sys ! i))"

definition visibleIndices :: "Score \<Rightarrow> 'sky System \<Rightarrow> nat list" where
  "visibleIndices sc sys = filter (isVisible sc sys) [0 ..< length (staves sys)]"

text \<open>
  Measure \<open>m\<close> is where the scan of \<open>ms\<close> for a FIXED spacer below staff \<open>si\<close> stops: it is a
  measure with the FIXED down-spacer \<open>sp\<close>, and no measure before it has one.
\<close>

definition firstFixedDown :: "MeasureBase list \<Rightarrow> int \<Rightarrow> MeasureBase list \<Rightarrow> Spacer \<Rightarrow> bool" where
  "firstFixedDown before si ms sp =
     (\<exists>m after. ms = before @ m # after \<and> mb_kind m = MEASURE
        \<and> vspacerDown m si = Some sp \<and> spacerType sp = FIXED
        \<and> (\<forall>m' \<in> set before. mb_kind m' = MEASURE \<longrightarrow>
              (case vspacerDown m' si of None \<Rightarrow> True | Some sp' \<Rightarrow> spacerType sp' \<noteq> FIXED)))"

text \<open>No measure of \<open>ms\<close> has a FIXED spacer below staff \<open>si\<close>.\<close>

definition noFixedDown :: "int \<Rightarrow> MeasureBase list \<Rightarrow> bool" where
  "noFixedDown si ms =
     (\<forall>m \<in> set ms. mb_kind m = MEASURE \<longrightarrow>
        (case vspacerDown m si of None \<Rightarrow> True | Some sp \<Rightarrow> spacerType sp \<noteq> FIXED))"

text \<open>A system without the instrument names of its layout records.\<close>

definition stripNames :: "'sky System \<Rightarrow> 'sky System" where
  "stripNames sys = sys\<lparr>staves := map (\<lambda>s. s\<lparr>instrumentNames := []\<rparr>) (staves sys)\<rparr>"

text \<open>
  The distance at the boundary between the staves \<open>a\<close> and \<open>b\<close> before the skyline is
  looked at (height of \<open>a\<close>, style distance, extra distance of \<open>b\<close>, spacers), and whether a
  FIXED spacer ended the scan.
\<close>

definition boundaryScan :: "Score \<Rightarrow> 'sky System \<Rightarrow> nat \<Rightarrow> nat \<Rightarrow> qreal \<times> bool" where
  "boundaryScan sc sys a b =
     spacerScan (int a) (int b) (st_height (sc_staves sc ! a)) (ml sys)
       ((if st_part (sc_staves sc ! a) = st_part (sc_staves sc ! b)
         then st_height (sc_staves sc ! a) + effAkkoladeDistance sc *
                (case firstMeasure sys of
                   Some m \<Rightarrow> staffMag (sc_staves sc ! a) (mb_tick m)
                 | None \<Rightarrow> 1)
         else st_height (sc_staves sc ! a) + effStaffDistance sc)
        + userDist (sc_staves sc ! b))"

text \<open>
  The visible span of a bracket as the spec words it: the staff range that starts at
  \<open>staffIdx\<close> and has the declared span is clamped to the system and then shrunk past the
  hidden staves at both ends; the visible span is the number of staves left.
\<close>

definition visibleSpan :: "'sky System \<Rightarrow> int \<Rightarrow> int \<Rightarrow> int" where
  "visibleSpan sys staffIdx declaredSpan =
     (let lastClamped = min (staffIdx + declaredSpan - 1) (int (length (staves sys)) - 1);
          shown = map (\<lambda>i. ss_show (staves sys ! nat i)) [staffIdx .. lastClamped]
      in int (length (dropWhile Not (rev (dropWhile Not shown)))))"

text \<open>
  The offset of a bracket as the spec words it: the widths (plus the bracket distance) of the
  brackets in higher-numbered columns whose staff range overlaps the one of the bracket.
\<close>

definition rangesOverlap :: "Bracket \<Rightarrow> Bracket \<Rightarrow> bool" where
  "rangesOverlap b1 b2 =
     (br_firstStaff b1 \<le> br_lastStaff b2 \<and> br_firstStaff b2 \<le> br_lastStaff b1)"

definition claimed_xOffset :: "qreal \<Rightarrow> Bracket \<Rightarrow> Bracket list \<Rightarrow> qreal" where
  "claimed_xOffset bd b1 bs =
     sum_list (map (\<lambda>b2. br_width b2 + bd)
       (filter (\<lambda>b2. br_column b2 > br_column b1 \<and> rangesOverlap b1 b2) bs))"

text \<open>
  The offset with the order of the columns the other way round: the widths (plus the bracket
  distance) of the brackets in lower-numbered columns whose staff range overlaps the one of
  the bracket.
\<close>

definition lower_xOffset :: "qreal \<Rightarrow> Bracket \<Rightarrow> Bracket list \<Rightarrow> qreal" where
  "lower_xOffset bd b1 bs =
     sum_list (map (\<lambda>b2. br_width b2 + bd)
       (filter (\<lambda>b2. br_column b2 < br_column b1 \<and> rangesOverlap b1 b2) bs))"

text \<open>
  The staff range of the bracket strictly contains the range of a bracket in a lower-numbered
  column: that bracket begins after its first staff and ends before its last staff.
\<close>

definition containsLowerColumn :: "Bracket list \<Rightarrow> Bracket \<Rightarrow> bool" where
  "containsLowerColumn bs b1 =
     (\<exists>b2 \<in> set bs. br_column b2 < br_column b1
        \<and> br_firstStaff b1 < br_firstStaff b2 \<and> br_lastStaff b2 < br_lastStaff b1)"

text \<open>
  The index of the first staff of the part at position \<open>p\<close>: the number of staves of the
  parts before it.
\<close>

definition partStart :: "Score \<Rightarrow> nat \<Rightarrow> int" where
  "partStart sc p = int (sum_list (map nstaves (take p (parts sc))))"

text \<open>
  Every instrument name of the system is centred at its part or at its first staff: the cases of
  the switch over \<open>layoutPos()\<close> that read no record beyond the part.
\<close>

definition plainNames :: "'sky System \<Rightarrow> bool" where
  "plainNames sys =
     (\<forall>s \<in> set (staves sys). \<forall>t \<in> set (instrumentNames s). layoutPos t \<notin> {2, 3, 4, 5})"

text \<open>Every bracket of the system spans records of the system.\<close>

definition bracketsInRange :: "'sky System \<Rightarrow> bool" where
  "bracketsInRange sys =
     (\<forall>b \<in> set (brackets sys). 0 \<le> br_firstStaff b \<and> br_lastStaff b < int (length (staves sys)))"

subsection \<open>Example scores and systems\<close>

definition ex_consts :: Consts where
  "ex_consts = \<lparr>VOICES = 4, BARLINE_SPAN_1LINESTAFF_FROM = - 4, BARLINE_SPAN_1LINESTAFF_TO = 4\<rparr>"

definition ex_bracket :: Bracket where
  "ex_bracket = \<lparr>br_item = \<lparr>bi_bracketType = NORMAL, bi_column = 0, bi_bracketSpan = 1\<rparr>,
     br_track = 0, br_measure = None, br_generated = False, br_firstStaff = 0, br_lastStaff = 0,
     br_width = 1, br_xpos = 0, br_ypos = 0, br_height = 0\<rparr>"

definition ex_ext :: "(qreal \<times> qreal) Externals" where
  "ex_ext = \<lparr>minDistance = (\<lambda>upper lower. snd upper - fst lower),
     vbox_layout = mb_bbox, hbox_layout2 = mb_bbox, tbox_layout = mb_bbox,
     bracket_layout = (\<lambda>b. b), Factory_createBracket = ex_bracket\<rparr>"

definition ex_staff :: "qreal \<Rightarrow> nat \<Rightarrow> Staff" where
  "ex_staff h p = \<lparr>st_show = True, st_lines = 5, st_height = h, st_part = p, userDist = 0,
     staffMag = (\<lambda>t. 1), st_brackets = []\<rparr>"

definition ex_score :: "Staff list \<Rightarrow> Part list \<Rightarrow> Score" where
  "ex_score sts ps = \<lparr>sc_staves = sts, parts = ps, minVerticalDistance = 0.5, staffDistance = 6.5,
     akkoladeDistance = 6.5, minStaffSpread = 3.5, bracketDistance = 0.25, spatium = 1,
     enableVerticalSpread = False, lineMode = False, hideEmptyStaves = True,
     alwaysShowBracketsWhenEmptyStavesAreHidden = False\<rparr>"

definition ex_sysStaff :: "qreal \<times> qreal \<Rightarrow> bool \<Rightarrow> (qreal \<times> qreal) SysStaff" where
  "ex_sysStaff sky v = \<lparr>bbox = RectF_null, skyline = sky, yOff = 0, yPos = 0, height = 0,
     continuousDist = - 1, ss_show = v, instrumentNames = []\<rparr>"

definition ex_measure :: "nat \<Rightarrow> (int \<Rightarrow> Spacer option) \<Rightarrow> (int \<Rightarrow> Spacer option) \<Rightarrow> MeasureBase" where
  "ex_measure i dn up = \<lparr>mb_id = i, mb_kind = MEASURE, mb_tick = 0,
     mb_bbox = \<lparr>m_x = 0, m_y = 0, m_w = 10, m_h = 0\<rparr>, vspacerDown = dn, vspacerUp = up\<rparr>"

definition ex_system :: "(qreal \<times> qreal) SysStaff list \<Rightarrow> MeasureBase list \<Rightarrow> (qreal \<times> qreal) System" where
  "ex_system sts ms = \<lparr>staves = sts, ml = ms, brackets = [], leftMargin = 1, systemHeight = 0,
     sys_bbox = \<lparr>m_x = 0, m_y = 0, m_w = 30, m_h = 0\<rparr>, sys_pos = (5, 5)\<rparr>"

definition c1_score :: Score where
  "c1_score = ex_score [ex_staff 4 0, ex_staff 4 1] [\<lparr>nstaves = 1\<rparr>, \<lparr>nstaves = 1\<rparr>]"

definition c1_system :: "(qreal \<times> qreal) System" where
  "c1_system = ex_system [ex_sysStaff (0, 30) True, ex_sysStaff (0, 4) True]
     [ex_measure 0 (\<lambda>i. if i = 0 then Some \<lparr>spacerType = DOWN, gap = 9\<rparr> else None)
                   (\<lambda>i. if i = 1 then Some \<lparr>spacerType = UP, gap = 8\<rparr> else None),
      ex_measure 1 (\<lambda>i. if i = 0 then Some \<lparr>spacerType = FIXED, gap = 3\<rparr> else None) (\<lambda>i. None),
      ex_measure 2 (\<lambda>i. if i = 0 then Some \<lparr>spacerType = DOWN, gap = 20\<rparr> else None) (\<lambda>i. None)]"

definition c10_score :: Score where
  "c10_score =
     ex_score [(ex_staff 4 0)\<lparr>st_brackets := [\<lparr>bi_bracketType = NORMAL, bi_column = 0, bi_bracketSpan = 2\<rparr>]\<rparr>,
               ex_staff 4 0]
       [\<lparr>nstaves = 2\<rparr>]"

definition c10_system :: "(qreal \<times> qreal) System" where
  "c10_system = ex_system [ex_sysStaff (0, 4) True, ex_sysStaff (0, 4) True] [ex_measure 0 (\<lambda>i. None) (\<lambda>i. None)]"

definition c2_score :: Score where
  "c2_score = (ex_score [ex_staff 1 0, ex_staff 1 1] [\<lparr>nstaves = 1\<rparr>, \<lparr>nstaves = 1\<rparr>])
                \<lparr>staffDistance := 0.5, minVerticalDistance := 2\<rparr>"

definition c2_ext :: "(qreal \<times> qreal) Externals" where
  "c2_ext = ex_ext\<lparr>minDistance := (\<lambda>upper lower. - 1000000)\<rparr>"

definition c2_system :: "(qreal \<times> qreal) System" where
  "c2_system = ex_system [ex_sysStaff (0, 0) True, ex_sysStaff (0, 0) True]
                 [ex_measure 0 (\<lambda>i. None) (\<lambda>i. None)]"

definition c2_result :: "(qreal \<times> qreal) System" where
  "c2_result = c2_system\<lparr>staves :=
            [(ex_sysStaff (0, 0) True)\<lparr>bbox := \<lparr>m_x = 1, m_y = 0, m_w = 29, m_h = 1\<rparr>, height := 1\<rparr>,
             (ex_sysStaff (0, 0) True)\<lparr>bbox := \<lparr>m_x = 1, m_y = 1.5, m_w = 29, m_h = 1\<rparr>,
                yPos := 1.5, height := 1\<rparr>],
          ml := [(ex_measure 0 (\<lambda>i. None) (\<lambda>i. None))\<lparr>mb_bbox := \<lparr>m_x = 0, m_y = - 1, m_w = 10, m_h = 4.5\<rparr>\<rparr>],
          systemHeight := 2.5, sys_bbox := \<lparr>m_x = 0, m_y = 0, m_w = 30, m_h = 2.5\<rparr>,
          sys_pos := (0, 0)\<rparr>"

definition c2w_system :: "(qreal \<times> qreal) System" where
  "c2w_system = ex_system [ex_sysStaff (0, 6) True, ex_sysStaff (0, 4) True]
     [ex_measure 0 (\<lambda>i. if i = 0 then Some \<lparr>spacerType = DOWN, gap = 9\<rparr> else None)
                   (\<lambda>i. if i = 1 then Some \<lparr>spacerType = UP, gap = 8\<rparr> else None)]"

definition c3_score :: Score where
  "c3_score = (ex_score [ex_staff 4 0, ex_staff 4 1] [\<lparr>nstaves = 1\<rparr>, \<lparr>nstaves = 1\<rparr>])\<lparr>lineMode := True\<rparr>"

definition c3_sysA :: "(qreal \<times> qreal) System" where
  "c3_sysA = ex_system [ex_sysStaff (0, 12) True, ex_sysStaff (0, 4) True]
               [ex_measure 0 (\<lambda>i. None) (\<lambda>i. None)]"

definition c3_sys1 :: "(qreal \<times> qreal) System" where
  "c3_sys1 = c3_sysA\<lparr>staves :=
       [(ex_sysStaff (0, 12) True)\<lparr>bbox := \<lparr>m_x = 1, m_y = 0, m_w = 29, m_h = 4\<rparr>, height := 4,
           continuousDist := 12\<rparr>,
        (ex_sysStaff (0, 4) True)\<lparr>bbox := \<lparr>m_x = 1, m_y = 12.5, m_w = 29, m_h = 4\<rparr>,
           yPos := 12.5, height := 4\<rparr>],
     ml := [(ex_measure 0 (\<lambda>i. None) (\<lambda>i. None))\<lparr>mb_bbox := \<lparr>m_x = 0, m_y = - 1, m_w = 10, m_h = 18.5\<rparr>\<rparr>],
     systemHeight := 16.5, sys_bbox := \<lparr>m_x = 0, m_y = 0, m_w = 30, m_h = 16.5\<rparr>,
     sys_pos := (0, 0)\<rparr>"

text \<open>The second pass starts from the result of the first with a smaller (partial) skyline.\<close>

definition c3_sysB :: "(qreal \<times> qreal) System" where
  "c3_sysB = c3_sys1\<lparr>staves := [(staves c3_sys1 ! 0)\<lparr>skyline := (0, 3)\<rparr>, staves c3_sys1 ! 1]\<rparr>"

definition c6_score :: Score where
  "c6_score = ex_score [(ex_staff 4 0)\<lparr>st_show := False\<rparr>, ex_staff 4 0] [\<lparr>nstaves = 2\<rparr>]"

definition c6_system :: "(qreal \<times> qreal) System" where
  "c6_system = (ex_system
      [(ex_sysStaff (0, 6) True)\<lparr>bbox := \<lparr>m_x = 1, m_y = 0, m_w = 29, m_h = 4\<rparr>\<rparr>,
       (ex_sysStaff (0, 4) False)\<lparr>bbox := \<lparr>m_x = 1, m_y = 12, m_w = 29, m_h = 4\<rparr>\<rparr>]
      [ex_measure 0 (\<lambda>i. None) (\<lambda>i. None)])\<lparr>systemHeight := 16\<rparr>"

definition c5_sysA :: "(qreal \<times> qreal) System" where
  "c5_sysA = ex_system [ex_sysStaff (0, 4) True, ex_sysStaff (0, 4) True]
               [ex_measure 0 (\<lambda>i. None) (\<lambda>i. None)]"

definition c5_sys1 :: "(qreal \<times> qreal) System" where
  "c5_sys1 = c5_sysA\<lparr>staves :=
       [(ex_sysStaff (0, 4) True)\<lparr>bbox := \<lparr>m_x = 1, m_y = 0, m_w = 29, m_h = 4\<rparr>, height := 4\<rparr>,
        (ex_sysStaff (0, 4) True)\<lparr>bbox := \<lparr>m_x = 1, m_y = 10.5, m_w = 29, m_h = 4\<rparr>,
           yPos := 10.5, height := 4\<rparr>],
     ml := [(ex_measure 0 (\<lambda>i. None) (\<lambda>i. None))\<lparr>mb_bbox := \<lparr>m_x = 0, m_y = - 1, m_w = 10, m_h = 16.5\<rparr>\<rparr>],
     systemHeight := 14.5, sys_bbox := \<lparr>m_x = 0, m_y = 0, m_w = 30, m_h = 14.5\<rparr>,
     sys_pos := (0, 0)\<rparr>"

text \<open>The lower staff is hidden after the first pass (its layout record is kept).\<close>

definition c5_sysH :: "(qreal \<times> qreal) System" where
  "c5_sysH = c5_sys1\<lparr>staves := [staves c5_sys1 ! 0, (staves c5_sys1 ! 1)\<lparr>ss_show := False\<rparr>]\<rparr>"

definition c5_sys2 :: "(qreal \<times> qreal) System" where
  "c5_sys2 = c5_sysH\<lparr>staves :=
       [staves c5_sys1 ! 0,
        (staves c5_sys1 ! 1)\<lparr>ss_show := False, bbox := RectF_null\<rparr>],
     ml := [(ex_measure 0 (\<lambda>i. None) (\<lambda>i. None))\<lparr>mb_bbox := \<lparr>m_x = 0, m_y = - 1, m_w = 10, m_h = 6\<rparr>\<rparr>],
     systemHeight := 4, sys_bbox := \<lparr>m_x = 0, m_y = 0, m_w = 30, m_h = 4\<rparr>\<rparr>"

definition c4_score :: Score where
  "c4_score = ex_score [ex_staff 4 0, ex_staff 4 0, ex_staff 4 0] [\<lparr>nstaves = 3\<rparr>]"

definition c4_system3 :: "(qreal \<times> qreal) System" where
  "c4_system3 = ex_system [ex_sysStaff (0, 4) True, ex_sysStaff (0, 4) False, ex_sysStaff (0, 4) True]
                  [ex_measure 0 (\<lambda>i. None) (\<lambda>i. None)]"

definition c4_system2 :: "(qreal \<times> qreal) System" where
  "c4_system2 = ex_system [ex_sysStaff (0, 4) True, ex_sysStaff (0, 4) False]
                  [ex_measure 0 (\<lambda>i. None) (\<lambda>i. None)]"

definition c4_item :: "int \<Rightarrow> BracketItem" where
  "c4_item n = \<lparr>bi_bracketType = NORMAL, bi_column = 0, bi_bracketSpan = n\<rparr>"

definition c4_wrapped :: Bracket where
  "c4_wrapped = ex_bracket\<lparr>br_item := c4_item 2147483647, br_track := 8, br_measure := None,
     br_generated := True, br_firstStaff := 2, br_lastStaff := - 2147483648\<rparr>"

definition c8_bracket :: "int \<Rightarrow> int \<Rightarrow> int \<Rightarrow> qreal \<Rightarrow> Bracket" where
  "c8_bracket col s1 s2 w =
     ex_bracket\<lparr>br_item := \<lparr>bi_bracketType = NORMAL, bi_column = col, bi_bracketSpan = s2 - s1 + 1\<rparr>,
       br_firstStaff := s1, br_lastStaff := s2, br_width := w\<rparr>"

definition c8_score :: Score where
  "c8_score = (ex_score [ex_staff 4 0, ex_staff 4 0] [\<lparr>nstaves = 2\<rparr>])\<lparr>bracketDistance := 1\<rparr>"

definition c8_system :: "(qreal \<times> qreal) System" where
  "c8_system = (ex_system [ex_sysStaff (0, 4) True, ex_sysStaff (0, 4) True]
                  [ex_measure 0 (\<lambda>i. None) (\<lambda>i. None)])
                 \<lparr>brackets := [c8_bracket 0 0 1 2, c8_bracket 1 0 1 3]\<rparr>"

definition c8_score4 :: Score where
  "c8_score4 = (ex_score [ex_staff 4 0, ex_staff 4 0, ex_staff 4 0, ex_staff 4 0] [\<lparr>nstaves = 4\<rparr>])
                 \<lparr>bracketDistance := 1\<rparr>"

definition c8_system4 :: "Bracket list \<Rightarrow> (qreal \<times> qreal) System" where
  "c8_system4 bs = (ex_system [ex_sysStaff (0, 4) True, ex_sysStaff (0, 4) True,
                                ex_sysStaff (0, 4) True, ex_sysStaff (0, 4) True]
                      [ex_measure 0 (\<lambda>i. None) (\<lambda>i. None)])\<lparr>brackets := bs\<rparr>"

definition c8_chain :: "(qreal \<times> qreal) System" where
  "c8_chain = c8_system4 [c8_bracket 0 0 1 1, c8_bracket 1 1 2 1, c8_bracket 2 2 3 1]"

definition c8_nested :: "(qreal \<times> qreal) System" where
  "c8_nested = c8_system4 [c8_bracket 0 0 3 2, c8_bracket 1 1 2 3, c8_bracket 2 1 1 1]"

definition c8_containing :: "(qreal \<times> qreal) System" where
  "c8_containing = c8_system4 [c8_bracket 1 0 3 3, c8_bracket 0 1 2 2]"

definition ex_name :: "string \<Rightarrow> InstrumentNameType \<Rightarrow> int \<Rightarrow> int \<Rightarrow> InstrumentName" where
  "ex_name txt ty staffIdx lp = \<lparr>in_text = txt, in_type = ty, in_track = staffIdx * 4,
     in_sysStaff = staffIdx, layoutPos = lp, in_offset_y = 0, in_ypos = 0\<rparr>"

definition c7_score :: Score where
  "c7_score = ex_score [ex_staff 4 0, ex_staff 4 1, ex_staff 4 1] [\<lparr>nstaves = 1\<rparr>, \<lparr>nstaves = 2\<rparr>]"

definition c7_system :: "(qreal \<times> qreal) System" where
  "c7_system = ex_system
     [(ex_sysStaff (0, 4) True)\<lparr>instrumentNames := [ex_name ''Flute'' LONG 0 0]\<rparr>,
      (ex_sysStaff (0, 4) False)\<lparr>instrumentNames := [ex_name ''Piano'' LONG 1 0, ex_name ''Pno.'' SHORT 1 1]\<rparr>,
      (ex_sysStaff (0, 4) True)\<lparr>bbox := \<lparr>m_x = 1, m_y = 10, m_w = 29, m_h = 4\<rparr>,
         instrumentNames := [ex_name ''left hand'' LONG 2 1]\<rparr>]
     [ex_measure 0 (\<lambda>i. None) (\<lambda>i. None)]"

lemmas ex_defs = ex_consts_def ex_bracket_def ex_ext_def ex_staff_def ex_score_def ex_sysStaff_def
  ex_measure_def ex_system_def

lemmas eval_defs = layout2_def vbox_def score_staff_def staff_def staffDist_def firstMeasure_def
  effStaffDistance_def effAkkoladeDistance_def placeStaff_def saveLayout_def setRect_def
  staffYOffset_def staffBoxHeight_def setMeasureHeight_def setMeasureHeight1_def
  layoutBracketsVertical_def layoutInstrumentNames_def layoutInstrumentNames_part_def
  firstVisibleSysStaffOfPart_def firstSysStaffOfPart_def positionNames_def moveNames_def
  rect_bottom_def rect_top_def setHeight_def RectF_null_def Let_def

lemmas c2_defs = c2_score_def c2_system_def c2_ext_def c2_result_def c2w_system_def

lemmas c3_defs = c3_score_def c3_sysA_def c3_sys1_def c3_sysB_def

lemmas c5_defs = c5_sysA_def c5_sys1_def c5_sysH_def c5_sys2_def

lemmas c4_defs = c4_score_def c4_system3_def c4_system2_def c4_item_def

lemmas c8_defs = c8_bracket_def c8_score_def c8_system_def c8_score4_def c8_system4_def
  c8_chain_def c8_nested_def c8_containing_def

lemmas c7_defs = ex_name_def c7_score_def c7_system_def

section \<open>Properties\<close>

subsection \<open>Auxiliary facts\<close>

lemma foldE_invariant:
  assumes "\<And>x s. x \<in> set xs \<Longrightarrow> I s \<Longrightarrow> \<exists>s'. f x s = Inr s' \<and> I s'"
    and "I s"
  shows "\<exists>s'. foldE f xs s = Inr s' \<and> I s'"
  using assms
proof (induction xs arbitrary: s)
  case Nil
  then show ?case by simp
next
  case (Cons x xs)
  from Cons.prems obtain s1 where s1: "f x s = Inr s1" "I s1"
    by (meson list.set_intros(1))
  have "\<exists>s'. foldE f xs s1 = Inr s' \<and> I s'"
    by (rule Cons.IH) (auto intro: Cons.prems(1) s1)
  with s1 show ?case by simp
qed

lemma staff_Some:
  "0 \<le> i \<Longrightarrow> i < int (length (staves sys)) \<Longrightarrow> staff sys i = Some (staves sys ! nat i)"
  by (simp add: staff_def)

lemma firstShown_ok:
  "0 \<le> f \<Longrightarrow> l < int (length (staves sys)) \<Longrightarrow>
     \<exists>r. firstShown sys f l = Inr r \<and> f \<le> r"
proof (induction sys f l rule: firstShown.induct)
  case (1 sys firstStaff lastStaff)
  show ?case
  proof (cases "firstStaff \<le> lastStaff")
    case False
    then show ?thesis by (subst firstShown.simps) simp
  next
    case True
    with "1.prems" have st: "staff sys firstStaff = Some (staves sys ! nat firstStaff)"
      by (simp add: staff_Some)
    show ?thesis
    proof (cases "ss_show (staves sys ! nat firstStaff)")
      case True
      with \<open>firstStaff \<le> lastStaff\<close> st show ?thesis by (subst firstShown.simps) simp
    next
      case False
      from "1.IH"[OF True st False] "1.prems"
      obtain r where "firstShown sys (firstStaff + 1) lastStaff = Inr r" "firstStaff + 1 \<le> r"
        by auto
      with True st False show ?thesis by (subst firstShown.simps) simp
    qed
  qed
qed

lemma lastShown_ok:
  "0 \<le> f \<Longrightarrow> l < int (length (staves sys)) \<Longrightarrow> \<exists>r. lastShown sys f l = Inr r \<and> r \<le> l"
proof (induction sys f l rule: lastShown.induct)
  case (1 sys firstStaff lastStaff)
  show ?case
  proof (cases "firstStaff \<le> lastStaff")
    case False
    then show ?thesis by (subst lastShown.simps) simp
  next
    case True
    with "1.prems" have st: "staff sys lastStaff = Some (staves sys ! nat lastStaff)"
      by (simp add: staff_Some)
    show ?thesis
    proof (cases "ss_show (staves sys ! nat lastStaff)")
      case True
      with \<open>firstStaff \<le> lastStaff\<close> st show ?thesis by (subst lastShown.simps) simp
    next
      case False
      from "1.IH"[OF True st False] "1.prems"
      obtain r where "lastShown sys firstStaff (lastStaff - 1) = Inr r" "r \<le> lastStaff - 1"
        by auto
      with True st False show ?thesis by (subst lastShown.simps) simp
    qed
  qed
qed

lemma wrap_int_id: "- 2147483648 \<le> x \<Longrightarrow> x < 2147483648 \<Longrightarrow> wrap_int x = x"
  by (simp add: wrap_int_def)

lemma wrap_int_add_left: "wrap_int (wrap_int x + y) = wrap_int (x + y)"
proof -
  have "(x + 2147483648) mod 4294967296 - 2147483648 + y + 2147483648
          = (x + 2147483648) mod 4294967296 + y"
    by simp
  then have "wrap_int (wrap_int x + y) = ((x + 2147483648) mod 4294967296 + y) mod 4294967296 - 2147483648"
    by (simp add: wrap_int_def)
  also have "\<dots> = (x + 2147483648 + y) mod 4294967296 - 2147483648"
    by (simp only: mod_add_left_eq)
  also have "\<dots> = wrap_int (x + y)"
  proof -
    have e: "x + 2147483648 + y = x + y + 2147483648" by arith
    show ?thesis unfolding e wrap_int_def by (rule refl)
  qed
  finally show ?thesis .
qed

lemma createBracket_ok:
  assumes "0 \<le> staffIdx"
  shows "\<exists>b bl' sys'. createBracket k ext sc sys bi column staffIdx bl measureId = Inr (b, bl', sys')
           \<and> staves sys' = staves sys"
proof -
  let ?l0 = "wrap_int (wrap_int (staffIdx + bi_bracketSpan bi) - 1)"
  let ?l1 = "if ?l0 \<ge> int (length (staves sys)) then int (length (staves sys)) - 1 else ?l0"
  have l1: "?l1 < int (length (staves sys))" by simp
  from firstShown_ok[OF assms l1] obtain f where f: "firstShown sys staffIdx ?l1 = Inr f" "staffIdx \<le> f"
    by blast
  with assms have "0 \<le> f" by simp
  from lastShown_ok[OF this l1] obtain l where l: "lastShown sys f ?l1 = Inr l" by blast
  show ?thesis
    using f(1) l unfolding createBracket_def Let_def
    by (auto split: if_splits)
qed

lemma getBracketsColumnsCount_ok:
  assumes "length (staves sys) \<le> length (sc_staves sc)"
  shows "\<exists>c. getBracketsColumnsCount sc sys = Inr c"
proof -
  have "\<exists>s'. foldE (\<lambda>idx columns.
              case score_staff sc (int idx) of
                None \<Rightarrow> Inl NullPointer
              | Some st \<Rightarrow> Inr (fold (\<lambda>bi c. max c (bi_column bi + 1)) (st_brackets st) columns))
       [0 ..< length (staves sys)] 0 = Inr s' \<and> True"
    by (rule foldE_invariant) (use assms in \<open>auto simp: score_staff_def\<close>)
  then show ?thesis by (simp add: getBracketsColumnsCount_def)
qed

lemma layoutBrackets_item_ok:
  assumes "staves (fst st) = S"
  shows "\<exists>st'. layoutBrackets_item k ext sc m staffIdx i bi st = Inr st' \<and> staves (fst st') = S"
proof -
  obtain sys bl bw where st: "st = (sys, bl, bw)" by (cases st) auto
  from createBracket_ok[of "int staffIdx" k ext sc sys bi "int i" bl m]
  obtain b bl' sys' where
    "createBracket k ext sc sys bi (int i) (int staffIdx) bl m = Inr (b, bl', sys')"
    "staves sys' = staves sys" by auto
  with assms st show ?thesis
    by (cases b) (auto simp: layoutBrackets_item_def)
qed

lemma layoutBrackets_staff_ok:
  assumes "staves (fst st) = S" and "staffIdx < length (sc_staves sc)"
  shows "\<exists>st'. layoutBrackets_staff k ext sc m columns staffIdx st = Inr st' \<and> staves (fst st') = S"
proof -
  from assms(2) obtain s where s: "score_staff sc (int staffIdx) = Some s"
    by (simp add: score_staff_def)
  have "\<exists>st'. foldE (\<lambda>i. foldE (layoutBrackets_item k ext sc m staffIdx i) (st_brackets s))
            [0 ..< columns] st = Inr st' \<and> staves (fst st') = S"
  proof (rule foldE_invariant[where I = "\<lambda>st. staves (fst st) = S"])
    fix i and st1 :: "'a System \<times> Bracket list \<times> qreal list"
    assume "staves (fst st1) = S"
    then show "\<exists>s'. foldE (layoutBrackets_item k ext sc m staffIdx i) (st_brackets s) st1 = Inr s'
                 \<and> staves (fst s') = S"
      by (rule foldE_invariant[where I = "\<lambda>st. staves (fst st) = S", rotated])
         (rule layoutBrackets_item_ok)
  qed (rule assms(1))
  with s show ?thesis by (simp add: layoutBrackets_staff_def)
qed

lemma layoutBrackets_ok:
  assumes "length (staves sys) \<le> length (sc_staves sc)"
  shows "\<exists>w sys'. layoutBrackets k ext sc sys = Inr (w, sys') \<and> staves sys' = staves sys"
proof -
  from getBracketsColumnsCount_ok[OF assms] obtain c where c: "getBracketsColumnsCount sc sys = Inr c"
    by blast
  let ?m = "map_option mb_id (firstMeasure sys)"
  have "\<exists>st'. foldE (layoutBrackets_staff k ext sc ?m (nat c)) [0 ..< length (staves sys)]
                 (sys\<lparr>brackets := []\<rparr>, brackets sys, replicate (nat c) 0) = Inr st'
               \<and> staves (fst st') = staves sys"
  proof (rule foldE_invariant[where I = "\<lambda>st. staves (fst st) = staves sys"])
    fix x and st1 :: "'a System \<times> Bracket list \<times> qreal list"
    assume "x \<in> set [0 ..< length (staves sys)]" "staves (fst st1) = staves sys"
    with assms show "\<exists>s'. layoutBrackets_staff k ext sc ?m (nat c) x st1 = Inr s'
                       \<and> staves (fst s') = staves sys"
      by (intro layoutBrackets_staff_ok) auto
  qed simp
  then obtain sys' bl bw where
    "foldE (layoutBrackets_staff k ext sc ?m (nat c)) [0 ..< length (staves sys)]
                 (sys\<lparr>brackets := []\<rparr>, brackets sys, replicate (nat c) 0) = Inr (sys', bl, bw)"
    "staves sys' = staves sys" by auto
  with c show ?thesis by (simp add: layoutBrackets_def)
qed

lemma placeStaff_fields:
  "bbox (placeStaff k sc sys st y ss) =
     setRect (leftMargin sys) (y - staffYOffset k sc st) (m_w (sys_bbox sys) - leftMargin sys)
       (staffBoxHeight k sc st) (bbox ss)"
  "yOff (placeStaff k sc sys st y ss) = staffYOffset k sc st"
  "yPos (placeStaff k sc sys st y ss) = y - staffYOffset k sc st"
  "height (placeStaff k sc sys st y ss) = staffBoxHeight k sc st"
  "continuousDist (placeStaff k sc sys st y ss) = continuousDist ss"
  "skyline (placeStaff k sc sys st y ss) = skyline ss"
  "ss_show (placeStaff k sc sys st y ss) = ss_show ss"
  "instrumentNames (placeStaff k sc sys st y ss) = instrumentNames ss"
  by (simp_all add: placeStaff_def saveLayout_def setRect_def)

lemma staffLineY_placeStaff: "staffLineY (placeStaff k sc sys st y ss) = y"
  by (simp add: staffLineY_def placeStaff_fields setRect_def)

lemma staffDist_cong:
  "sts' ! a = sts ! a \<Longrightarrow> sts' ! b = sts ! b \<Longrightarrow>
     staffDist ext sc sys sts' a b = staffDist ext sc sys sts a b"
  by (simp add: staffDist_def Let_def)

lemma stackStaves_length: "length (stackStaves k ext sc sys vis y sts) = length sts"
  by (induction k ext sc sys vis y sts rule: stackStaves.induct) (simp_all add: Let_def)

lemma stackStaves_untouched:
  "i \<notin> set vis \<Longrightarrow> stackStaves k ext sc sys vis y sts ! i = sts ! i"
  by (induction k ext sc sys vis y sts rule: stackStaves.induct) (simp_all add: Let_def)

lemma stackStaves_head:
  assumes "distinct (a # rest)" and "a < length sts"
  shows "stackStaves k ext sc sys (a # rest) y sts ! a =
           placeStaff k sc sys (sc_staves sc ! a) y
             (case rest of [] \<Rightarrow> sts ! a | b # _ \<Rightarrow> snd (staffDist ext sc sys sts a b))"
proof (cases rest)
  case Nil
  with assms show ?thesis by simp
next
  case (Cons b r)
  with assms have "a \<notin> set (b # r)" by simp
  with Cons assms(2) show ?thesis
    by (simp add: Let_def stackStaves_untouched)
qed

lemma stackStaves_pair:
  assumes "distinct vis" and "\<forall>i \<in> set vis. i < length sts" and "vis = pre @ a # b # post"
  shows "\<exists>ya. stackStaves k ext sc sys vis y sts ! a =
                 placeStaff k sc sys (sc_staves sc ! a) ya (snd (staffDist ext sc sys sts a b))
            \<and> stackStaves k ext sc sys vis y sts ! b =
                 placeStaff k sc sys (sc_staves sc ! b) (ya + fst (staffDist ext sc sys sts a b))
                   (case post of [] \<Rightarrow> sts ! b | c # _ \<Rightarrow> snd (staffDist ext sc sys sts b c))"
  using assms
proof (induction pre arbitrary: vis y sts)
  case Nil
  let ?pa = "placeStaff k sc sys (sc_staves sc ! a) y (snd (staffDist ext sc sys sts a b))"
  let ?sts1 = "sts[a := ?pa]"
  let ?d = "fst (staffDist ext sc sys sts a b)"
  from Nil have vis: "vis = a # b # post" by simp
  with Nil have d: "a \<noteq> b" "a \<notin> set post" "b \<notin> set post" "distinct post"
    and r: "a < length sts" "b < length sts" by auto
  have res: "stackStaves k ext sc sys vis y sts = stackStaves k ext sc sys (b # post) (y + ?d) ?sts1"
    by (simp add: vis Let_def)
  have "a \<notin> set (b # post)" using d by simp
  with r have A: "stackStaves k ext sc sys vis y sts ! a = ?pa"
    by (simp add: res stackStaves_untouched)
  have "distinct (b # post)" "b < length ?sts1" using d r by simp_all
  from stackStaves_head[OF this]
  have B0: "stackStaves k ext sc sys vis y sts ! b =
           placeStaff k sc sys (sc_staves sc ! b) (y + ?d)
             (case post of [] \<Rightarrow> ?sts1 ! b | c # _ \<Rightarrow> snd (staffDist ext sc sys ?sts1 b c))"
    by (simp add: res)
  have "(case post of [] \<Rightarrow> ?sts1 ! b | c # _ \<Rightarrow> snd (staffDist ext sc sys ?sts1 b c))
        = (case post of [] \<Rightarrow> sts ! b | c # _ \<Rightarrow> snd (staffDist ext sc sys sts b c))"
  proof (cases post)
    case Nil2: Nil
    then show ?thesis using d by simp
  next
    case (Cons c r)
    with d have "a \<noteq> c" by auto
    with d have "staffDist ext sc sys ?sts1 b c = staffDist ext sc sys sts b c"
      by (intro staffDist_cong) simp_all
    with Cons show ?thesis by simp
  qed
  with A B0 show ?case by auto
next
  case (Cons p pre')
  obtain si2 rest where sr: "pre' @ a # b # post = si2 # rest"
    by (cases pre') auto
  let ?pp = "placeStaff k sc sys (sc_staves sc ! p) y (snd (staffDist ext sc sys sts p si2))"
  let ?sts1 = "sts[p := ?pp]"
  let ?d = "fst (staffDist ext sc sys sts p si2)"
  from Cons.prems sr have vis: "vis = p # si2 # rest" by simp
  have res: "stackStaves k ext sc sys vis y sts = stackStaves k ext sc sys (si2 # rest) (y + ?d) ?sts1"
    by (simp add: vis Let_def)
  from Cons.prems have pd: "p \<noteq> a" "p \<noteq> b" "p \<notin> set post" by auto
  have "distinct (si2 # rest)" "\<forall>i\<in>set (si2 # rest). i < length ?sts1"
    "si2 # rest = pre' @ a # b # post"
    using Cons.prems sr vis by auto
  from Cons.IH[OF this, of "y + ?d"]
  obtain ya where ya:
    "stackStaves k ext sc sys (si2 # rest) (y + ?d) ?sts1 ! a =
       placeStaff k sc sys (sc_staves sc ! a) ya (snd (staffDist ext sc sys ?sts1 a b))"
    "stackStaves k ext sc sys (si2 # rest) (y + ?d) ?sts1 ! b =
                 placeStaff k sc sys (sc_staves sc ! b) (ya + fst (staffDist ext sc sys ?sts1 a b))
                   (case post of [] \<Rightarrow> ?sts1 ! b | c # _ \<Rightarrow> snd (staffDist ext sc sys ?sts1 b c))"
    by blast
  have e1: "staffDist ext sc sys ?sts1 a b = staffDist ext sc sys sts a b"
    using pd by (intro staffDist_cong) simp_all
  have e2: "(case post of [] \<Rightarrow> ?sts1 ! b | c # _ \<Rightarrow> snd (staffDist ext sc sys ?sts1 b c))
        = (case post of [] \<Rightarrow> sts ! b | c # _ \<Rightarrow> snd (staffDist ext sc sys sts b c))"
  proof (cases post)
    case Nil
    then show ?thesis using pd by simp
  next
    case (Cons c r)
    with pd have "p \<noteq> c" by auto
    with pd have "staffDist ext sc sys ?sts1 b c = staffDist ext sc sys sts b c"
      by (intro staffDist_cong) simp_all
    with Cons show ?thesis by simp
  qed
  from ya show ?case unfolding res e1 e2 by blast
qed

lemma stackStaves_continuousDist_mono:
  "i < length sts \<Longrightarrow>
     continuousDist (sts ! i) \<le> continuousDist (stackStaves k ext sc sys vis y sts ! i)"
proof (induction k ext sc sys vis y sts rule: stackStaves.induct)
  case (1 k ext sc sys y sts)
  then show ?case by simp
next
  case (2 k ext sc sys si1 y sts)
  then show ?case by (cases "i = si1") (simp_all add: placeStaff_fields)
next
  case (3 k ext sc sys si1 si2 rest y sts)
  let ?r = "staffDist ext sc sys sts si1 si2"
  let ?sts1 = "sts[si1 := placeStaff k sc sys (sc_staves sc ! si1) y (snd ?r)]"
  have step: "continuousDist (sts ! i) \<le> continuousDist (?sts1 ! i)"
  proof (cases "i = si1")
    case True
    have "continuousDist (sts ! si1) \<le> continuousDist (snd ?r)"
      by (simp add: staffDist_def Let_def)
    with True 3 show ?thesis by (simp add: placeStaff_fields)
  next
    case False
    then show ?thesis by simp
  qed
  from "3.IH"[OF refl refl refl] "3.prems"
  have "continuousDist (?sts1 ! i) \<le> continuousDist (stackStaves k ext sc sys (si2 # rest) (y + fst ?r) ?sts1 ! i)"
    by simp
  with step show ?case by (simp add: Let_def)
qed

lemma visibleStaves_char:
  "visibleStaves sc i sts = Inr (vis, sts') \<Longrightarrow>
     (sts \<noteq> [] \<longrightarrow> i + length sts \<le> length (sc_staves sc))
     \<and> vis = filter (\<lambda>j. st_show (sc_staves sc ! j) \<and> ss_show (sts ! (j - i))) [i ..< i + length sts]
     \<and> length sts' = length sts
     \<and> (\<forall>j < length sts. sts' ! j =
           (if st_show (sc_staves sc ! (i + j)) \<and> ss_show (sts ! j) then sts ! j
            else (sts ! j)\<lparr>bbox := RectF_null\<rparr>))"
proof (induction sts arbitrary: i vis sts')
  case Nil
  then show ?case by simp
next
  case (Cons ss rest)
  from Cons.prems obtain s where s: "score_staff sc (int i) = Some s"
    by (auto split: option.splits)
  then have si: "i < length (sc_staves sc)" "s = sc_staves sc ! i"
    by (auto simp: score_staff_def split: if_splits)
  from Cons.prems s obtain vis0 rest' where r: "visibleStaves sc (Suc i) rest = Inr (vis0, rest')"
    by (auto split: sum.splits)
  note IH = Cons.IH[OF r]
  have upt: "[i ..< i + length (ss # rest)] = i # [Suc i ..< Suc i + length rest]"
    by (simp del: upt_Suc add: upt_conv_Cons)
  have flt: "filter (\<lambda>j. st_show (sc_staves sc ! j) \<and> ss_show ((ss # rest) ! (j - i))) [Suc i ..< Suc i + length rest]
           = filter (\<lambda>j. st_show (sc_staves sc ! j) \<and> ss_show (rest ! (j - Suc i))) [Suc i ..< Suc i + length rest]"
  proof (rule filter_cong[OF refl])
    fix j assume "j \<in> set [Suc i ..< Suc i + length rest]"
    then have "j - i = Suc (j - Suc i)" by auto
    then show "(st_show (sc_staves sc ! j) \<and> ss_show ((ss # rest) ! (j - i)))
               = (st_show (sc_staves sc ! j) \<and> ss_show (rest ! (j - Suc i)))"
      by simp
  qed
  show ?case
  proof (cases "st_show s \<and> ss_show ss")
    case True
    with Cons.prems s r have e: "vis = i # vis0" "sts' = ss # rest'" by auto
    show ?thesis
      unfolding upt e using IH True si flt
      by (auto simp: nth_Cons split: nat.splits)
  next
    case False
    with Cons.prems s r have e: "vis = vis0" "sts' = ss\<lparr>bbox := RectF_null\<rparr> # rest'" by auto
    show ?thesis
      unfolding upt e using IH False si flt
      by (auto simp: nth_Cons split: nat.splits)
  qed
qed

lemma visibleStaves_defined:
  "i + length sts \<le> length (sc_staves sc) \<Longrightarrow> \<exists>r. visibleStaves sc i sts = Inr r"
proof (induction sts arbitrary: i)
  case Nil
  then show ?case by simp
next
  case (Cons ss rest)
  then have "Suc i + length rest \<le> length (sc_staves sc)" by simp
  from Cons.IH[OF this] obtain vis0 rest' where "visibleStaves sc (Suc i) rest = Inr (vis0, rest')"
    by auto
  moreover from Cons.prems have "score_staff sc (int i) = Some (sc_staves sc ! i)"
    by (simp add: score_staff_def)
  ultimately show ?case by simp
qed

lemma visibleStaves_visibleIndices:
  assumes "visibleStaves sc 0 (staves sys) = Inr (vis, sts')"
  shows "vis = visibleIndices sc sys"
    and "length sts' = length (staves sys)"
    and "length (staves sys) \<le> length (sc_staves sc)"
    and "\<And>j. j < length (staves sys) \<Longrightarrow>
           sts' ! j = (if isVisible sc sys j then staves sys ! j
                       else (staves sys ! j)\<lparr>bbox := RectF_null\<rparr>)"
  using visibleStaves_char[OF assms]
  by (auto simp: visibleIndices_def isVisible_def[abs_def])

lemma visibleIndices_props:
  "distinct (visibleIndices sc sys)"
  "i \<in> set (visibleIndices sc sys) \<Longrightarrow> i < length (staves sys) \<and> isVisible sc sys i"
  by (simp_all add: visibleIndices_def)

lemma map_update_same:
  assumes "g y = g (xs ! i)"
  shows "map g (xs[i := y]) = map g xs"
proof (cases "i < length xs")
  case True
  with assms have "(map g xs)[i := g y] = map g xs"
    by (metis list_update_id nth_map)
  then show ?thesis by (simp add: map_update)
next
  case False
  then have "xs[i := y] = xs" by (intro list_update_beyond) simp
  then show ?thesis by simp
qed

lemma staff_SomeD:
  "staff sys i = Some s \<Longrightarrow> 0 \<le> i \<and> nat i < length (staves sys) \<and> s = staves sys ! nat i"
  by (auto simp: staff_def split: if_splits)

lemma stripNames_moveNames:
  assumes "moveNames k f v sys = Inr sys'"
  shows "stripNames sys' = stripNames sys"
proof -
  from assms obtain vs s where vs: "staff sys v = Some vs" and s: "staff sys f = Some s"
    by (auto simp: moveNames_def split: option.splits)
  note a = staff_SomeD[OF vs] staff_SomeD[OF s]
  from assms vs s have
    "staves sys' = (staves sys)
        [nat v := vs\<lparr>instrumentNames := instrumentNames vs @
               map (\<lambda>t. t\<lparr>in_track := v * VOICES k, in_sysStaff := v\<rparr>) (instrumentNames s)\<rparr>,
         nat f := s\<lparr>instrumentNames := []\<rparr>]"
    and rest: "sys' = sys\<lparr>staves := staves sys'\<rparr>"
    by (auto simp: moveNames_def Let_def)
  then have "map (\<lambda>s. s\<lparr>instrumentNames := []\<rparr>) (staves sys')
             = map (\<lambda>s. s\<lparr>instrumentNames := []\<rparr>) (staves sys)"
    using a by (simp add: map_update_same nth_list_update)
  with rest show ?thesis
    by (metis (no_types, lifting) stripNames_def System.surjective System.update_convs(1))
qed

lemma stripNames_eq_iff:
  "stripNames a = stripNames b \<longleftrightarrow>
     map (\<lambda>s. s\<lparr>instrumentNames := []\<rparr>) (staves a) = map (\<lambda>s. s\<lparr>instrumentNames := []\<rparr>) (staves b)
     \<and> a\<lparr>staves := []\<rparr> = b\<lparr>staves := []\<rparr>"
  by (cases a; cases b) (auto simp: stripNames_def)

lemma stripNames_update_staves:
  assumes "map (\<lambda>s. s\<lparr>instrumentNames := []\<rparr>) sts = map (\<lambda>s. s\<lparr>instrumentNames := []\<rparr>) (staves sys)"
  shows "stripNames (sys\<lparr>staves := sts\<rparr>) = stripNames sys"
  using assms by (simp add: stripNames_eq_iff)

lemma stripNames_positionNames:
  assumes "positionNames staffIdx nst sidx sys = Inr sys'"
  shows "stripNames sys' = stripNames sys"
proof -
  from assms obtain s where s: "staff sys sidx = Some s"
    by (auto simp: positionNames_def split: option.splits)
  with assms obtain ts where
    e: "sys' = sys\<lparr>staves := (staves sys)[nat sidx := s\<lparr>instrumentNames := ts\<rparr>]\<rparr>"
    by (auto simp: positionNames_def split: sum.splits)
  from staff_SomeD[OF s] show ?thesis
    unfolding e by (intro stripNames_update_staves map_update_same) simp
qed

lemma stripNames_part:
  assumes "layoutInstrumentNames_part k sc pidx staffIdx sys = Inr sys'"
  shows "stripNames sys' = stripNames sys"
  using assms
  by (auto simp: layoutInstrumentNames_part_def split: sum.splits if_splits
           dest!: stripNames_positionNames stripNames_moveNames)

lemma stripNames_loop:
  "layoutInstrumentNames_loop k sc n pidx staffIdx sys = Inr sys' \<Longrightarrow> stripNames sys' = stripNames sys"
proof (induction n arbitrary: pidx staffIdx sys)
  case 0
  then show ?case by simp
next
  case (Suc n)
  then obtain s1 where s1: "layoutInstrumentNames_part k sc pidx staffIdx sys = Inr s1"
    and r: "layoutInstrumentNames_loop k sc n (Suc pidx) (staffIdx + int (nstaves (parts sc ! pidx))) s1 = Inr sys'"
    by (auto split: sum.splits)
  from Suc.IH[OF r] stripNames_part[OF s1] show ?case by simp
qed

lemma stripNames_layoutInstrumentNames:
  "layoutInstrumentNames k sc sys = Inr sys' \<Longrightarrow> stripNames sys' = stripNames sys"
  unfolding layoutInstrumentNames_def by (rule stripNames_loop)

lemma stripNames_nth:
  assumes "stripNames a = stripNames b"
  shows "length (staves a) = length (staves b)"
    and "i < length (staves b) \<Longrightarrow>
           (staves a ! i)\<lparr>instrumentNames := []\<rparr> = (staves b ! i)\<lparr>instrumentNames := []\<rparr>"
    and "ml a = ml b" "brackets a = brackets b" "systemHeight a = systemHeight b"
        "sys_bbox a = sys_bbox b" "leftMargin a = leftMargin b" "sys_pos a = sys_pos b"
proof -
  from assms have m: "map (\<lambda>s. s\<lparr>instrumentNames := []\<rparr>) (staves a)
                     = map (\<lambda>s. s\<lparr>instrumentNames := []\<rparr>) (staves b)"
    and r: "a\<lparr>staves := []\<rparr> = b\<lparr>staves := []\<rparr>"
    by (simp_all add: stripNames_eq_iff)
  from m show l: "length (staves a) = length (staves b)" by (rule map_eq_imp_length_eq)
  { assume "i < length (staves b)"
    with l m show "(staves a ! i)\<lparr>instrumentNames := []\<rparr> = (staves b ! i)\<lparr>instrumentNames := []\<rparr>"
      by (metis nth_map) }
  from r show "ml a = ml b" "brackets a = brackets b" "systemHeight a = systemHeight b"
        "sys_bbox a = sys_bbox b" "leftMargin a = leftMargin b" "sys_pos a = sys_pos b"
    by (cases a; cases b; simp)+
qed

lemma strip_fields:
  assumes "(x::'a SysStaff)\<lparr>instrumentNames := []\<rparr> = y\<lparr>instrumentNames := []\<rparr>"
  shows "bbox x = bbox y" "yOff x = yOff y" "yPos x = yPos y" "height x = height y"
    "continuousDist x = continuousDist y" "ss_show x = ss_show y" "skyline x = skyline y"
    "staffLineY x = staffLineY y"
  using assms by (cases x; cases y; simp add: staffLineY_def)+

lemma layoutBracketsVertical_frame:
  "layoutBracketsVertical ext sc sys = Inr sys' \<Longrightarrow> \<exists>bs. sys' = sys\<lparr>brackets := bs\<rparr>"
  by (auto simp: layoutBracketsVertical_def split: sum.splits)

text \<open>What a completed call of layout2 on a system with visible staves has done.\<close>

lemma layout2_decompose:
  assumes "layout2 k ext sc sys = Inr (sys', logs)" and "vbox sys = None"
    and "visibleIndices sc sys \<noteq> []"
  obtains sts where
    "visibleStaves sc 0 (staves sys) = Inr (visibleIndices sc sys, sts)"
    "length (staves sys') = length (staves sys)"
    "\<And>i. i < length (staves sys) \<Longrightarrow>
        (staves sys' ! i)\<lparr>instrumentNames := []\<rparr> =
        (stackStaves k ext sc (sys\<lparr>sys_pos := (0, 0), staves := sts\<rparr>) (visibleIndices sc sys) 0 sts ! i)
          \<lparr>instrumentNames := []\<rparr>"
    "systemHeight sys' = rect_bottom (bbox (staves sys' ! last (visibleIndices sc sys)))"
    "sys_bbox sys' = setHeight (systemHeight sys') (sys_bbox sys)"
    "ml sys' = map (\<lambda>m. fst (setMeasureHeight1 ext (spatium sc) (systemHeight sys') m)) (ml sys)"
    "ml sys \<noteq> []"
proof -
  from assms(1,2) obtain vis sts where v: "visibleStaves sc 0 (staves sys) = Inr (vis, sts)"
    by (auto simp: layout2_def split: sum.splits)
  note vi = visibleStaves_visibleIndices[OF v]
  let ?vis = "visibleIndices sc sys"
  let ?sys1 = "sys\<lparr>sys_pos := (0, 0), staves := sts\<rparr>"
  let ?stk = "stackStaves k ext sc ?sys1 ?vis 0 sts"
  let ?sys2 = "?sys1\<lparr>staves := ?stk\<rparr>"
  have len: "length ?stk = length (staves sys)" by (simp add: stackStaves_length vi)
  from assms(3) have "last ?vis \<in> set ?vis" by simp
  then have lv: "last ?vis < length (staves sys)" by (simp add: visibleIndices_props)
  with len have lst: "staff ?sys2 (int (last ?vis)) = Some (?stk ! last ?vis)"
    by (simp add: staff_def)
  let ?h = "rect_bottom (bbox (?stk ! last ?vis))"
  let ?sys3 = "?sys2\<lparr>systemHeight := ?h, sys_bbox := setHeight ?h (sys_bbox ?sys2)\<rparr>"
  let ?r = "setMeasureHeight ext sc ?h ?sys3"
  from assms v vi(1) lst obtain sys5 where
    b: "layoutBracketsVertical ext sc (fst ?r) = Inr sys5"
    and n: "layoutInstrumentNames k sc sys5 = Inr sys'"
    and ne: "ml sys' \<noteq> []"
    by (auto simp: layout2_def Let_def split: sum.splits if_splits)
  from layoutBracketsVertical_frame[OF b] obtain bs where s5: "sys5 = (fst ?r)\<lparr>brackets := bs\<rparr>" by blast
  note sn = stripNames_nth[OF stripNames_layoutInstrumentNames[OF n]]
  have st5: "staves sys5 = ?stk" "systemHeight sys5 = ?h" "sys_bbox sys5 = setHeight ?h (sys_bbox sys)"
    "ml sys5 = map (\<lambda>m. fst (setMeasureHeight1 ext (spatium sc) ?h m)) (ml sys)"
    by (simp_all add: s5 setMeasureHeight_def Let_def comp_def)
  have 1: "length (staves sys') = length (staves sys)" using sn(1) st5 len by simp
  have 2: "\<And>i. i < length (staves sys) \<Longrightarrow>
        (staves sys' ! i)\<lparr>instrumentNames := []\<rparr> = (?stk ! i)\<lparr>instrumentNames := []\<rparr>"
    using sn(2) st5 len by simp
  have "bbox (staves sys' ! last ?vis) = bbox (?stk ! last ?vis)"
    by (rule strip_fields(1)) (rule 2[OF lv])
  then have 3: "systemHeight sys' = rect_bottom (bbox (staves sys' ! last ?vis))"
    using sn(5) st5 by simp
  have 4: "sys_bbox sys' = setHeight (systemHeight sys') (sys_bbox sys)"
    using sn(5,6) st5 by simp
  have 5: "ml sys' = map (\<lambda>m. fst (setMeasureHeight1 ext (spatium sc) (systemHeight sys') m)) (ml sys)"
    using sn(3,5) st5 by simp
  from ne 5 have 6: "ml sys \<noteq> []" by auto
  from v vi(1) have "visibleStaves sc 0 (staves sys) = Inr (?vis, sts)" by simp
  from that[OF this 1 2 3 4 5 6] show thesis .
qed

lemma spacerScan_fixed:
  "firstFixedDown before si1 ms sp \<Longrightarrow> spacerScan si1 si2 h ms d = (h + gap sp, True)"
proof (induction before arbitrary: ms d)
  case Nil
  then show ?case by (auto simp: firstFixedDown_def)
next
  case (Cons m0 before)
  from Cons.prems obtain m after where
    ms: "ms = m0 # before @ m # after" and m: "mb_kind m = MEASURE" "vspacerDown m si1 = Some sp"
      "spacerType sp = FIXED"
    and nf: "\<forall>m' \<in> set (m0 # before). mb_kind m' = MEASURE \<longrightarrow>
              (case vspacerDown m' si1 of None \<Rightarrow> True | Some sp' \<Rightarrow> spacerType sp' \<noteq> FIXED)"
    by (auto simp: firstFixedDown_def)
  then have ff: "firstFixedDown before si1 (before @ m # after) sp"
    by (auto simp: firstFixedDown_def)
  from nf have "mb_kind m0 = MEASURE \<Longrightarrow>
     (case vspacerDown m0 si1 of None \<Rightarrow> True | Some sp' \<Rightarrow> spacerType sp' \<noteq> FIXED)" by simp
  then show ?case
    unfolding ms by (auto simp: Cons.IH[OF ff] Let_def split: option.splits)
qed

lemma spacerScan_noFixed:
  "noFixedDown si1 ms \<Longrightarrow>
     \<not> snd (spacerScan si1 si2 h ms d) \<and> d \<le> fst (spacerScan si1 si2 h ms d)
     \<and> (\<forall>m \<in> set ms. mb_kind m = MEASURE \<longrightarrow>
           (\<forall>s. vspacerDown m si1 = Some s \<longrightarrow> h + gap s \<le> fst (spacerScan si1 si2 h ms d))
         \<and> (\<forall>s. vspacerUp m si2 = Some s \<longrightarrow> gap s + h \<le> fst (spacerScan si1 si2 h ms d)))"
proof (induction ms arbitrary: d)
  case Nil
  then show ?case by simp
next
  case (Cons m ms)
  then have nf: "noFixedDown si1 ms" by (simp add: noFixedDown_def)
  note IH = Cons.IH[OF nf]
  show ?case
  proof (cases "mb_kind m = MEASURE")
    case False
    with IH[of d] show ?thesis by simp
  next
    case True
    with Cons.prems have nfm: "case vspacerDown m si1 of None \<Rightarrow> True | Some sp \<Rightarrow> spacerType sp \<noteq> FIXED"
      by (simp add: noFixedDown_def)
    show ?thesis
    proof (cases "vspacerDown m si1")
      case None
      show ?thesis
      proof (cases "vspacerUp m si2")
        case N2: None
        with None True IH[of d] show ?thesis by simp
      next
        case (Some s2)
        with None True IH[of "max d (gap s2 + h)"] show ?thesis by auto
      qed
    next
      case (Some s1)
      with nfm have nfx: "spacerType s1 \<noteq> FIXED" by simp
      show ?thesis
      proof (cases "vspacerUp m si2")
        case None
        with Some nfx True IH[of "max d (h + gap s1)"] show ?thesis by (auto simp: Let_def)
      next
        case S2: (Some s2)
        with Some nfx True IH[of "max (max d (h + gap s1)) (gap s2 + h)"] show ?thesis
          by (auto simp: Let_def)
      qed
    qed
  qed
qed

text \<open>The scan reads kind and spacers of the entries only.\<close>

lemma spacerScan_cong:
  "map (\<lambda>m. (mb_kind m, vspacerDown m, vspacerUp m)) ms' = map (\<lambda>m. (mb_kind m, vspacerDown m, vspacerUp m)) ms
     \<Longrightarrow> spacerScan si1 si2 h ms' d = spacerScan si1 si2 h ms d"
proof (induction ms arbitrary: ms' d)
  case Nil
  then show ?case by simp
next
  case (Cons m ms)
  then obtain m' ms0 where e: "ms' = m' # ms0" "mb_kind m' = mb_kind m" "vspacerDown m' = vspacerDown m"
    "vspacerUp m' = vspacerUp m"
    "map (\<lambda>m. (mb_kind m, vspacerDown m, vspacerUp m)) ms0 = map (\<lambda>m. (mb_kind m, vspacerDown m, vspacerUp m)) ms"
    by (cases ms') auto
  show ?case unfolding e(1)
    by (simp add: e Cons.IH[OF e(5)] Let_def split: option.splits)
qed

lemma placeStaff_sys_cong:
  "leftMargin s' = leftMargin s \<Longrightarrow> sys_bbox s' = sys_bbox s \<Longrightarrow>
     placeStaff k sc s' st y ss = placeStaff k sc s st y ss"
  by (simp add: placeStaff_def)

lemma staffDist_sys_cong:
  "ml s' = ml s \<Longrightarrow> sts' ! a = sts ! a \<Longrightarrow> sts' ! b = sts ! b \<Longrightarrow>
     staffDist ext sc s' sts' a b = staffDist ext sc s sts a b"
  by (simp add: staffDist_def Let_def firstMeasure_def)

lemma layout2_adjacent:
  assumes "layout2 k ext sc sys = Inr (sys', logs)" and "vbox sys = None"
    and "visibleIndices sc sys = pre @ a # b # post"
  obtains ya x where
    "(staves sys' ! a)\<lparr>instrumentNames := []\<rparr> =
       (placeStaff k sc sys (sc_staves sc ! a) ya (snd (staffDist ext sc sys (staves sys) a b)))
         \<lparr>instrumentNames := []\<rparr>"
    "(staves sys' ! b)\<lparr>instrumentNames := []\<rparr> =
       (placeStaff k sc sys (sc_staves sc ! b) (ya + fst (staffDist ext sc sys (staves sys) a b)) x)
         \<lparr>instrumentNames := []\<rparr>"
    "a < length (staves sys)" "b < length (staves sys)" "isVisible sc sys a" "isVisible sc sys b"
proof -
  let ?vis = "visibleIndices sc sys"
  from assms(3) have ne: "?vis \<noteq> []" by simp
  from layout2_decompose[OF assms(1,2) ne] obtain sts where
    v: "visibleStaves sc 0 (staves sys) = Inr (?vis, sts)"
    and st: "\<And>i. i < length (staves sys) \<Longrightarrow>
        (staves sys' ! i)\<lparr>instrumentNames := []\<rparr> =
        (stackStaves k ext sc (sys\<lparr>sys_pos := (0, 0), staves := sts\<rparr>) ?vis 0 sts ! i)
          \<lparr>instrumentNames := []\<rparr>"
    by blast
  note vi = visibleStaves_visibleIndices[OF v]
  let ?sys1 = "sys\<lparr>sys_pos := (0, 0), staves := sts\<rparr>"
  from assms(3) have mem: "a \<in> set ?vis" "b \<in> set ?vis" by simp_all
  then have ab: "a < length (staves sys)" "b < length (staves sys)"
    "isVisible sc sys a" "isVisible sc sys b"
    by (simp_all add: visibleIndices_props)
  then have sab: "sts ! a = staves sys ! a" "sts ! b = staves sys ! b"
    by (simp_all add: vi(4))
  have d: "distinct ?vis" by (rule visibleIndices_props)
  have r: "\<forall>i \<in> set ?vis. i < length sts" by (simp add: vi(2) visibleIndices_props)
  from stackStaves_pair[OF d r assms(3), of k ext sc ?sys1 0]
  obtain ya where
    A: "stackStaves k ext sc ?sys1 ?vis 0 sts ! a =
                 placeStaff k sc ?sys1 (sc_staves sc ! a) ya (snd (staffDist ext sc ?sys1 sts a b))"
    and B: "stackStaves k ext sc ?sys1 ?vis 0 sts ! b =
                 placeStaff k sc ?sys1 (sc_staves sc ! b) (ya + fst (staffDist ext sc ?sys1 sts a b))
                   (case post of [] \<Rightarrow> sts ! b | c # _ \<Rightarrow> snd (staffDist ext sc ?sys1 sts b c))"
    by blast
  have sd: "staffDist ext sc ?sys1 sts a b = staffDist ext sc sys (staves sys) a b"
    by (rule staffDist_sys_cong) (simp_all add: sab)
  have pl: "\<And>st y ss. placeStaff k sc ?sys1 st y ss = placeStaff k sc sys st y ss"
    by (rule placeStaff_sys_cong) simp_all
  show thesis
    by (rule that[OF _ _ ab]) (simp_all add: st[OF ab(1)] st[OF ab(2)] A B sd pl)
qed

lemma staffDist_eq:
  "staffDist ext sc sys sts a b =
     (if snd (boundaryScan sc sys a b) then (fst (boundaryScan sc sys a b), sts ! a)
      else if lineMode sc then
        (if minDistance ext (skyline (sts ! a)) (skyline (sts ! b)) > continuousDist (sts ! a)
         then (max (fst (boundaryScan sc sys a b))
                 (minDistance ext (skyline (sts ! a)) (skyline (sts ! b)) + minVerticalDistance sc),
               (sts ! a)\<lparr>continuousDist := minDistance ext (skyline (sts ! a)) (skyline (sts ! b))\<rparr>)
         else (max (fst (boundaryScan sc sys a b)) (continuousDist (sts ! a) + minVerticalDistance sc),
               sts ! a))
      else (max (fst (boundaryScan sc sys a b))
              (minDistance ext (skyline (sts ! a)) (skyline (sts ! b)) + minVerticalDistance sc),
            sts ! a))"
  by (simp add: staffDist_def boundaryScan_def Let_def)

lemma staffDist_fixed:
  assumes "firstFixedDown before (int a) (ml sys) sp"
  shows "staffDist ext sc sys sts a b = (st_height (sc_staves sc ! a) + gap sp, sts ! a)"
proof -
  have "boundaryScan sc sys a b = (st_height (sc_staves sc ! a) + gap sp, True)"
    unfolding boundaryScan_def by (rule spacerScan_fixed[OF assms])
  then show ?thesis by (simp add: staffDist_eq)
qed

lemma staffDist_noFixed:
  assumes "noFixedDown (int a) (ml sys)"
  shows "st_height (sc_staves sc ! a)
           + (if st_part (sc_staves sc ! a) = st_part (sc_staves sc ! b)
              then effAkkoladeDistance sc *
                     (case firstMeasure sys of
                        Some m \<Rightarrow> staffMag (sc_staves sc ! a) (mb_tick m)
                      | None \<Rightarrow> 1)
              else effStaffDistance sc)
           + userDist (sc_staves sc ! b) \<le> fst (staffDist ext sc sys sts a b)"
    and "minDistance ext (skyline (sts ! a)) (skyline (sts ! b)) + minVerticalDistance sc
           \<le> fst (staffDist ext sc sys sts a b)"
    and "\<And>m s. m \<in> set (ml sys) \<Longrightarrow> mb_kind m = MEASURE \<Longrightarrow> vspacerDown m (int a) = Some s
           \<Longrightarrow> st_height (sc_staves sc ! a) + gap s \<le> fst (staffDist ext sc sys sts a b)"
    and "\<And>m s. m \<in> set (ml sys) \<Longrightarrow> mb_kind m = MEASURE \<Longrightarrow> vspacerUp m (int b) = Some s
           \<Longrightarrow> gap s + st_height (sc_staves sc ! a) \<le> fst (staffDist ext sc sys sts a b)"
    and "\<not> snd (boundaryScan sc sys a b)"
proof -
  let ?h = "st_height (sc_staves sc ! a)"
  let ?d0 = "(if st_part (sc_staves sc ! a) = st_part (sc_staves sc ! b)
         then ?h + effAkkoladeDistance sc *
                (case firstMeasure sys of
                   Some m \<Rightarrow> staffMag (sc_staves sc ! a) (mb_tick m)
                 | None \<Rightarrow> 1)
         else ?h + effStaffDistance sc)
        + userDist (sc_staves sc ! b)"
  note sc = spacerScan_noFixed[OF assms, of "int b" ?h ?d0, folded boundaryScan_def]
  have le: "fst (boundaryScan sc sys a b) \<le> fst (staffDist ext sc sys sts a b)"
    by (simp add: staffDist_eq)
  from sc show "\<not> snd (boundaryScan sc sys a b)" by simp
  then show "minDistance ext (skyline (sts ! a)) (skyline (sts ! b)) + minVerticalDistance sc
           \<le> fst (staffDist ext sc sys sts a b)"
    by (auto simp: staffDist_eq max_def)
  from sc le show "?h
           + (if st_part (sc_staves sc ! a) = st_part (sc_staves sc ! b)
              then effAkkoladeDistance sc *
                     (case firstMeasure sys of
                        Some m \<Rightarrow> staffMag (sc_staves sc ! a) (mb_tick m)
                      | None \<Rightarrow> 1)
              else effStaffDistance sc)
           + userDist (sc_staves sc ! b) \<le> fst (staffDist ext sc sys sts a b)"
    by (auto split: if_splits)
  { fix m s assume "m \<in> set (ml sys)" "mb_kind m = MEASURE" "vspacerDown m (int a) = Some s"
    with sc le show "?h + gap s \<le> fst (staffDist ext sc sys sts a b)" by force }
  { fix m s assume "m \<in> set (ml sys)" "mb_kind m = MEASURE" "vspacerUp m (int b) = Some s"
    with sc le show "gap s + ?h \<le> fst (staffDist ext sc sys sts a b)" by force }
qed

lemma layout2_adjacent_distance:
  assumes "layout2 k ext sc sys = Inr (sys', logs)" and "vbox sys = None"
    and "visibleIndices sc sys = pre @ a # b # post"
  shows "staffLineY (staves sys' ! b) - staffLineY (staves sys' ! a)
           = fst (staffDist ext sc sys (staves sys) a b)"
    and "continuousDist (staves sys' ! a) = continuousDist (snd (staffDist ext sc sys (staves sys) a b))"
proof -
  from layout2_adjacent[OF assms] obtain ya x where
    A: "(staves sys' ! a)\<lparr>instrumentNames := []\<rparr> =
       (placeStaff k sc sys (sc_staves sc ! a) ya (snd (staffDist ext sc sys (staves sys) a b)))
         \<lparr>instrumentNames := []\<rparr>"
    and B: "(staves sys' ! b)\<lparr>instrumentNames := []\<rparr> =
       (placeStaff k sc sys (sc_staves sc ! b) (ya + fst (staffDist ext sc sys (staves sys) a b)) x)
         \<lparr>instrumentNames := []\<rparr>"
    by blast
  note fa = strip_fields[OF A] and fb = strip_fields[OF B]
  show "staffLineY (staves sys' ! b) - staffLineY (staves sys' ! a)
           = fst (staffDist ext sc sys (staves sys) a b)"
    by (simp add: fa(8) fb(8) staffLineY_placeStaff)
  show "continuousDist (staves sys' ! a) = continuousDist (snd (staffDist ext sc sys (staves sys) a b))"
    by (simp add: fa(5) placeStaff_fields)
qed

lemma stackStaves_ss_show:
  "i < length sts \<Longrightarrow> ss_show (stackStaves k ext sc sys vis y sts ! i) = ss_show (sts ! i)"
proof (induction k ext sc sys vis y sts rule: stackStaves.induct)
  case (1 k ext sc sys y sts)
  then show ?case by simp
next
  case (2 k ext sc sys si1 y sts)
  then show ?case by (cases "i = si1") (simp_all add: placeStaff_fields)
next
  case (3 k ext sc sys si1 si2 rest y sts)
  let ?r = "staffDist ext sc sys sts si1 si2"
  let ?sts1 = "sts[si1 := placeStaff k sc sys (sc_staves sc ! si1) y (snd ?r)]"
  have "ss_show (snd ?r) = ss_show (sts ! si1)" by (simp add: staffDist_eq)
  with 3 have step: "ss_show (?sts1 ! i) = ss_show (sts ! i)"
    by (cases "i = si1") (simp_all add: placeStaff_fields)
  from "3.IH"[OF refl refl refl] "3.prems"
  have "ss_show (stackStaves k ext sc sys (si2 # rest) (y + fst ?r) ?sts1 ! i) = ss_show (?sts1 ! i)"
    by simp
  with step show ?case by (simp add: Let_def)
qed

text \<open>Across a call of layout2 the records keep their number and their visibility, and no
  remembered continuous distance decreases.\<close>

lemma layout2_records:
  assumes "layout2 k ext sc sys = Inr (sys', logs)"
  shows "length (staves sys') = length (staves sys)"
    and "i < length (staves sys) \<Longrightarrow> ss_show (staves sys' ! i) = ss_show (staves sys ! i)"
    and "i < length (staves sys) \<Longrightarrow>
           continuousDist (staves sys ! i) \<le> continuousDist (staves sys' ! i)"
proof -
  have "length (staves sys') = length (staves sys)
        \<and> (i < length (staves sys) \<longrightarrow> ss_show (staves sys' ! i) = ss_show (staves sys ! i)
              \<and> continuousDist (staves sys ! i) \<le> continuousDist (staves sys' ! i))"
  proof (cases "vbox sys")
    case (Some vb)
    with assms show ?thesis by (auto simp: layout2_def Let_def)
  next
    case None
    from assms None obtain vis sts where v: "visibleStaves sc 0 (staves sys) = Inr (vis, sts)"
      by (auto simp: layout2_def split: sum.splits)
    note vi = visibleStaves_visibleIndices[OF v]
    have sts: "j < length (staves sys) \<Longrightarrow> ss_show (sts ! j) = ss_show (staves sys ! j)
                 \<and> continuousDist (sts ! j) = continuousDist (staves sys ! j)" for j
      by (simp add: vi(4))
    show ?thesis
    proof (cases "visibleIndices sc sys = []")
      case True
      with assms None v vi(1) have "staves sys' = sts"
        by (auto simp: layout2_def Let_def)
      with sts vi(2) show ?thesis by simp
    next
      case False
      from layout2_decompose[OF assms None False] obtain sts' where
        v': "visibleStaves sc 0 (staves sys) = Inr (visibleIndices sc sys, sts')"
        and l: "length (staves sys') = length (staves sys)"
        and st: "\<And>i. i < length (staves sys) \<Longrightarrow>
          (staves sys' ! i)\<lparr>instrumentNames := []\<rparr> =
          (stackStaves k ext sc (sys\<lparr>sys_pos := (0, 0), staves := sts'\<rparr>) (visibleIndices sc sys) 0 sts' ! i)
            \<lparr>instrumentNames := []\<rparr>"
        by blast
      from v v' have e: "sts' = sts" by simp
      show ?thesis
      proof (intro conjI impI l)
        assume i: "i < length (staves sys)"
        note f = strip_fields[OF st[OF i]]
        from i vi(2) have i': "i < length sts" by simp
        show "ss_show (staves sys' ! i) = ss_show (staves sys ! i)"
          using f(6) stackStaves_ss_show[OF i'] sts[OF i] by (simp add: e)
        show "continuousDist (staves sys ! i) \<le> continuousDist (staves sys' ! i)"
          using f(5) stackStaves_continuousDist_mono[OF i'] sts[OF i] by (simp add: e)
      qed
    qed
  qed
  then show "length (staves sys') = length (staves sys)"
    and "i < length (staves sys) \<Longrightarrow> ss_show (staves sys' ! i) = ss_show (staves sys ! i)"
    and "i < length (staves sys) \<Longrightarrow>
           continuousDist (staves sys ! i) \<le> continuousDist (staves sys' ! i)"
    by simp_all
qed

lemma setMeasureHeight1_core:
  "mb_kind (fst (setMeasureHeight1 ext sp h m)) = mb_kind m"
  "vspacerDown (fst (setMeasureHeight1 ext sp h m)) = vspacerDown m"
  "vspacerUp (fst (setMeasureHeight1 ext sp h m)) = vspacerUp m"
  "mb_tick (fst (setMeasureHeight1 ext sp h m)) = mb_tick m"
  "mb_id (fst (setMeasureHeight1 ext sp h m)) = mb_id m"
  by (simp_all add: setMeasureHeight1_def Let_def)

lemma find_map_kind:
  assumes "\<And>m. mb_kind (f m) = mb_kind m"
  shows "find (\<lambda>mb. mb_kind mb = MEASURE) (map f ms) = map_option f (find (\<lambda>mb. mb_kind mb = MEASURE) ms)"
  by (induction ms) (simp_all add: assms)

lemma boundaryScan_after_setMeasureHeight:
  assumes "ml sysB = map (\<lambda>m. fst (setMeasureHeight1 ext sp h m)) (ml sysA)"
  shows "boundaryScan sc sysB a b = boundaryScan sc sysA a b"
    and "vbox sysB = None \<longleftrightarrow> vbox sysA = None"
proof -
  let ?f = "\<lambda>m. fst (setMeasureHeight1 ext sp h m)"
  have fm: "firstMeasure sysB = map_option ?f (firstMeasure sysA)"
    unfolding firstMeasure_def assms by (rule find_map_kind) (rule setMeasureHeight1_core)
  have tick: "(case firstMeasure sysB of Some m \<Rightarrow> staffMag (sc_staves sc ! a) (mb_tick m) | None \<Rightarrow> 1)
            = (case firstMeasure sysA of Some m \<Rightarrow> staffMag (sc_staves sc ! a) (mb_tick m) | None \<Rightarrow> 1)"
    unfolding fm by (cases "firstMeasure sysA") (simp_all add: setMeasureHeight1_core)
  have core: "map (\<lambda>m. (mb_kind m, vspacerDown m, vspacerUp m)) (ml sysB)
            = map (\<lambda>m. (mb_kind m, vspacerDown m, vspacerUp m)) (ml sysA)"
    unfolding assms by (simp add: setMeasureHeight1_core comp_def)
  show "boundaryScan sc sysB a b = boundaryScan sc sysA a b"
    unfolding boundaryScan_def tick by (rule spacerScan_cong[OF core])
  show "vbox sysB = None \<longleftrightarrow> vbox sysA = None"
    unfolding vbox_def assms by (cases "ml sysA") (simp_all add: setMeasureHeight1_core)
qed

lemma stackStaves_placed:
  "i \<in> set vis \<Longrightarrow> i < length sts \<Longrightarrow>
     \<exists>st y ss. stackStaves k ext sc sys vis y0 sts ! i = placeStaff k sc sys st y ss"
proof (induction k ext sc sys vis y0 sts rule: stackStaves.induct)
  case (1 k ext sc sys y sts)
  then show ?case by simp
next
  case (2 k ext sc sys si1 y sts)
  then show ?case by auto
next
  case (3 k ext sc sys si1 si2 rest y sts)
  let ?r = "staffDist ext sc sys sts si1 si2"
  let ?sts1 = "sts[si1 := placeStaff k sc sys (sc_staves sc ! si1) y (snd ?r)]"
  show ?case
  proof (cases "i \<in> set (si2 # rest)")
    case True
    with "3.IH"[OF refl refl refl] "3.prems" show ?thesis by (simp add: Let_def)
  next
    case False
    with "3.prems" have "i = si1" by simp
    with False "3.prems" show ?thesis
      by (auto simp: Let_def stackStaves_untouched)
  qed
qed

lemma restoreLayout_placeStaff_strip:
  assumes "(s::'a SysStaff)\<lparr>instrumentNames := []\<rparr> = (placeStaff k sc sys st y ss)\<lparr>instrumentNames := []\<rparr>"
  shows "restoreLayout s = s"
proof -
  note f = strip_fields[OF assms]
  have "yPos s = m_y (bbox s)" "height s = m_h (bbox s)"
    by (simp_all add: f placeStaff_fields setRect_def)
  then show ?thesis by (simp add: restoreLayout_def setY_def setHeight_def)
qed

text \<open>
  After a completed \<open>layout2\<close> on a system with visible staves, \<open>restoreLayout2\<close> leaves the
  record of every visible staff, the system height, the box of the system and the box of
  every measure as they are.
\<close>

lemma restoreLayout2_after_layout2_visible:
  assumes run: "layout2 k ext sc sys = Inr (sys', logs)" and nv: "vbox sys = None"
    and ne: "visibleIndices sc sys \<noteq> []"
  shows "systemHeight (fst (restoreLayout2 ext sc sys')) = systemHeight sys'"
    and "sys_bbox (fst (restoreLayout2 ext sc sys')) = sys_bbox sys'"
    and "i \<in> set (visibleIndices sc sys) \<Longrightarrow> staves (fst (restoreLayout2 ext sc sys')) ! i = staves sys' ! i"
    and "j < length (ml sys') \<Longrightarrow> mb_kind (ml sys' ! j) = MEASURE \<Longrightarrow>
           ml (fst (restoreLayout2 ext sc sys')) ! j = ml sys' ! j"
proof -
  from layout2_decompose[OF run nv ne] obtain sts where
    v: "visibleStaves sc 0 (staves sys) = Inr (visibleIndices sc sys, sts)"
    and l: "length (staves sys') = length (staves sys)"
    and st: "\<And>i. i < length (staves sys) \<Longrightarrow>
        (staves sys' ! i)\<lparr>instrumentNames := []\<rparr> =
        (stackStaves k ext sc (sys\<lparr>sys_pos := (0, 0), staves := sts\<rparr>) (visibleIndices sc sys) 0 sts ! i)
          \<lparr>instrumentNames := []\<rparr>"
    and sb: "sys_bbox sys' = setHeight (systemHeight sys') (sys_bbox sys)"
    and m: "ml sys' = map (\<lambda>m. fst (setMeasureHeight1 ext (spatium sc) (systemHeight sys') m)) (ml sys)"
    by blast
  note vi = visibleStaves_visibleIndices[OF v]
  from boundaryScan_after_setMeasureHeight(2)[OF m] nv have nv': "vbox sys' = None" by simp
  show "systemHeight (fst (restoreLayout2 ext sc sys')) = systemHeight sys'"
    by (simp add: restoreLayout2_def nv' setMeasureHeight_def Let_def)
  show "sys_bbox (fst (restoreLayout2 ext sc sys')) = sys_bbox sys'"
    by (simp add: restoreLayout2_def nv' setMeasureHeight_def Let_def sb setHeight_def)
  { assume i: "i \<in> set (visibleIndices sc sys)"
    then have il: "i < length (staves sys)" by (simp add: visibleIndices_props)
    with vi(2) have "i < length sts" by simp
    from stackStaves_placed[OF i this] obtain st0 y ss where
      "stackStaves k ext sc (sys\<lparr>sys_pos := (0, 0), staves := sts\<rparr>) (visibleIndices sc sys) 0 sts ! i
         = placeStaff k sc (sys\<lparr>sys_pos := (0, 0), staves := sts\<rparr>) st0 y ss"
      by blast
    with st[OF il] have "restoreLayout (staves sys' ! i) = staves sys' ! i"
      by (intro restoreLayout_placeStaff_strip) simp
    with il l show "staves (fst (restoreLayout2 ext sc sys')) ! i = staves sys' ! i"
      by (simp add: restoreLayout2_def nv' setMeasureHeight_def Let_def) }
  { assume j: "j < length (ml sys')" and k: "mb_kind (ml sys' ! j) = MEASURE"
    from j m have j': "j < length (ml sys)" by simp
    with m have e: "ml sys' ! j = fst (setMeasureHeight1 ext (spatium sc) (systemHeight sys') (ml sys ! j))"
      by simp
    with k have k': "mb_kind (ml sys ! j) = MEASURE" by (simp add: setMeasureHeight1_core)
    have "fst (setMeasureHeight1 ext (spatium sc) (systemHeight sys') (ml sys' ! j)) = ml sys' ! j"
      unfolding e using k' by (simp add: setMeasureHeight1_def setRect_def)
    with j show "ml (fst (restoreLayout2 ext sc sys')) ! j = ml sys' ! j"
      by (simp add: restoreLayout2_def nv' setMeasureHeight_def Let_def) }
qed

lemma firstShown_eq:
  "0 \<le> f \<Longrightarrow> l < int (length (staves sys)) \<Longrightarrow>
     firstShown sys f l
       = Inr (f + int (length (takeWhile Not (map (\<lambda>i. ss_show (staves sys ! nat i)) [f .. l]))))"
proof (induction sys f l rule: firstShown.induct)
  case (1 sys firstStaff lastStaff)
  show ?case
  proof (cases "firstStaff \<le> lastStaff")
    case False
    then show ?thesis by (subst firstShown.simps) simp
  next
    case True
    with "1.prems" have st: "staff sys firstStaff = Some (staves sys ! nat firstStaff)"
      by (simp add: staff_Some)
    from True have u: "[firstStaff .. lastStaff] = firstStaff # [firstStaff + 1 .. lastStaff]"
      by (rule upto_rec1)
    show ?thesis
    proof (cases "ss_show (staves sys ! nat firstStaff)")
      case T: True
      with True st show ?thesis by (subst firstShown.simps) (simp add: u)
    next
      case False
      from "1.IH"[OF True st False] "1.prems"
      have "firstShown sys (firstStaff + 1) lastStaff
              = Inr (firstStaff + 1 + int (length (takeWhile Not
                  (map (\<lambda>i. ss_show (staves sys ! nat i)) [firstStaff + 1 .. lastStaff]))))"
        by simp
      with True st False show ?thesis by (subst firstShown.simps) (simp add: u)
    qed
  qed
qed

lemma lastShown_eq:
  "0 \<le> f \<Longrightarrow> l < int (length (staves sys)) \<Longrightarrow>
     lastShown sys f l
       = Inr (l - int (length (takeWhile Not (rev (map (\<lambda>i. ss_show (staves sys ! nat i)) [f .. l])))))"
proof (induction sys f l rule: lastShown.induct)
  case (1 sys firstStaff lastStaff)
  show ?case
  proof (cases "firstStaff \<le> lastStaff")
    case False
    then show ?thesis by (subst lastShown.simps) simp
  next
    case True
    with "1.prems" have st: "staff sys lastStaff = Some (staves sys ! nat lastStaff)"
      by (simp add: staff_Some)
    from True have u: "[firstStaff .. lastStaff] = [firstStaff .. lastStaff - 1] @ [lastStaff]"
      by (rule upto_rec2)
    show ?thesis
    proof (cases "ss_show (staves sys ! nat lastStaff)")
      case T: True
      with True st show ?thesis by (subst lastShown.simps) (simp add: u)
    next
      case False
      from "1.IH"[OF True st False] "1.prems"
      have "lastShown sys firstStaff (lastStaff - 1)
              = Inr (lastStaff - 1 - int (length (takeWhile Not (rev
                  (map (\<lambda>i. ss_show (staves sys ! nat i)) [firstStaff .. lastStaff - 1])))))"
        by simp
      with True st False show ?thesis by (subst lastShown.simps) (simp add: u)
    qed
  qed
qed

lemma drop_upto: "drop n [f .. l] = [f + int n .. l]"
proof (induction n arbitrary: f)
  case 0
  then show ?case by simp
next
  case (Suc n)
  show ?case
  proof (cases "f \<le> l")
    case True
    then have "[f .. l] = f # [f + 1 .. l]" by (rule upto_rec1)
    with Suc[of "f + 1"] show ?thesis by (simp add: add.assoc)
  next
    case False
    then show ?thesis by simp
  qed
qed

text \<open>The span that createBracket computes is the visible span of the spec.\<close>

lemma createBracket_span:
  assumes "0 \<le> staffIdx" and "staffIdx \<le> int (length (staves sys))" and "0 \<le> bspan"
  defines "l1 \<equiv> (if staffIdx + bspan - 1 \<ge> int (length (staves sys))
                  then int (length (staves sys)) - 1 else staffIdx + bspan - 1)"
  shows "\<exists>firstStaff lastStaff.
           firstShown sys staffIdx l1 = Inr firstStaff
         \<and> lastShown sys firstStaff l1 = Inr lastStaff
         \<and> lastStaff - firstStaff + 1 = visibleSpan sys staffIdx bspan"
proof -
  let ?sh = "\<lambda>i. ss_show (staves sys ! nat i)"
  let ?R = "map ?sh [staffIdx .. l1]"
  let ?a = "length (takeWhile Not ?R)"
  let ?D = "dropWhile Not ?R"
  let ?b = "length (takeWhile Not (rev ?D))"
  have l1n: "l1 < int (length (staves sys))" by (simp add: l1_def)
  have l1lo: "staffIdx - 1 \<le> l1" using assms(2,3) by (simp add: l1_def)
  have l1min: "l1 = min (staffIdx + bspan - 1) (int (length (staves sys)) - 1)"
    by (simp add: l1_def min_def)
  have f: "firstShown sys staffIdx l1 = Inr (staffIdx + int ?a)"
    by (rule firstShown_eq[OF assms(1) l1n])
  have D: "map ?sh [staffIdx + int ?a .. l1] = ?D"
    by (simp add: dropWhile_eq_drop drop_map drop_upto)
  have "0 \<le> staffIdx + int ?a" using assms(1) by simp
  from lastShown_eq[OF this l1n] have l: "lastShown sys (staffIdx + int ?a) l1 = Inr (l1 - int ?b)"
    by (simp add: D)
  have lenR: "int (length ?R) = l1 - staffIdx + 1" using l1lo by simp
  have "int (length ?R) = int ?a + int (length ?D)"
    by (metis length_append takeWhile_dropWhile_id of_nat_add)
  with lenR have lenD: "int (length ?D) = l1 - staffIdx + 1 - int ?a" by linarith
  have "int (length ?D) = int ?b + int (length (dropWhile Not (rev ?D)))"
    by (metis length_append length_rev takeWhile_dropWhile_id of_nat_add)
  with lenD have "int (length (dropWhile Not (rev ?D))) = l1 - staffIdx + 1 - int ?a - int ?b"
    by linarith
  then have "l1 - int ?b - (staffIdx + int ?a) + 1 = visibleSpan sys staffIdx bspan"
    by (simp add: visibleSpan_def Let_def l1min[symmetric])
  with f l show ?thesis by blast
qed

text \<open>
  Where the end of the range fits the type \<open>int\<close>, the wrapped arithmetic of
  \<open>createBracket\<close> is the exact one.
\<close>

lemma visibleSpan_bounds:
  assumes "0 \<le> staffIdx"
  shows "0 \<le> visibleSpan sys staffIdx bspan"
    and "visibleSpan sys staffIdx bspan \<le> int (length (staves sys))"
proof -
  let ?sh = "\<lambda>i. ss_show (staves sys ! nat i)"
  let ?lc = "min (staffIdx + bspan - 1) (int (length (staves sys)) - 1)"
  let ?R = "map ?sh [staffIdx .. ?lc]"
  show "0 \<le> visibleSpan sys staffIdx bspan" by (simp add: visibleSpan_def Let_def)
  have a: "length (dropWhile Not (rev (dropWhile Not ?R))) \<le> length (rev (dropWhile Not ?R))"
    by (rule length_dropWhile_le)
  have b: "length (rev (dropWhile Not ?R)) = length (dropWhile Not ?R)" by (rule length_rev)
  have c: "length (dropWhile Not ?R) \<le> length ?R" by (rule length_dropWhile_le)
  have d: "length ?R \<le> length (staves sys)" using assms by simp
  from a b c d have "length (dropWhile Not (rev (dropWhile Not ?R))) \<le> length (staves sys)"
    by linarith
  then show "visibleSpan sys staffIdx bspan \<le> int (length (staves sys))"
    unfolding visibleSpan_def Let_def by (simp only: of_nat_le_iff)
qed

lemma createBracket_lastStaff_exact:
  assumes "0 \<le> staffIdx" and "0 \<le> bspan" and "staffIdx + bspan - 1 \<le> 2147483647"
  shows "wrap_int (wrap_int (staffIdx + bspan) - 1) = staffIdx + bspan - 1"
proof -
  have "wrap_int (wrap_int (staffIdx + bspan) - 1) = wrap_int (staffIdx + bspan - 1)"
    using wrap_int_add_left[of "staffIdx + bspan" "- 1"] by simp
  also have "\<dots> = staffIdx + bspan - 1" using assms by (intro wrap_int_id) simp_all
  finally show ?thesis .
qed

lemma createBracket_span_exact:
  assumes "0 \<le> v" and "v \<le> 2147483647" and "lastStaff - firstStaff + 1 = v"
  shows "wrap_int (wrap_int (lastStaff - firstStaff) + 1) = v"
proof -
  have "wrap_int (wrap_int (lastStaff - firstStaff) + 1) = wrap_int (lastStaff - firstStaff + 1)"
    by (rule wrap_int_add_left)
  also have "\<dots> = v" using assms by (simp add: wrap_int_id)
  finally show ?thesis .
qed

text \<open>
  For a staff of the system, a declared span of at least 0 and an end of the range that fits
  the type \<open>int\<close>, \<open>createBracket\<close> creates a bracket if and only if the visible span is at
  least 2, or equals the declared span, or is 1 while the policy is set.
\<close>

lemma createBracket_iff_visible_span_without_overflow:
  assumes "0 \<le> staffIdx" and "staffIdx < int (length (staves sys))" and "0 \<le> bi_bracketSpan bi"
    and "staffIdx + bi_bracketSpan bi - 1 \<le> 2147483647"
    and "int (length (staves sys)) \<le> 2147483647"
  shows "\<exists>r bl' sys'.
           createBracket k ext sc sys bi column staffIdx bl measureId = Inr (r, bl', sys')
         \<and> ((r \<noteq> None) =
              (2 \<le> visibleSpan sys staffIdx (bi_bracketSpan bi)
               \<or> bi_bracketSpan bi = visibleSpan sys staffIdx (bi_bracketSpan bi)
               \<or> (visibleSpan sys staffIdx (bi_bracketSpan bi) = 1
                   \<and> alwaysShowBracketsWhenEmptyStavesAreHidden sc)))
         \<and> (visibleSpan sys staffIdx (bi_bracketSpan bi) = 1 \<and> bi_bracketSpan bi \<noteq> 1
              \<and> \<not> alwaysShowBracketsWhenEmptyStavesAreHidden sc \<longrightarrow> r = None)
         \<and> (r = None \<longrightarrow> sys' = sys \<and> bl' = bl)
         \<and> (\<forall>b. r = Some b \<longrightarrow>
               brackets sys' = brackets sys @ [b]
               \<and> br_lastStaff b - br_firstStaff b + 1 = visibleSpan sys staffIdx (bi_bracketSpan bi))"
proof -
  let ?v = "visibleSpan sys staffIdx (bi_bracketSpan bi)"
  let ?l1 = "if staffIdx + bi_bracketSpan bi - 1 \<ge> int (length (staves sys))
             then int (length (staves sys)) - 1 else staffIdx + bi_bracketSpan bi - 1"
  have l0: "wrap_int (wrap_int (staffIdx + bi_bracketSpan bi) - 1) = staffIdx + bi_bracketSpan bi - 1"
    by (rule createBracket_lastStaff_exact[OF assms(1,3,4)])
  from assms(2) have "staffIdx \<le> int (length (staves sys))" by simp
  from createBracket_span[OF assms(1) this assms(3)] obtain firstStaff lastStaff where
    f: "firstShown sys staffIdx ?l1 = Inr firstStaff"
    and l: "lastShown sys firstStaff ?l1 = Inr lastStaff"
    and sp: "lastStaff - firstStaff + 1 = ?v"
    by blast
  from visibleSpan_bounds[OF assms(1), of sys "bi_bracketSpan bi"] assms(5)
  have "0 \<le> ?v" "?v \<le> 2147483647" by simp_all
  from createBracket_span_exact[OF this sp]
  have w: "wrap_int (wrap_int (lastStaff - firstStaff) + 1) = ?v" .
  show ?thesis
    unfolding createBracket_def Let_def l0 f sum.case l w using sp
    by (auto simp: setStaffSpan_def)
qed

lemma fold_xOffsetStep:
  "fold (xOffsetStep bd b1) bs acc =
     acc + sum_list (map (\<lambda>b2. br_width b2 + bd)
             (filter (\<lambda>b2. br_column b2 < br_column b1
                        \<and> ((br_firstStaff b2 \<le> br_firstStaff b1 \<and> br_firstStaff b1 \<le> br_lastStaff b2)
                           \<or> (br_firstStaff b2 \<le> br_lastStaff b1 \<and> br_lastStaff b1 \<le> br_lastStaff b2)))
                bs))"
  by (induction bs arbitrary: acc) (auto simp: xOffsetStep_def Let_def)

text \<open>
  For a bracket that spans at least one staff and does not strictly contain the range of a
  bracket in a lower column, the test of the code (the first or the last staff of the bracket
  lies in the range of the other) is the overlap of the two ranges.
\<close>

lemma staffTest_iff_rangesOverlap:
  assumes "br_firstStaff b1 \<le> br_lastStaff b1" and "\<not> containsLowerColumn bs b1"
    and "b2 \<in> set bs"
  shows "(br_column b2 < br_column b1
           \<and> ((br_firstStaff b2 \<le> br_firstStaff b1 \<and> br_firstStaff b1 \<le> br_lastStaff b2)
              \<or> (br_firstStaff b2 \<le> br_lastStaff b1 \<and> br_lastStaff b1 \<le> br_lastStaff b2)))
         = (br_column b2 < br_column b1 \<and> rangesOverlap b1 b2)"
proof (cases "br_column b2 < br_column b1")
  case False
  then show ?thesis by simp
next
  case True
  with assms(2,3) have "\<not> (br_firstStaff b1 < br_firstStaff b2 \<and> br_lastStaff b2 < br_lastStaff b1)"
    by (auto simp: containsLowerColumn_def)
  with assms(1) True show ?thesis unfolding rangesOverlap_def by linarith
qed

lemma fold_xOffsetStep_lower:
  assumes "br_firstStaff b1 \<le> br_lastStaff b1" and "\<not> containsLowerColumn bs b1"
  shows "fold (xOffsetStep bd b1) bs 0 = lower_xOffset bd b1 bs"
proof -
  have "filter (\<lambda>b2. br_column b2 < br_column b1
                  \<and> ((br_firstStaff b2 \<le> br_firstStaff b1 \<and> br_firstStaff b1 \<le> br_lastStaff b2)
                     \<or> (br_firstStaff b2 \<le> br_lastStaff b1 \<and> br_lastStaff b1 \<le> br_lastStaff b2))) bs
        = filter (\<lambda>b2. br_column b2 < br_column b1 \<and> rangesOverlap b1 b2) bs"
    by (rule filter_cong[OF refl]) (rule staffTest_iff_rangesOverlap[OF assms])
  then show ?thesis by (simp only: fold_xOffsetStep lower_xOffset_def add_0)
qed

lemma sum_list_filter_mono:
  fixes f :: "'a \<Rightarrow> real"
  assumes "\<And>b. b \<in> set bs \<Longrightarrow> Q2 b \<Longrightarrow> Q1 b" and "\<And>b. b \<in> set bs \<Longrightarrow> 0 \<le> f b"
  shows "sum_list (map f (filter Q2 bs)) \<le> sum_list (map f (filter Q1 bs))"
  using assms
proof (induction bs)
  case Nil
  then show ?case by simp
next
  case (Cons b bs)
  from Cons.prems have IH: "sum_list (map f (filter Q2 bs)) \<le> sum_list (map f (filter Q1 bs))"
    by (intro Cons.IH) auto
  from Cons.prems(2)[of b] have "0 \<le> f b" by simp
  moreover from Cons.prems(1)[of b] have "Q2 b \<Longrightarrow> Q1 b" by simp
  ultimately show ?case using IH by auto
qed

lemma sum_list_filter_extra:
  fixes f :: "'a \<Rightarrow> real"
  assumes "\<And>b. b \<in> set bs \<Longrightarrow> Q2 b \<Longrightarrow> Q1 b" and "\<And>b. b \<in> set bs \<Longrightarrow> 0 \<le> f b"
    and "c \<in> set bs" and "Q1 c" and "\<not> Q2 c"
  shows "sum_list (map f (filter Q2 bs)) + f c \<le> sum_list (map f (filter Q1 bs))"
  using assms
proof (induction bs)
  case Nil
  then show ?case by simp
next
  case (Cons b bs)
  from Cons.prems(2)[of b] have fb: "0 \<le> f b" by simp
  from Cons.prems(1)[of b] have imp: "Q2 b \<Longrightarrow> Q1 b" by simp
  show ?case
  proof (cases "c = b")
    case True
    from Cons.prems(1,2) have "sum_list (map f (filter Q2 bs)) \<le> sum_list (map f (filter Q1 bs))"
      by (intro sum_list_filter_mono) auto
    with True Cons.prems(4,5) show ?thesis by simp
  next
    case False
    with Cons.prems have "sum_list (map f (filter Q2 bs)) + f c \<le> sum_list (map f (filter Q1 bs))"
      by (intro Cons.IH) auto
    with fb imp show ?thesis by auto
  qed
qed

text \<open>
  A bracket is displaced by at least the offset of an overlapping bracket in a lower column
  plus the width of that bracket plus the bracket distance, when the brackets that displace
  the bracket in the lower column also overlap the bracket itself.
\<close>

lemma lower_xOffset_nested:
  assumes "b2 \<in> set bs" and "br_column b2 < br_column b1" and "rangesOverlap b1 b2"
    and "\<And>b3. b3 \<in> set bs \<Longrightarrow> br_column b3 < br_column b2 \<Longrightarrow> rangesOverlap b2 b3
           \<Longrightarrow> rangesOverlap b1 b3"
    and "\<And>b. b \<in> set bs \<Longrightarrow> 0 \<le> br_width b" and "0 \<le> bd"
  shows "lower_xOffset bd b2 bs + (br_width b2 + bd) \<le> lower_xOffset bd b1 bs"
  unfolding lower_xOffset_def
proof (rule sum_list_filter_extra)
  fix b assume "b \<in> set bs" and "br_column b < br_column b2 \<and> rangesOverlap b2 b"
  with assms(2,4) show "br_column b < br_column b1 \<and> rangesOverlap b1 b" by auto
next
  fix b assume "b \<in> set bs"
  with assms(5,6) show "0 \<le> br_width b + bd" by (simp add: add_nonneg_nonneg)
next
  show "b2 \<in> set bs" by (rule assms(1))
  show "br_column b2 < br_column b1 \<and> rangesOverlap b1 b2" using assms(2,3) by simp
  show "\<not> (br_column b2 < br_column b2 \<and> rangesOverlap b2 b2)" by simp
qed

text \<open>
  A bracket whose staff range strictly contains the range of a bracket in a lower column is not
  displaced by that bracket: neither its first nor its last staff lies in the inner range.
  Below, the bracket of column 1 spans the staves 0 to 3 and has the width 3, the bracket of
  column 0 spans the staves 1 to 2 and has the width 2; both are placed with their right edge
  at \<open>x = 10\<close>, from 7 to 10 and from 8 to 10, although the ranges overlap and the offset over
  the overlapping brackets of lower columns is 3 for the bracket of column 1.
\<close>

lemma setBracketsXPosition_containing_bracket_not_displaced:
  "containsLowerColumn (brackets c8_containing) (brackets c8_containing ! 0)
   \<and> rangesOverlap (brackets c8_containing ! 0) (brackets c8_containing ! 1)
   \<and> lower_xOffset (bracketDistance c8_score4) (brackets c8_containing ! 0) (brackets c8_containing) = 3
   \<and> br_xpos (brackets (setBracketsXPosition c8_score4 10 c8_containing) ! 0) = 7
   \<and> br_width (brackets c8_containing ! 0) = 3
   \<and> br_xpos (brackets (setBracketsXPosition c8_score4 10 c8_containing) ! 1) = 8
   \<and> br_width (brackets c8_containing ! 1) = 2"
  by (simp add: setBracketsXPosition_def xOffsetStep_def lower_xOffset_def rangesOverlap_def
      containsLowerColumn_def c8_defs ex_defs br_column_def Let_def)

lemma firstSysStaffOfPart_loop_eq:
  "p < length ps \<Longrightarrow>
     firstSysStaffOfPart_loop ps p st = st + int (sum_list (map nstaves (take p ps)))"
proof (induction ps arbitrary: p st)
  case Nil
  then show ?case by simp
next
  case (Cons q ps)
  show ?case
  proof (cases p)
    case 0
    then show ?thesis by simp
  next
    case (Suc p')
    with Cons.prems have "p' < length ps" by simp
    from Cons.IH[OF this] Suc show ?thesis by simp
  qed
qed

lemma firstSysStaffOfPart_partStart:
  "p < length (parts sc) \<Longrightarrow> firstSysStaffOfPart sc p = partStart sc p"
  by (simp add: firstSysStaffOfPart_def partStart_def firstSysStaffOfPart_loop_eq)

lemma partStart_Suc:
  "p < length (parts sc) \<Longrightarrow> partStart sc (Suc p) = partStart sc p + int (nstaves (parts sc ! p))"
  by (simp add: partStart_def take_Suc_conv_app_nth)

lemma partStart_nonneg: "0 \<le> partStart sc p"
  by (simp add: partStart_def)

lemma partStart_mono: "p \<le> q \<Longrightarrow> partStart sc p \<le> partStart sc q"
proof -
  assume "p \<le> q"
  then have "take q (parts sc) = take p (parts sc) @ drop p (take q (parts sc))"
    by (metis append_take_drop_id min.absorb2 take_take min.commute)
  then have "sum_list (map nstaves (take q (parts sc)))
             = sum_list (map nstaves (take p (parts sc)))
               + sum_list (map nstaves (drop p (take q (parts sc))))"
    by (metis map_append sum_list_append)
  then show ?thesis by (simp add: partStart_def)
qed

lemma firstVisible_loop_range:
  "firstVisible_loop sys idx n = Inr v \<Longrightarrow> 0 \<le> v \<Longrightarrow>
     idx \<le> v \<and> v < idx + int n \<and> nat v < length (staves sys) \<and> ss_show (staves sys ! nat v)"
proof (induction n arbitrary: idx)
  case 0
  then show ?case by simp
next
  case (Suc n)
  from Suc.prems obtain s where s: "staff sys idx = Some s"
    by (auto split: option.splits)
  note sd = staff_SomeD[OF s]
  show ?case
  proof (cases "ss_show s")
    case True
    with Suc.prems s sd show ?thesis by auto
  next
    case False
    with Suc.prems s have "firstVisible_loop sys (idx + 1) n = Inr v" by simp
    from Suc.IH[OF this Suc.prems(2)] show ?thesis by auto
  qed
qed

lemma firstVisible_loop_first:
  assumes "0 \<le> idx" and "nat v < length (staves sys)" and "idx \<le> v" and "v < idx + int n"
    and "ss_show (staves sys ! nat v)"
    and "\<forall>i. idx \<le> i \<and> i < v \<longrightarrow> \<not> ss_show (staves sys ! nat i)"
  shows "firstVisible_loop sys idx n = Inr v"
  using assms
proof (induction n arbitrary: idx)
  case 0
  then show ?case by simp
next
  case (Suc n)
  from Suc.prems have s: "staff sys idx = Some (staves sys ! nat idx)"
    by (intro staff_Some) auto
  show ?case
  proof (cases "idx = v")
    case True
    with Suc.prems s show ?thesis by simp
  next
    case False
    with Suc.prems have ns: "\<not> ss_show (staves sys ! nat idx)" by auto
    from False Suc.prems have "firstVisible_loop sys (idx + 1) n = Inr v"
      by (intro Suc.IH) auto
    with s ns show ?thesis by simp
  qed
qed

lemma firstVisible_loop_cong:
  assumes "stripNames a = stripNames b"
  shows "firstVisible_loop a idx n = firstVisible_loop b idx n"
proof (induction n arbitrary: idx)
  case 0
  then show ?case by simp
next
  case (Suc n)
  note sn = stripNames_nth[OF assms]
  show ?case
  proof (cases "0 \<le> idx \<and> idx < int (length (staves b))")
    case True
    then have "nat idx < length (staves b)" by arith
    from strip_fields(6)[OF sn(2)[OF this]] True sn(1) Suc show ?thesis
      by (simp add: staff_def)
  next
    case False
    with sn(1) show ?thesis by (auto simp: staff_def)
  qed
qed

lemma mapE_Inr:
  "mapE f xs = Inr ys \<Longrightarrow> list_all2 (\<lambda>x y. f x = Inr y) xs ys"
proof (induction xs arbitrary: ys)
  case Nil
  then show ?case by simp
next
  case (Cons x xs)
  then show ?case by (auto split: sum.splits)
qed

lemma positionName_ypos:
  "positionName sys st nst s t = Inr t' \<Longrightarrow> t'\<lparr>in_ypos := 0\<rparr> = t\<lparr>in_ypos := 0\<rparr>"
  by (auto simp: positionName_def split: sum.splits)

lemma positionNames_effect:
  assumes "positionNames st nst sidx sys = Inr sys'"
  shows "\<exists>ts. staves sys' = (staves sys)[nat sidx := (staves sys ! nat sidx)\<lparr>instrumentNames := ts\<rparr>]
           \<and> map (\<lambda>t. t\<lparr>in_ypos := 0\<rparr>) ts
               = map (\<lambda>t. t\<lparr>in_ypos := 0\<rparr>) (instrumentNames (staves sys ! nat sidx))
           \<and> 0 \<le> sidx \<and> nat sidx < length (staves sys)"
proof -
  from assms obtain s where s: "staff sys sidx = Some s"
    by (auto simp: positionNames_def split: option.splits)
  note sd = staff_SomeD[OF s]
  from assms s obtain ts where ts: "mapE (positionName sys st nst s) (instrumentNames s) = Inr ts"
    and e: "sys' = sys\<lparr>staves := (staves sys)[nat sidx := s\<lparr>instrumentNames := ts\<rparr>]\<rparr>"
    by (auto simp: positionNames_def split: sum.splits)
  from mapE_Inr[OF ts] have "list_all2 (\<lambda>t t'. t'\<lparr>in_ypos := 0\<rparr> = t\<lparr>in_ypos := 0\<rparr>) (instrumentNames s) ts"
    by (rule list_all2_mono) (rule positionName_ypos)
  then have "map (\<lambda>t. t\<lparr>in_ypos := 0\<rparr>) ts = map (\<lambda>t. t\<lparr>in_ypos := 0\<rparr>) (instrumentNames s)"
    by (induction rule: list_all2_induct) simp_all
  with e sd show ?thesis by auto
qed

lemma moveNames_effect:
  assumes "moveNames k f v sys = Inr sys'"
  shows "staves sys' = (staves sys)
           [nat v := (staves sys ! nat v)\<lparr>instrumentNames := instrumentNames (staves sys ! nat v) @
               map (\<lambda>t. t\<lparr>in_track := v * VOICES k, in_sysStaff := v\<rparr>)
                 (instrumentNames (staves sys ! nat f))\<rparr>,
            nat f := (staves sys ! nat f)\<lparr>instrumentNames := []\<rparr>]"
    and "0 \<le> f" "nat f < length (staves sys)" "0 \<le> v" "nat v < length (staves sys)"
proof -
  from assms obtain vs s where vs: "staff sys v = Some vs" and s: "staff sys f = Some s"
    by (auto simp: moveNames_def split: option.splits)
  note a = staff_SomeD[OF vs] staff_SomeD[OF s]
  from a show "0 \<le> f" "nat f < length (staves sys)" "0 \<le> v" "nat v < length (staves sys)"
    by simp_all
  from assms vs s a show "staves sys' = (staves sys)
           [nat v := (staves sys ! nat v)\<lparr>instrumentNames := instrumentNames (staves sys ! nat v) @
               map (\<lambda>t. t\<lparr>in_track := v * VOICES k, in_sysStaff := v\<rparr>)
                 (instrumentNames (staves sys ! nat f))\<rparr>,
            nat f := (staves sys ! nat f)\<lparr>instrumentNames := []\<rparr>]"
    by (auto simp: moveNames_def Let_def)
qed

lemma part_frame:
  assumes run: "layoutInstrumentNames_part k sc p (partStart sc p) sys = Inr sys'"
    and p: "p < length (parts sc)"
    and out: "int i < partStart sc p \<or> partStart sc (Suc p) \<le> int i"
  shows "staves sys' ! i = staves sys ! i"
proof -
  let ?st = "partStart sc p"
  let ?n = "nstaves (parts sc ! p)"
  from run obtain v where v: "firstVisible_loop sys ?st ?n = Inr v"
    by (auto simp: layoutInstrumentNames_part_def firstVisibleSysStaffOfPart_def
        firstSysStaffOfPart_partStart[OF p] split: sum.splits)
  show ?thesis
  proof (cases "0 \<le> v")
    case False
    with run v show ?thesis
      by (simp add: layoutInstrumentNames_part_def firstVisibleSysStaffOfPart_def
          firstSysStaffOfPart_partStart[OF p])
  next
    case True
    from firstVisible_loop_range[OF v True] have r: "?st \<le> v" "v < ?st + int ?n" by simp_all
    from out r True partStart_Suc[OF p] have iv: "i \<noteq> nat v" by arith
    from out r partStart_Suc[OF p] partStart_nonneg[of sc p] have ist: "i \<noteq> nat ?st" by arith
    show ?thesis
    proof (cases "v = ?st")
      case T: True
      with run v True have "positionNames ?st (int ?n) ?st sys = Inr sys'"
        by (simp add: layoutInstrumentNames_part_def firstVisibleSysStaffOfPart_def
            firstSysStaffOfPart_partStart[OF p])
      from positionNames_effect[OF this] ist show ?thesis by auto
    next
      case False
      with run v True obtain s1 where m: "moveNames k ?st v sys = Inr s1"
        and ps: "positionNames ?st (int ?n) v s1 = Inr sys'"
        by (auto simp: layoutInstrumentNames_part_def firstVisibleSysStaffOfPart_def
            firstSysStaffOfPart_partStart[OF p] split: sum.splits)
      from positionNames_effect[OF ps] iv have "staves sys' ! i = staves s1 ! i" by auto
      also from moveNames_effect(1)[OF m] iv ist have "staves s1 ! i = staves sys ! i" by simp
      finally show ?thesis .
    qed
  qed
qed

lemma part_move:
  assumes run: "layoutInstrumentNames_part k sc p (partStart sc p) sys = Inr sys'"
    and p: "p < length (parts sc)"
    and v: "firstVisible_loop sys (partStart sc p) (nstaves (parts sc ! p)) = Inr v"
    and v0: "0 \<le> v" and vne: "v \<noteq> partStart sc p"
  shows "instrumentNames (staves sys' ! nat (partStart sc p)) = []"
    and "map (\<lambda>t. t\<lparr>in_ypos := 0\<rparr>) (instrumentNames (staves sys' ! nat v))
           = map (\<lambda>t. t\<lparr>in_ypos := 0\<rparr>)
               (instrumentNames (staves sys ! nat v) @
                map (\<lambda>t. t\<lparr>in_track := v * VOICES k, in_sysStaff := v\<rparr>)
                  (instrumentNames (staves sys ! nat (partStart sc p))))"
proof -
  let ?st = "partStart sc p"
  let ?n = "nstaves (parts sc ! p)"
  from run v v0 vne obtain s1 where m: "moveNames k ?st v sys = Inr s1"
    and ps: "positionNames ?st (int ?n) v s1 = Inr sys'"
    by (auto simp: layoutInstrumentNames_part_def firstVisibleSysStaffOfPart_def
        firstSysStaffOfPart_partStart[OF p] split: sum.splits)
  note me = moveNames_effect[OF m]
  from me(2,4) vne have ne: "nat v \<noteq> nat ?st" by simp
  from positionNames_effect[OF ps] obtain ts where
    e: "staves sys' = (staves s1)[nat v := (staves s1 ! nat v)\<lparr>instrumentNames := ts\<rparr>]"
    and ts: "map (\<lambda>t. t\<lparr>in_ypos := 0\<rparr>) ts
               = map (\<lambda>t. t\<lparr>in_ypos := 0\<rparr>) (instrumentNames (staves s1 ! nat v))"
    and lv: "nat v < length (staves s1)"
    by blast
  from e ne have "staves sys' ! nat ?st = staves s1 ! nat ?st" by simp
  also from me(1,3) have "staves s1 ! nat ?st = (staves sys ! nat ?st)\<lparr>instrumentNames := []\<rparr>"
    by simp
  finally show "instrumentNames (staves sys' ! nat ?st) = []" by simp
  from e lv have "instrumentNames (staves sys' ! nat v) = ts" by simp
  moreover from me(1,5) ne have "instrumentNames (staves s1 ! nat v)
      = instrumentNames (staves sys ! nat v) @
                map (\<lambda>t. t\<lparr>in_track := v * VOICES k, in_sysStaff := v\<rparr>)
                  (instrumentNames (staves sys ! nat ?st))"
    by simp
  ultimately show "map (\<lambda>t. t\<lparr>in_ypos := 0\<rparr>) (instrumentNames (staves sys' ! nat v))
           = map (\<lambda>t. t\<lparr>in_ypos := 0\<rparr>)
               (instrumentNames (staves sys ! nat v) @
                map (\<lambda>t. t\<lparr>in_track := v * VOICES k, in_sysStaff := v\<rparr>)
                  (instrumentNames (staves sys ! nat ?st)))"
    using ts by simp
qed

lemma loop_frame:
  assumes "layoutInstrumentNames_loop k sc n p (partStart sc p) sys = Inr sys'"
    and "p + n \<le> length (parts sc)"
    and "int i < partStart sc p \<or> partStart sc (p + n) \<le> int i"
  shows "staves sys' ! i = staves sys ! i"
  using assms
proof (induction n arbitrary: p sys)
  case 0
  then show ?case by simp
next
  case (Suc n)
  from Suc.prems(2) have p: "p < length (parts sc)" by simp
  from Suc.prems(1) obtain s1 where
    s1: "layoutInstrumentNames_part k sc p (partStart sc p) sys = Inr s1"
    and r: "layoutInstrumentNames_loop k sc n (Suc p) (partStart sc (Suc p)) s1 = Inr sys'"
    by (auto simp: partStart_Suc[OF p] split: sum.splits)
  have m1: "partStart sc p \<le> partStart sc (Suc p)" by (rule partStart_mono) simp
  have m2: "partStart sc (Suc p) \<le> partStart sc (p + Suc n)" by (rule partStart_mono) simp
  from Suc.prems(3) m1 m2
  have o1: "int i < partStart sc p \<or> partStart sc (Suc p) \<le> int i"
    and o2: "int i < partStart sc (Suc p) \<or> partStart sc (Suc p + n) \<le> int i"
    by auto
  from Suc.IH[OF r _ o2] Suc.prems(2) have "staves sys' ! i = staves s1 ! i" by simp
  also have "staves s1 ! i = staves sys ! i" by (rule part_frame[OF s1 p o1])
  finally show ?case .
qed

lemma loop_split:
  assumes "p + a + b \<le> length (parts sc)"
  shows "layoutInstrumentNames_loop k sc (a + b) p (partStart sc p) sys =
           (case layoutInstrumentNames_loop k sc a p (partStart sc p) sys of
              Inl e \<Rightarrow> Inl e
            | Inr s1 \<Rightarrow> layoutInstrumentNames_loop k sc b (p + a) (partStart sc (p + a)) s1)"
  using assms
proof (induction a arbitrary: p sys)
  case 0
  then show ?case by simp
next
  case (Suc a)
  then have p: "p < length (parts sc)" by simp
  show ?case
  proof (cases "layoutInstrumentNames_part k sc p (partStart sc p) sys")
    case (Inl e)
    then show ?thesis by simp
  next
    case (Inr s0)
    from Suc.prems have "Suc p + a + b \<le> length (parts sc)" by simp
    note IH = Suc.IH[OF this, of s0]
    have eq: "Suc p + a = p + Suc a" by simp
    from IH[unfolded eq] Inr show ?thesis
      by (simp add: partStart_Suc[OF p])
  qed
qed

text \<open>When \<open>layout2\<close> completes.\<close>

lemma in_set_updateD: "s \<in> set (xs[i := y]) \<Longrightarrow> s = y \<or> s \<in> set xs"
  using set_update_subset_insert[of xs i y] by auto

lemma mapE_defined:
  "(\<And>x. x \<in> set xs \<Longrightarrow> \<exists>y. f x = Inr y) \<Longrightarrow> \<exists>ys. mapE f xs = Inr ys"
proof (induction xs)
  case Nil
  then show ?case by simp
next
  case (Cons x xs)
  from Cons.prems[of x] obtain y where y: "f x = Inr y" by auto
  from Cons.IH Cons.prems obtain ys where "mapE f xs = Inr ys" by auto
  with y show ?case by simp
qed

lemma firstVisible_loop_defined:
  "0 \<le> idx \<Longrightarrow> idx + int n \<le> int (length (staves sys)) \<Longrightarrow> \<exists>v. firstVisible_loop sys idx n = Inr v"
proof (induction n arbitrary: idx)
  case 0
  then show ?case by simp
next
  case (Suc n)
  then have s: "staff sys idx = Some (staves sys ! nat idx)" by (intro staff_Some) auto
  from Suc.prems have "\<exists>v. firstVisible_loop sys (idx + 1) n = Inr v" by (intro Suc.IH) auto
  with s show ?case by auto
qed

lemma lastShownFrom_defined:
  "i < int (length (staves sys)) \<Longrightarrow> s2 \<noteq> None \<Longrightarrow> \<exists>r. lastShownFrom sys i s2 = Inr (Some r)"
proof (induction sys i s2 rule: lastShownFrom.induct)
  case (1 sys i s2)
  show ?case
  proof (cases "i > 0")
    case False
    with "1.prems" show ?thesis by (subst lastShownFrom.simps) auto
  next
    case True
    with "1.prems" have s: "staff sys i = Some (staves sys ! nat i)" by (intro staff_Some) auto
    show ?thesis
    proof (cases "ss_show (staves sys ! nat i)")
      case T: True
      with True s show ?thesis by (subst lastShownFrom.simps) simp
    next
      case False
      from "1.IH"[OF True s False] "1.prems"
      obtain r where "lastShownFrom sys (i - 1) s2 = Inr (Some r)" by auto
      with True s False show ?thesis by (subst lastShownFrom.simps) simp
    qed
  qed
qed

lemma positionNames_defined:
  assumes "0 \<le> st" and "st \<le> sidx" and "sidx < st + nst" and "st + nst \<le> int (length (staves sys))"
    and "plainNames sys"
  shows "\<exists>sys'. positionNames st nst sidx sys = Inr sys'"
proof -
  from assms have s: "staff sys sidx = Some (staves sys ! nat sidx)" by (intro staff_Some) auto
  from assms have s0: "staff sys st = Some (staves sys ! nat st)" by (intro staff_Some) auto
  from assms have mem: "staves sys ! nat sidx \<in> set (staves sys)" by (intro nth_mem) auto
  have "\<exists>ts. mapE (positionName sys st nst (staves sys ! nat sidx))
               (instrumentNames (staves sys ! nat sidx)) = Inr ts"
  proof (rule mapE_defined)
    fix t assume "t \<in> set (instrumentNames (staves sys ! nat sidx))"
    with assms(5) mem have lp: "layoutPos t \<notin> {2, 3, 4, 5}" by (auto simp: plainNames_def)
    from assms have "st + nst - 1 < int (length (staves sys))" by simp
    from lastShownFrom_defined[OF this, of "staff sys st"] s0
    obtain r where "lastShownFrom sys (st + nst - 1) (staff sys st) = Inr (Some r)" by auto
    with lp show "\<exists>y. positionName sys st nst (staves sys ! nat sidx) t = Inr y"
      by (auto simp: positionName_def nameSpan_def)
  qed
  with s show ?thesis by (auto simp: positionNames_def)
qed

lemma plainNames_positionNames:
  assumes "positionNames st nst sidx sys = Inr sys'" and "plainNames sys"
  shows "plainNames sys'"
proof -
  from positionNames_effect[OF assms(1)] obtain ts where
    e: "staves sys' = (staves sys)[nat sidx := (staves sys ! nat sidx)\<lparr>instrumentNames := ts\<rparr>]"
    and ts: "map (\<lambda>t. t\<lparr>in_ypos := 0\<rparr>) ts
               = map (\<lambda>t. t\<lparr>in_ypos := 0\<rparr>) (instrumentNames (staves sys ! nat sidx))"
    and l: "nat sidx < length (staves sys)"
    by blast
  from ts have "map layoutPos ts = map layoutPos (instrumentNames (staves sys ! nat sidx))"
  proof -
    have "map layoutPos ts = map layoutPos (map (\<lambda>t. t\<lparr>in_ypos := 0\<rparr>) ts)" by (simp add: comp_def)
    also have "\<dots> = map layoutPos (map (\<lambda>t. t\<lparr>in_ypos := 0\<rparr>) (instrumentNames (staves sys ! nat sidx)))"
      by (simp only: ts)
    also have "\<dots> = map layoutPos (instrumentNames (staves sys ! nat sidx))" by (simp add: comp_def)
    finally show ?thesis .
  qed
  then have lps: "layoutPos ` set ts = layoutPos ` set (instrumentNames (staves sys ! nat sidx))"
    by (metis set_map)
  show ?thesis
    unfolding plainNames_def
  proof (intro ballI)
    fix s t assume s: "s \<in> set (staves sys')" and t: "t \<in> set (instrumentNames s)"
    from s have "s = (staves sys ! nat sidx)\<lparr>instrumentNames := ts\<rparr> \<or> s \<in> set (staves sys)"
      unfolding e by (rule in_set_updateD)
    then show "layoutPos t \<notin> {2, 3, 4, 5}"
    proof
      assume "s = (staves sys ! nat sidx)\<lparr>instrumentNames := ts\<rparr>"
      with t have "layoutPos t \<in> layoutPos ` set ts" by simp
      with lps obtain t0 where "t0 \<in> set (instrumentNames (staves sys ! nat sidx))"
        "layoutPos t0 = layoutPos t" by auto
      moreover from l have "staves sys ! nat sidx \<in> set (staves sys)" by simp
      ultimately show ?thesis using assms(2) by (auto simp: plainNames_def)
    next
      assume "s \<in> set (staves sys)"
      with t assms(2) show ?thesis by (auto simp: plainNames_def)
    qed
  qed
qed

lemma moveNames_defined:
  "0 \<le> f \<Longrightarrow> nat f < length (staves sys) \<Longrightarrow> 0 \<le> v \<Longrightarrow> nat v < length (staves sys)
     \<Longrightarrow> \<exists>sys'. moveNames k f v sys = Inr sys'"
  by (simp add: moveNames_def staff_Some Let_def)

lemma plainNames_moveNames:
  assumes "moveNames k f v sys = Inr sys'" and "plainNames sys"
  shows "plainNames sys'"
proof -
  note me = moveNames_effect[OF assms(1)]
  let ?a = "(staves sys ! nat v)\<lparr>instrumentNames := instrumentNames (staves sys ! nat v) @
               map (\<lambda>t. t\<lparr>in_track := v * VOICES k, in_sysStaff := v\<rparr>)
                 (instrumentNames (staves sys ! nat f))\<rparr>"
  let ?b = "(staves sys ! nat f)\<lparr>instrumentNames := []\<rparr>"
  from me(3,5) have mem: "staves sys ! nat v \<in> set (staves sys)" "staves sys ! nat f \<in> set (staves sys)"
    by simp_all
  show ?thesis
    unfolding plainNames_def
  proof (intro ballI)
    fix s t assume s: "s \<in> set (staves sys')" and t: "t \<in> set (instrumentNames s)"
    from s have "s = ?b \<or> s \<in> set ((staves sys)[nat v := ?a])"
      unfolding me(1) by (rule in_set_updateD)
    then have "s = ?a \<or> s = ?b \<or> s \<in> set (staves sys)"
      by (auto dest: in_set_updateD)
    then show "layoutPos t \<notin> {2, 3, 4, 5}"
      using t assms(2) mem by (auto simp: plainNames_def)
  qed
qed

lemma part_defined:
  assumes p: "p < length (parts sc)"
    and cover: "partStart sc (Suc p) \<le> int (length (staves sys))"
    and plain: "plainNames sys"
  shows "\<exists>sys'. layoutInstrumentNames_part k sc p (partStart sc p) sys = Inr sys'
           \<and> plainNames sys' \<and> length (staves sys') = length (staves sys)"
proof -
  let ?st = "partStart sc p"
  let ?n = "nstaves (parts sc ! p)"
  have st0: "0 \<le> ?st" by (rule partStart_nonneg)
  from cover have c: "?st + int ?n \<le> int (length (staves sys))" by (simp add: partStart_Suc[OF p])
  from firstVisible_loop_defined[OF st0 c] obtain v where v: "firstVisible_loop sys ?st ?n = Inr v"
    by blast
  have "\<exists>sys'. layoutInstrumentNames_part k sc p ?st sys = Inr sys' \<and> plainNames sys'"
  proof (cases "0 \<le> v")
    case False
    with v plain show ?thesis
      by (simp add: layoutInstrumentNames_part_def firstVisibleSysStaffOfPart_def
          firstSysStaffOfPart_partStart[OF p])
  next
    case True
    note r = firstVisible_loop_range[OF v True]
    show ?thesis
    proof (cases "v = ?st")
      case T: True
      from positionNames_defined[OF st0 _ _ c plain, of ?st] r T
      obtain sys' where ps: "positionNames ?st (int ?n) ?st sys = Inr sys'" by auto
      from plainNames_positionNames[OF ps plain] ps v True T show ?thesis
        by (simp add: layoutInstrumentNames_part_def firstVisibleSysStaffOfPart_def
            firstSysStaffOfPart_partStart[OF p])
    next
      case False
      from st0 r c have "nat ?st < length (staves sys)" by arith
      from moveNames_defined[OF st0 this True] r obtain s1 where m: "moveNames k ?st v sys = Inr s1"
        by blast
      note p1 = plainNames_moveNames[OF m plain]
      from stripNames_nth(1)[OF stripNames_moveNames[OF m]] c
      have c1: "?st + int ?n \<le> int (length (staves s1))" by simp
      from positionNames_defined[OF st0 _ _ c1 p1, of v] r
      obtain sys' where ps: "positionNames ?st (int ?n) v s1 = Inr sys'" by auto
      from plainNames_positionNames[OF ps p1] ps m v True False show ?thesis
        by (simp add: layoutInstrumentNames_part_def firstVisibleSysStaffOfPart_def
            firstSysStaffOfPart_partStart[OF p])
    qed
  qed
  then obtain sys' where e: "layoutInstrumentNames_part k sc p ?st sys = Inr sys'" "plainNames sys'"
    by blast
  from stripNames_nth(1)[OF stripNames_part[OF e(1)]] e show ?thesis by blast
qed

lemma loop_defined:
  assumes "p + n \<le> length (parts sc)"
    and "partStart sc (p + n) \<le> int (length (staves sys))"
    and "plainNames sys"
  shows "\<exists>sys'. layoutInstrumentNames_loop k sc n p (partStart sc p) sys = Inr sys'"
  using assms
proof (induction n arbitrary: p sys)
  case 0
  then show ?case by simp
next
  case (Suc n)
  then have p: "p < length (parts sc)" by simp
  have "partStart sc (Suc p) \<le> partStart sc (p + Suc n)" by (rule partStart_mono) simp
  with Suc.prems have c: "partStart sc (Suc p) \<le> int (length (staves sys))" by simp
  from part_defined[OF p c Suc.prems(3), of k] obtain s1 where
    s1: "layoutInstrumentNames_part k sc p (partStart sc p) sys = Inr s1"
    and pl: "plainNames s1" and l: "length (staves s1) = length (staves sys)"
    by blast
  from Suc.prems l have "\<exists>sys'. layoutInstrumentNames_loop k sc n (Suc p) (partStart sc (Suc p)) s1 = Inr sys'"
    by (intro Suc.IH pl) simp_all
  with s1 show ?case by (simp add: partStart_Suc[OF p])
qed

lemma layoutInstrumentNames_defined:
  assumes "partStart sc (length (parts sc)) \<le> int (length (staves sys))" and "plainNames sys"
  shows "\<exists>sys'. layoutInstrumentNames k sc sys = Inr sys'"
proof -
  have "partStart sc 0 = 0" by (simp add: partStart_def)
  with loop_defined[of 0 "length (parts sc)" sc sys k] assms show ?thesis
    by (simp add: layoutInstrumentNames_def)
qed

lemma skipHiddenDown_defined:
  "0 \<le> i1 \<Longrightarrow> i2 < int (length (staves sys)) \<Longrightarrow>
     \<exists>r. skipHiddenDown sys i1 i2 = Inr r \<and> i1 \<le> r"
proof (induction sys i1 i2 rule: skipHiddenDown.induct)
  case (1 sys staffIdx1 staffIdx2)
  show ?case
  proof (cases "staffIdx1 \<le> staffIdx2")
    case False
    then show ?thesis by (subst skipHiddenDown.simps) simp
  next
    case True
    with "1.prems" have st: "staves_at sys staffIdx1 = Inr (staves sys ! nat staffIdx1)"
      by (simp add: staves_at_def)
    show ?thesis
    proof (cases "ss_show (staves sys ! nat staffIdx1)")
      case T: True
      with True st show ?thesis by (subst skipHiddenDown.simps) simp
    next
      case False
      from "1.IH"[OF True st False] "1.prems"
      obtain r where "skipHiddenDown sys (staffIdx1 + 1) staffIdx2 = Inr r" "staffIdx1 + 1 \<le> r"
        by auto
      with True st False show ?thesis by (subst skipHiddenDown.simps) simp
    qed
  qed
qed

lemma skipHiddenUp_defined:
  "0 \<le> i1 \<Longrightarrow> i2 < int (length (staves sys)) \<Longrightarrow>
     \<exists>r. skipHiddenUp sys i1 i2 = Inr r \<and> r \<le> i2"
proof (induction sys i1 i2 rule: skipHiddenUp.induct)
  case (1 sys staffIdx1 staffIdx2)
  show ?case
  proof (cases "staffIdx1 \<le> staffIdx2")
    case False
    then show ?thesis by (subst skipHiddenUp.simps) simp
  next
    case True
    with "1.prems" have st: "staves_at sys staffIdx2 = Inr (staves sys ! nat staffIdx2)"
      by (simp add: staves_at_def)
    show ?thesis
    proof (cases "ss_show (staves sys ! nat staffIdx2)")
      case T: True
      with True st show ?thesis by (subst skipHiddenUp.simps) simp
    next
      case False
      from "1.IH"[OF True st False] "1.prems"
      obtain r where "skipHiddenUp sys staffIdx1 (staffIdx2 - 1) = Inr r" "r \<le> staffIdx2 - 1"
        by auto
      with True st False show ?thesis by (subst skipHiddenUp.simps) simp
    qed
  qed
qed

lemma layoutBracketsVertical_defined:
  assumes "bracketsInRange sys"
  shows "\<exists>sys'. layoutBracketsVertical ext sc sys = Inr sys'"
proof -
  have "\<exists>bs. mapE (layoutBracketsVertical1 ext sc sys) (brackets sys) = Inr bs"
  proof (rule mapE_defined)
    fix b assume "b \<in> set (brackets sys)"
    with assms have b: "0 \<le> br_firstStaff b" "br_lastStaff b < int (length (staves sys))"
      by (auto simp: bracketsInRange_def)
    from skipHiddenDown_defined[OF b] obtain i1 where
      i1: "skipHiddenDown sys (br_firstStaff b) (br_lastStaff b) = Inr i1" "br_firstStaff b \<le> i1"
      by blast
    with b have "0 \<le> i1" by simp
    from skipHiddenUp_defined[OF this b(2)] obtain i2 where
      i2: "skipHiddenUp sys i1 (br_lastStaff b) = Inr i2" "i2 \<le> br_lastStaff b"
      by blast
    have "staves_at sys i1 = Inr (staves sys ! nat i1) \<and> staves_at sys i2 = Inr (staves sys ! nat i2)"
      if "i1 \<le> i2"
      using that b i1(2) i2(2) by (simp add: staves_at_def)
    then show "\<exists>y. layoutBracketsVertical1 ext sc sys b = Inr y"
      by (auto simp: layoutBracketsVertical1_def i1(1) i2(1) Let_def
          simp del: skipHiddenDown.simps skipHiddenUp.simps)
  qed
  then show ?thesis by (auto simp: layoutBracketsVertical_def)
qed

lemma stackStaves_instrumentNames:
  "i < length sts \<Longrightarrow>
     instrumentNames (stackStaves k ext sc sys vis y sts ! i) = instrumentNames (sts ! i)"
proof (induction k ext sc sys vis y sts rule: stackStaves.induct)
  case (1 k ext sc sys y sts)
  then show ?case by simp
next
  case (2 k ext sc sys si1 y sts)
  then show ?case by (cases "i = si1") (simp_all add: placeStaff_fields)
next
  case (3 k ext sc sys si1 si2 rest y sts)
  let ?r = "staffDist ext sc sys sts si1 si2"
  let ?sts1 = "sts[si1 := placeStaff k sc sys (sc_staves sc ! si1) y (snd ?r)]"
  have "instrumentNames (snd ?r) = instrumentNames (sts ! si1)" by (simp add: staffDist_eq)
  with 3 have step: "instrumentNames (?sts1 ! i) = instrumentNames (sts ! i)"
    by (cases "i = si1") (simp_all add: placeStaff_fields)
  from "3.IH"[OF refl refl refl] "3.prems"
  have "instrumentNames (stackStaves k ext sc sys (si2 # rest) (y + fst ?r) ?sts1 ! i)
          = instrumentNames (?sts1 ! i)"
    by simp
  with step show ?case by (simp add: Let_def)
qed

lemma plainNames_cong:
  fixes a b :: "'a System"
  assumes "map instrumentNames (staves a) = map instrumentNames (staves b)"
  shows "plainNames a = plainNames b"
proof -
  have e: "plainNames s
          = list_all (\<lambda>ns. \<forall>t \<in> set ns. layoutPos t \<notin> {2, 3, 4, 5}) (map instrumentNames (staves s))"
    for s :: "'a System"
    by (simp add: plainNames_def list_all_iff)
  show ?thesis unfolding e[of a] e[of b] assms by (rule refl)
qed

text \<open>
  \<open>layout2\<close> completes on a system that is no frame-box system and has at least one
  measure, a layout record for every staff of every part and no more records than the score
  has staves, brackets within the system, and names anchored at the part or the first staff.
\<close>

lemma layout2_defined:
  assumes nv: "vbox sys = None"
    and len: "length (staves sys) \<le> length (sc_staves sc)"
    and ne: "ml sys \<noteq> []"
    and br: "bracketsInRange sys"
    and cover: "partStart sc (length (parts sc)) \<le> int (length (staves sys))"
    and plain: "plainNames sys"
  shows "\<exists>sys' logs. layout2 k ext sc sys = Inr (sys', logs)"
proof -
  from len have "0 + length (staves sys) \<le> length (sc_staves sc)" by simp
  from visibleStaves_defined[OF this] obtain vis sts where
    v: "visibleStaves sc 0 (staves sys) = Inr (vis, sts)" by (cases) auto
  note vi = visibleStaves_visibleIndices[OF v]
  show ?thesis
  proof (cases "vis = []")
    case True
    with nv v show ?thesis by (simp add: layout2_def Let_def)
  next
    case False
    let ?sys1 = "sys\<lparr>sys_pos := (0, 0), staves := sts\<rparr>"
    let ?stk = "stackStaves k ext sc ?sys1 vis 0 sts"
    let ?sys2 = "?sys1\<lparr>staves := ?stk\<rparr>"
    have lstk: "length ?stk = length (staves sys)" by (simp add: stackStaves_length vi)
    from False have "last vis \<in> set vis" by simp
    with vi(1) have "last vis < length (staves sys)" by (simp add: visibleIndices_props)
    with lstk have lst: "staff ?sys2 (int (last vis)) = Some (?stk ! last vis)"
      by (simp add: staff_def)
    let ?h = "rect_bottom (bbox (?stk ! last vis))"
    let ?sys3 = "?sys2\<lparr>systemHeight := ?h, sys_bbox := setHeight ?h (sys_bbox ?sys2)\<rparr>"
    let ?r = "setMeasureHeight ext sc ?h ?sys3"
    have f: "staves (fst ?r) = ?stk" "brackets (fst ?r) = brackets sys"
      "ml (fst ?r) = map (\<lambda>m. fst (setMeasureHeight1 ext (spatium sc) ?h m)) (ml sys)"
      by (simp_all add: setMeasureHeight_def Let_def comp_def)
    from br have "bracketsInRange (fst ?r)" unfolding bracketsInRange_def f lstk by simp
    from layoutBracketsVertical_defined[OF this] obtain sys5 where
      b: "layoutBracketsVertical ext sc (fst ?r) = Inr sys5" by blast
    from layoutBracketsVertical_frame[OF b] obtain bs where s5: "sys5 = (fst ?r)\<lparr>brackets := bs\<rparr>"
      by blast
    have st5: "staves sys5 = ?stk"
      "ml sys5 = map (\<lambda>m. fst (setMeasureHeight1 ext (spatium sc) ?h m)) (ml sys)"
      by (simp_all add: s5 setMeasureHeight_def Let_def comp_def)
    have l5: "length (staves sys5) = length (staves sys)" by (simp only: st5 lstk)
    have names: "map instrumentNames (staves sys5) = map instrumentNames (staves sys)"
    proof (rule nth_equalityI)
      show "length (map instrumentNames (staves sys5)) = length (map instrumentNames (staves sys))"
        by (simp add: l5)
      fix i assume "i < length (map instrumentNames (staves sys5))"
      then have i: "i < length (staves sys)" by (simp add: l5)
      with vi(2) have "instrumentNames (?stk ! i) = instrumentNames (sts ! i)"
        by (intro stackStaves_instrumentNames) simp
      also from i have "\<dots> = instrumentNames (staves sys ! i)" by (simp add: vi(4))
      finally have "instrumentNames (staves sys5 ! i) = instrumentNames (staves sys ! i)"
        by (simp only: st5)
      with i l5 show "map instrumentNames (staves sys5) ! i = map instrumentNames (staves sys) ! i"
        by simp
    qed
    from plainNames_cong[OF names] plain have p5: "plainNames sys5" by simp
    from cover have "partStart sc (length (parts sc)) \<le> int (length (staves sys5))"
      by (simp add: l5)
    from layoutInstrumentNames_defined[OF this p5] obtain sys6 where
      n: "layoutInstrumentNames k sc sys5 = Inr sys6" by blast
    from stripNames_nth(3)[OF stripNames_layoutInstrumentNames[OF n]] ne
    have "ml sys6 \<noteq> []" by (simp add: st5)
    with nv v False lst b n show ?thesis
      by (simp add: layout2_def Let_def)
  qed
qed

text \<open>The system of the first example meets these conditions.\<close>

lemma layout2_defined_example:
  "vbox c1_system = None \<and> length (staves c1_system) \<le> length (sc_staves c1_score)
     \<and> ml c1_system \<noteq> [] \<and> bracketsInRange c1_system
     \<and> partStart c1_score (length (parts c1_score)) \<le> int (length (staves c1_system))
     \<and> plainNames c1_system
     \<and> (\<exists>sys' logs. layout2 ex_consts ex_ext c1_score c1_system = Inr (sys', logs))"
proof -
  have h: "vbox c1_system = None" "length (staves c1_system) \<le> length (sc_staves c1_score)"
    "ml c1_system \<noteq> []" "bracketsInRange c1_system"
    "partStart c1_score (length (parts c1_score)) \<le> int (length (staves c1_system))"
    "plainNames c1_system"
    by (simp_all add: vbox_def bracketsInRange_def plainNames_def partStart_def
        c1_score_def c1_system_def ex_defs)
  from layout2_defined[OF h] h show ?thesis by blast
qed

subsection \<open>The claims\<close>

lemma c1_eval: "\<exists>sys' logs. layout2 ex_consts ex_ext c1_score c1_system = Inr (sys', logs)"
  by (simp add: c1_score_def c1_system_def ex_defs eval_defs)

text \<open>
  C1. In \<open>layout2\<close>, let \<open>a\<close> and \<open>b\<close> be consecutive visible staves and let the scan of
  the measures meet a FIXED down-spacer of gap \<open>G\<close> on staff \<open>a\<close>. Then the first line of \<open>b\<close>
  lies exactly the height of \<open>a\<close> plus \<open>G\<close> below the first line of \<open>a\<close>: the gap below staff
  \<open>a\<close> is exactly \<open>G\<close>, whatever the measures after that spacer carry and whatever the skyline
  distance is (it is not computed: the remembered continuous distance of \<open>a\<close> is untouched).
  For staves of more than one line the boxes of \<open>a\<close> and \<open>b\<close> are exactly \<open>G\<close> apart.
\<close>

theorem layout2_fixed_spacer_exact_gap:
  assumes run: "layout2 k ext sc sys = Inr (sys', logs)" and nv: "vbox sys = None"
    and adj: "visibleIndices sc sys = pre @ a # b # post"
    and fx: "firstFixedDown before (int a) (ml sys) sp"
  shows "staffLineY (staves sys' ! b)
           = staffLineY (staves sys' ! a) + st_height (sc_staves sc ! a) + gap sp
       \<and> continuousDist (staves sys' ! a) = continuousDist (staves sys ! a)
       \<and> (st_lines (sc_staves sc ! a) \<noteq> 1 \<and> st_lines (sc_staves sc ! b) \<noteq> 1 \<longrightarrow>
            rect_top (bbox (staves sys' ! b)) - rect_bottom (bbox (staves sys' ! a)) = gap sp)"
proof -
  from layout2_adjacent[OF run nv adj] obtain ya x where
    A: "(staves sys' ! a)\<lparr>instrumentNames := []\<rparr> =
       (placeStaff k sc sys (sc_staves sc ! a) ya (snd (staffDist ext sc sys (staves sys) a b)))
         \<lparr>instrumentNames := []\<rparr>"
    and B: "(staves sys' ! b)\<lparr>instrumentNames := []\<rparr> =
       (placeStaff k sc sys (sc_staves sc ! b) (ya + fst (staffDist ext sc sys (staves sys) a b)) x)
         \<lparr>instrumentNames := []\<rparr>"
    by blast
  note sd = staffDist_fixed[OF fx, of ext sc "staves sys" b]
  note fa = strip_fields[OF A] and fb = strip_fields[OF B]
  have ya: "staffLineY (staves sys' ! a) = ya"
    and yb: "staffLineY (staves sys' ! b) = ya + (st_height (sc_staves sc ! a) + gap sp)"
    by (simp_all add: fa(8) fb(8) staffLineY_placeStaff sd)
  have cd: "continuousDist (staves sys' ! a) = continuousDist (staves sys ! a)"
    by (simp add: fa(5) placeStaff_fields sd)
  have gp: "rect_top (bbox (staves sys' ! b)) - rect_bottom (bbox (staves sys' ! a)) = gap sp"
    if "st_lines (sc_staves sc ! a) \<noteq> 1" "st_lines (sc_staves sc ! b) \<noteq> 1"
    using that
    by (simp add: fa(1) fb(1) placeStaff_fields sd rect_top_def rect_bottom_def setRect_def
        staffYOffset_def staffBoxHeight_def)
  from ya yb cd gp show ?thesis by simp
qed

theorem layout2_fixed_spacer_exact_gap_witness:
  "\<exists>sys' logs. layout2 ex_consts ex_ext c1_score c1_system = Inr (sys', logs)
     \<and> minDistance ex_ext (skyline (staves c1_system ! 0)) (skyline (staves c1_system ! 1)) = 30
     \<and> staffLineY (staves sys' ! 1) = staffLineY (staves sys' ! 0) + 4 + 3
     \<and> rect_top (bbox (staves sys' ! 1)) - rect_bottom (bbox (staves sys' ! 0)) = 3"
proof -
  obtain sys' logs where run: "layout2 ex_consts ex_ext c1_score c1_system = Inr (sys', logs)"
    using c1_eval by blast
  have nv: "vbox c1_system = None"
    by (simp add: vbox_def c1_system_def ex_defs)
  have adj: "visibleIndices c1_score c1_system = [] @ 0 # 1 # []"
    by (simp add: visibleIndices_def isVisible_def c1_score_def c1_system_def ex_defs upt_rec)
  have fx: "firstFixedDown [hd (ml c1_system)] (int 0) (ml c1_system) \<lparr>spacerType = FIXED, gap = 3\<rparr>"
    by (simp add: firstFixedDown_def c1_system_def ex_defs)
  from layout2_fixed_spacer_exact_gap[OF run nv adj fx] run show ?thesis
    by (simp add: c1_score_def c1_system_def ex_defs)
qed

text \<open>
  C2 (as amended). After \<open>layout2\<close>, for consecutive visible staves \<open>a\<close> and \<open>b\<close> with no
  FIXED down-spacer on \<open>a\<close> in any measure, the distance from the first line of \<open>a\<close> to the
  first line of \<open>b\<close> is at least: the height of \<open>a\<close> plus the base distance (akkolade distance
  times the magnification inside a part, staff distance between parts, \<open>minStaffSpread\<close> under
  vertical spread) plus the extra distance of \<open>b\<close>; the skyline distance plus the minimum
  vertical distance; and the height of \<open>a\<close> plus the gap of every down-spacer on \<open>a\<close> and of
  every up-spacer on \<open>b\<close>. The minimum vertical distance is added to the skyline distance
  and is no lower bound of the gap on its own.
\<close>

theorem layout2_distance_lower_bounds:
  assumes run: "layout2 k ext sc sys = Inr (sys', logs)" and nv: "vbox sys = None"
    and adj: "visibleIndices sc sys = pre @ a # b # post"
    and nf: "noFixedDown (int a) (ml sys)"
  shows "st_height (sc_staves sc ! a)
           + (if st_part (sc_staves sc ! a) = st_part (sc_staves sc ! b)
              then effAkkoladeDistance sc *
                     (case firstMeasure sys of
                        Some m \<Rightarrow> staffMag (sc_staves sc ! a) (mb_tick m)
                      | None \<Rightarrow> 1)
              else effStaffDistance sc)
           + userDist (sc_staves sc ! b)
           \<le> staffLineY (staves sys' ! b) - staffLineY (staves sys' ! a)
       \<and> minDistance ext (skyline (staves sys ! a)) (skyline (staves sys ! b)) + minVerticalDistance sc
           \<le> staffLineY (staves sys' ! b) - staffLineY (staves sys' ! a)
       \<and> (\<forall>m \<in> set (ml sys). mb_kind m = MEASURE \<longrightarrow>
            (\<forall>s. vspacerDown m (int a) = Some s \<longrightarrow>
               st_height (sc_staves sc ! a) + gap s
                 \<le> staffLineY (staves sys' ! b) - staffLineY (staves sys' ! a))
          \<and> (\<forall>s. vspacerUp m (int b) = Some s \<longrightarrow>
               gap s + st_height (sc_staves sc ! a)
                 \<le> staffLineY (staves sys' ! b) - staffLineY (staves sys' ! a)))"
  unfolding layout2_adjacent_distance(1)[OF run nv adj]
  using staffDist_noFixed(1-4)[OF nf, where sc = sc and b = b and ext = ext and sts = "staves sys"]
  by blast

theorem layout2_distance_lower_bounds_witness:
  "\<exists>sys' logs. layout2 ex_consts ex_ext c1_score c2w_system = Inr (sys', logs)
     \<and> 4 + 6.5 + 0 \<le> staffLineY (staves sys' ! 1) - staffLineY (staves sys' ! 0)
     \<and> 6 + 0.5 \<le> staffLineY (staves sys' ! 1) - staffLineY (staves sys' ! 0)
     \<and> 4 + 9 \<le> staffLineY (staves sys' ! 1) - staffLineY (staves sys' ! 0)
     \<and> 8 + 4 \<le> staffLineY (staves sys' ! 1) - staffLineY (staves sys' ! 0)"
proof -
  have "\<exists>sys' logs. layout2 ex_consts ex_ext c1_score c2w_system = Inr (sys', logs)"
    by (simp add: c1_score_def c2_defs ex_defs eval_defs)
  then obtain sys' logs where run: "layout2 ex_consts ex_ext c1_score c2w_system = Inr (sys', logs)"
    by blast
  have nv: "vbox c2w_system = None" by (simp add: vbox_def c2_defs ex_defs)
  have adj: "visibleIndices c1_score c2w_system = [] @ 0 # 1 # []"
    by (simp add: visibleIndices_def isVisible_def c1_score_def c2_defs ex_defs upt_rec)
  have nf: "noFixedDown (int 0) (ml c2w_system)"
    by (simp add: noFixedDown_def c2_defs ex_defs)
  let ?m = "hd (ml c2w_system)"
  have m: "?m \<in> set (ml c2w_system)" "mb_kind ?m = MEASURE"
    "vspacerDown ?m (int 0) = Some \<lparr>spacerType = DOWN, gap = 9\<rparr>"
    "vspacerUp ?m (int 1) = Some \<lparr>spacerType = UP, gap = 8\<rparr>"
    by (simp_all add: c2_defs ex_defs)
  note t = layout2_distance_lower_bounds[OF run nv adj nf]
  from t have b1: "4 + 6.5 + 0 \<le> staffLineY (staves sys' ! 1) - staffLineY (staves sys' ! 0)"
    by (simp add: c1_score_def c2_defs ex_defs effStaffDistance_def)
  from t have b2: "6 + 0.5 \<le> staffLineY (staves sys' ! 1) - staffLineY (staves sys' ! 0)"
    by (simp add: c1_score_def c2_defs ex_defs)
  from t m have "st_height (sc_staves c1_score ! 0) + gap \<lparr>spacerType = DOWN, gap = 9\<rparr>
                 \<le> staffLineY (staves sys' ! 1) - staffLineY (staves sys' ! 0)"
    by blast
  then have b3: "4 + 9 \<le> staffLineY (staves sys' ! 1) - staffLineY (staves sys' ! 0)"
    by (simp add: c1_score_def ex_defs)
  from t m have "gap \<lparr>spacerType = UP, gap = 8\<rparr> + st_height (sc_staves c1_score ! 0)
                 \<le> staffLineY (staves sys' ! 1) - staffLineY (staves sys' ! 0)"
    by blast
  then have b4: "8 + 4 \<le> staffLineY (staves sys' ! 1) - staffLineY (staves sys' ! 0)"
    by (simp add: c1_score_def ex_defs)
  from run b1 b2 b3 b4 show ?thesis by blast
qed

text \<open>
  C2 as stated fails: with a staff distance of 0.5, a minimum vertical distance of 2
  and skylines that do not constrain the staves (the sentinel of an empty profile), two
  staves of height 1 are placed 1.5 apart, so their boxes are 0.5 apart.
\<close>

theorem layout2_gap_below_minVerticalDistance_counterexample:
  "layout2 ex_consts c2_ext c2_score c2_system = Inr (c2_result, [])
   \<and> vbox c2_system = None
   \<and> visibleIndices c2_score c2_system = [0, 1]
   \<and> length (ml c2_system) = 1 \<and> vspacerDown (ml c2_system ! 0) 0 = None
   \<and> minVerticalDistance c2_score = 2
   \<and> staffLineY (staves c2_result ! 1) - staffLineY (staves c2_result ! 0) = 1.5
   \<and> rect_top (bbox (staves c2_result ! 1)) - rect_bottom (bbox (staves c2_result ! 0)) = 0.5
   \<and> \<not> minVerticalDistance c2_score
         \<le> staffLineY (staves c2_result ! 1) - staffLineY (staves c2_result ! 0)"
proof -
  have 1: "layout2 ex_consts c2_ext c2_score c2_system = Inr (c2_result, [])"
    by (simp add: c2_defs ex_defs eval_defs)
  have 2: "vbox c2_system = None" by (simp add: vbox_def c2_defs ex_defs)
  have 3: "visibleIndices c2_score c2_system = [0, 1]"
    by (simp add: visibleIndices_def isVisible_def c2_defs ex_defs upt_rec)
  have 4: "length (ml c2_system) = 1 \<and> vspacerDown (ml c2_system ! 0) 0 = None"
    by (simp add: c2_defs ex_defs)
  have 5: "minVerticalDistance c2_score = 2" by (simp add: c2_defs ex_defs)
  have 6: "staffLineY (staves c2_result ! 1) - staffLineY (staves c2_result ! 0) = 1.5"
    by (simp add: staffLineY_def c2_defs ex_defs)
  have 7: "rect_top (bbox (staves c2_result ! 1)) - rect_bottom (bbox (staves c2_result ! 0)) = 0.5"
    by (simp add: rect_top_def rect_bottom_def c2_defs ex_defs)
  from 5 6 have 8: "\<not> minVerticalDistance c2_score
         \<le> staffLineY (staves c2_result ! 1) - staffLineY (staves c2_result ! 0)" by simp
  from 1 2 3 4 5 6 7 8 show ?thesis by blast
qed

text \<open>
  C3. In continuous view (\<open>lineMode\<close>), take a pass of \<open>layout2\<close> and a second pass on a system
  with the same measures, the same visibility and the continuous distances the first pass
  left, whatever the skylines are now. No remembered continuous distance decreases, in
  either pass; the distance between two consecutive visible staves does not shrink from the
  first pass to the second; and where no FIXED spacer applies, the first pass leaves the
  larger of the remembered distance and the skyline distance in the record of the upper
  staff (it stores the skyline distance only when that exceeds the remembered one) and uses
  that larger value, plus the minimum vertical distance, for the distance of the staves.
\<close>

theorem layout2_continuous_distance_monotone:
  assumes p1: "layout2 k ext1 sc sysA = Inr (sys1, logs1)"
    and p2: "layout2 k ext2 sc sysB = Inr (sys2, logs2)"
    and nv: "vbox sysA = None"
    and lm: "lineMode sc"
    and same_ml: "ml sysB = ml sys1"
    and same_len: "length (staves sysB) = length (staves sys1)"
    and same_st: "\<forall>i < length (staves sys1).
                    ss_show (staves sysB ! i) = ss_show (staves sys1 ! i)
                    \<and> continuousDist (staves sysB ! i) = continuousDist (staves sys1 ! i)"
    and adj: "visibleIndices sc sysA = pre @ a # b # post"
  shows "(\<forall>i < length (staves sysA).
            continuousDist (staves sysA ! i) \<le> continuousDist (staves sys1 ! i)
            \<and> continuousDist (staves sys1 ! i) \<le> continuousDist (staves sys2 ! i))
       \<and> staffLineY (staves sys1 ! b) - staffLineY (staves sys1 ! a)
           \<le> staffLineY (staves sys2 ! b) - staffLineY (staves sys2 ! a)
       \<and> (noFixedDown (int a) (ml sysA) \<longrightarrow>
            continuousDist (staves sys1 ! a)
              = max (continuousDist (staves sysA ! a))
                    (minDistance ext1 (skyline (staves sysA ! a)) (skyline (staves sysA ! b)))
            \<and> staffLineY (staves sys1 ! b) - staffLineY (staves sys1 ! a)
              = max (fst (boundaryScan sc sysA a b))
                    (max (continuousDist (staves sysA ! a))
                         (minDistance ext1 (skyline (staves sysA ! a)) (skyline (staves sysA ! b)))
                     + minVerticalDistance sc))"
proof (intro conjI allI impI)
  note r1 = layout2_records[OF p1] and r2 = layout2_records[OF p2]
  fix i assume i: "i < length (staves sysA)"
  show "continuousDist (staves sysA ! i) \<le> continuousDist (staves sys1 ! i)"
    by (rule r1(3)[OF i])
  from i r1(1) same_len have iB: "i < length (staves sysB)" by simp
  from i r1(1) same_st have "continuousDist (staves sysB ! i) = continuousDist (staves sys1 ! i)"
    by simp
  with r2(3)[OF iB] show "continuousDist (staves sys1 ! i) \<le> continuousDist (staves sys2 ! i)"
    by simp
next
  from adj have ne: "visibleIndices sc sysA \<noteq> []" by simp
  note r1 = layout2_records[OF p1]
  from layout2_decompose[OF p1 nv ne] have
    ml1: "ml sys1 = map (\<lambda>m. fst (setMeasureHeight1 ext1 (spatium sc) (systemHeight sys1) m)) (ml sysA)"
    by blast
  note bs = boundaryScan_after_setMeasureHeight[OF ml1[folded same_ml]]
  from bs(2) nv have nvB: "vbox sysB = None" by simp
  have visB: "visibleIndices sc sysB = visibleIndices sc sysA"
    unfolding visibleIndices_def using same_len r1(1) same_st r1(2)
    by (intro filter_cong) (auto simp: isVisible_def)
  from adj have mem: "a \<in> set (visibleIndices sc sysA)" by simp
  then have a: "a < length (staves sysA)" by (simp add: visibleIndices_props)
  note d1 = layout2_adjacent_distance[OF p1 nv adj]
  note d2 = layout2_adjacent_distance[OF p2 nvB adj[folded visB]]
  from a r1(1) same_st d1(2)
  have c1: "continuousDist (staves sysB ! a)
              = continuousDist (snd (staffDist ext1 sc sysA (staves sysA) a b))"
    by simp
  show "staffLineY (staves sys1 ! b) - staffLineY (staves sys1 ! a)
           \<le> staffLineY (staves sys2 ! b) - staffLineY (staves sys2 ! a)"
    unfolding d1(1) d2(1) using c1 lm
    by (auto simp: staffDist_eq bs(1) max_def split: if_splits)
  assume nf: "noFixedDown (int a) (ml sysA)"
  from staffDist_noFixed(5)[OF nf] lm
  show "continuousDist (staves sys1 ! a)
              = max (continuousDist (staves sysA ! a))
                    (minDistance ext1 (skyline (staves sysA ! a)) (skyline (staves sysA ! b)))"
    unfolding d1(2) by (auto simp: staffDist_eq max_def)
  from staffDist_noFixed(5)[OF nf] lm
  show "staffLineY (staves sys1 ! b) - staffLineY (staves sys1 ! a)
              = max (fst (boundaryScan sc sysA a b))
                    (max (continuousDist (staves sysA ! a))
                         (minDistance ext1 (skyline (staves sysA ! a)) (skyline (staves sysA ! b)))
                     + minVerticalDistance sc)"
    unfolding d1(1) by (auto simp: staffDist_eq max_def)
qed

theorem layout2_continuous_distance_monotone_witness:
  "layout2 ex_consts ex_ext c3_score c3_sysA = Inr (c3_sys1, [])
   \<and> (\<exists>sys2 logs2. layout2 ex_consts ex_ext c3_score c3_sysB = Inr (sys2, logs2)
         \<and> continuousDist (staves c3_sysA ! 0) = - 1
         \<and> continuousDist (staves c3_sys1 ! 0) = 12
         \<and> 12 \<le> continuousDist (staves sys2 ! 0)
         \<and> staffLineY (staves c3_sys1 ! 1) - staffLineY (staves c3_sys1 ! 0)
              \<le> staffLineY (staves sys2 ! 1) - staffLineY (staves sys2 ! 0))"
proof -
  have p1: "layout2 ex_consts ex_ext c3_score c3_sysA = Inr (c3_sys1, [])"
    by (simp add: c3_defs ex_defs eval_defs)
  have "\<exists>sys2 logs2. layout2 ex_consts ex_ext c3_score c3_sysB = Inr (sys2, logs2)"
    by (simp add: c3_defs ex_defs eval_defs)
  then obtain sys2 logs2 where p2: "layout2 ex_consts ex_ext c3_score c3_sysB = Inr (sys2, logs2)"
    by blast
  have nv: "vbox c3_sysA = None" by (simp add: vbox_def c3_defs ex_defs)
  have lm: "lineMode c3_score" by (simp add: c3_defs ex_defs)
  have same_ml: "ml c3_sysB = ml c3_sys1" by (simp add: c3_defs)
  have same_len: "length (staves c3_sysB) = length (staves c3_sys1)" by (simp add: c3_defs)
  have same_st: "\<forall>i < length (staves c3_sys1).
                    ss_show (staves c3_sysB ! i) = ss_show (staves c3_sys1 ! i)
                    \<and> continuousDist (staves c3_sysB ! i) = continuousDist (staves c3_sys1 ! i)"
    by (simp add: c3_defs ex_defs less_Suc_eq)
  have adj: "visibleIndices c3_score c3_sysA = [] @ 0 # 1 # []"
    by (simp add: visibleIndices_def isVisible_def c3_defs ex_defs upt_rec)
  note t = layout2_continuous_distance_monotone[OF p1 p2 nv lm same_ml same_len same_st adj]
  have l: "0 < length (staves c3_sysA)" by (simp add: c3_defs ex_defs)
  have c0: "continuousDist (staves c3_sysA ! 0) = - 1" by (simp add: c3_defs ex_defs)
  have c1: "continuousDist (staves c3_sys1 ! 0) = 12" by (simp add: c3_defs ex_defs)
  from t l have "continuousDist (staves c3_sys1 ! 0) \<le> continuousDist (staves sys2 ! 0)"
    by blast
  with c1 have c2: "12 \<le> continuousDist (staves sys2 ! 0)" by simp
  from t have d: "staffLineY (staves c3_sys1 ! 1) - staffLineY (staves c3_sys1 ! 0)
              \<le> staffLineY (staves sys2 ! 1) - staffLineY (staves sys2 ! 0)"
    by simp
  from p1 p2 c0 c1 c2 d show ?thesis by blast
qed

text \<open>
  C4. The claim does not hold of the code for a declared span so large that the end of the
  range, \<open>staffIdx + bracketSpan() - 1\<close>, does not fit the type \<open>int\<close>. \<open>createBracket\<close>
  clamps the end of the range to the system only after it has computed it, and the sum wraps
  around before the clamp sees it. Below, the system has three staves (shown, hidden, shown)
  and the bracket item of staff 2 declares the span 2147483647; the policy
  \<open>alwaysShowBracketsWhenEmptyStavesAreHidden\<close> is off. Clamped to the system the range is
  staff 2 alone, so the visible span is 1, which is neither 2 or more nor the declared span:
  by the claim no bracket is created. In the code the end of the range wraps to -2147483648,
  the clamp and both loops are passed over, the span wraps to 2147483647, and a bracket is
  created, spanning from staff 2 to staff -2147483648. (Where the end of the range fits
  the type the claim holds: \<open>createBracket_iff_visible_span_without_overflow\<close>.)
\<close>

theorem createBracket_overflowing_span_creates_bracket:
  "visibleSpan c4_system3 2 2147483647 = 1
   \<and> bi_bracketSpan (c4_item 2147483647) = 2147483647
   \<and> \<not> alwaysShowBracketsWhenEmptyStavesAreHidden c4_score
   \<and> createBracket ex_consts ex_ext c4_score c4_system3 (c4_item 2147483647) 0 2 [] None
       = Inr (Some c4_wrapped, [], c4_system3\<lparr>brackets := [c4_wrapped]\<rparr>)
   \<and> br_firstStaff c4_wrapped = 2 \<and> br_lastStaff c4_wrapped = - 2147483648"
proof -
  have 1: "visibleSpan c4_system3 2 2147483647 = 1"
    by (simp add: visibleSpan_def c4_defs ex_defs upto_rec1)
  have 2: "bi_bracketSpan (c4_item 2147483647) = 2147483647"
    "\<not> alwaysShowBracketsWhenEmptyStavesAreHidden c4_score"
    by (simp_all add: c4_defs ex_defs)
  have 3: "createBracket ex_consts ex_ext c4_score c4_system3 (c4_item 2147483647) 0 2 [] None
       = Inr (Some c4_wrapped, [], c4_system3\<lparr>brackets := [c4_wrapped]\<rparr>)"
    by (simp add: createBracket_def wrap_int_def c4_defs c4_wrapped_def ex_defs setStaffSpan_def
        Let_def)
  have 4: "br_firstStaff c4_wrapped = 2" "br_lastStaff c4_wrapped = - 2147483648"
    by (simp_all add: c4_wrapped_def ex_defs)
  from 1 2 3 4 show ?thesis by blast
qed

text \<open>
  C5. The claim does not hold of the code for a staff that is hidden. \<open>layout2\<close> clears the
  box of a hidden staff without saving it, and \<open>restoreLayout2\<close> restores every record, so a
  staff that was visible in an earlier pass gets back the box saved then. Below, both staves
  are laid out, the lower staff is then hidden and the system laid out again: \<open>layout2\<close>
  leaves the lower staff the null box, and \<open>restoreLayout2\<close> right after it gives the staff
  the vertical position 10.5 and the height 4 of the first pass. (For the visible staves, the
  system height and the measures the claim holds: \<open>restoreLayout2_after_layout2_visible\<close>.)
\<close>

theorem restoreLayout2_hidden_staff_gets_stale_box:
  "layout2 ex_consts ex_ext c1_score c5_sysA = Inr (c5_sys1, [])
   \<and> layout2 ex_consts ex_ext c1_score c5_sysH = Inr (c5_sys2, [])
   \<and> bbox (staves c5_sys2 ! 1) = \<lparr>m_x = 0, m_y = 0, m_w = 0, m_h = 0\<rparr>
   \<and> bbox (staves (fst (restoreLayout2 ex_ext c1_score c5_sys2)) ! 1)
       = \<lparr>m_x = 0, m_y = 10.5, m_w = 0, m_h = 4\<rparr>"
proof -
  have 1: "layout2 ex_consts ex_ext c1_score c5_sysA = Inr (c5_sys1, [])"
    by (simp add: c1_score_def c5_defs ex_defs eval_defs)
  have 2: "layout2 ex_consts ex_ext c1_score c5_sysH = Inr (c5_sys2, [])"
    by (simp add: c1_score_def c5_defs ex_defs eval_defs)
  have 3: "bbox (staves c5_sys2 ! 1) = \<lparr>m_x = 0, m_y = 0, m_w = 0, m_h = 0\<rparr>"
    by (simp add: c5_defs RectF_null_def)
  have 4: "bbox (staves (fst (restoreLayout2 ex_ext c1_score c5_sys2)) ! 1)
       = \<lparr>m_x = 0, m_y = 10.5, m_w = 0, m_h = 4\<rparr>"
    by (simp add: c5_defs ex_defs restoreLayout2_def restoreLayout_def vbox_def setMeasureHeight_def
        setY_def setHeight_def RectF_null_def Let_def)
  from 1 2 3 4 show ?thesis by blast
qed

text \<open>
  C6. On a system that is no frame-box system and has no visible staff, \<open>layout2\<close> returns
  after logging the anomaly: the result is the given system with its position reset and the
  box of every (invisible) staff cleared; system height, system box, measures, brackets and
  saved layouts are untouched. It does not fail, provided the system has no more layout
  records than the score has staves.
\<close>

theorem layout2_no_visible_staves:
  assumes nv: "vbox sys = None"
    and none: "visibleIndices sc sys = []"
    and len: "length (staves sys) \<le> length (sc_staves sc)"
  shows "layout2 k ext sc sys =
           Inr (sys\<lparr>sys_pos := (0, 0), staves := map (\<lambda>s. s\<lparr>bbox := RectF_null\<rparr>) (staves sys)\<rparr>,
                [NoVisibleStaves (int (length (staves sys))) (int (length (sc_staves sc)))])"
proof -
  from len have "0 + length (staves sys) \<le> length (sc_staves sc)" by simp
  from visibleStaves_defined[OF this] obtain vis sts where
    v: "visibleStaves sc 0 (staves sys) = Inr (vis, sts)" by (cases) auto
  note vi = visibleStaves_visibleIndices[OF v]
  have nvis: "\<not> isVisible sc sys j" if "j < length (staves sys)" for j
  proof
    assume "isVisible sc sys j"
    with that have "j \<in> set (visibleIndices sc sys)" by (simp add: visibleIndices_def)
    with none show False by simp
  qed
  have "sts = map (\<lambda>s. s\<lparr>bbox := RectF_null\<rparr>) (staves sys)"
    by (rule nth_equalityI) (simp_all add: vi(2) vi(4) nvis)
  with v vi(1) none nv show ?thesis
    by (simp add: layout2_def Let_def)
qed

theorem layout2_no_visible_staves_witness:
  "vbox c6_system = None \<and> visibleIndices c6_score c6_system = []
   \<and> layout2 ex_consts ex_ext c6_score c6_system =
       Inr (c6_system\<lparr>sys_pos := (0, 0),
              staves := [ex_sysStaff (0, 6) True, ex_sysStaff (0, 4) False]\<rparr>,
            [NoVisibleStaves 2 2])
   \<and> systemHeight c6_system = 16"
proof -
  have nv: "vbox c6_system = None" by (simp add: vbox_def c6_system_def ex_defs)
  have none: "visibleIndices c6_score c6_system = []"
    by (simp add: visibleIndices_def isVisible_def c6_score_def c6_system_def ex_defs upt_rec)
  have len: "length (staves c6_system) \<le> length (sc_staves c6_score)"
    by (simp add: c6_score_def c6_system_def ex_defs)
  from layout2_no_visible_staves[OF nv none len, of ex_consts ex_ext] nv none show ?thesis
    by (simp add: c6_score_def c6_system_def ex_defs)
qed

text \<open>
  C7. Let \<open>layoutInstrumentNames\<close> complete on a system in which the top staff of a part is
  hidden and \<open>visible\<close> is the first shown staff of that part. Then the top staff is left
  without names, and the names of the visible staff are, in this order, the names it had
  followed by the names of the top staff, each of these with its track set to
  \<open>visible * VOICES\<close> and its record set to the visible staff; apart from the vertical
  position, which the function computes for every name of the staff, nothing else of a name
  changes (text, type, layout position, offset), and no name is lost or duplicated.
\<close>

theorem layoutInstrumentNames_moves_names:
  assumes run: "layoutInstrumentNames k sc sys = Inr sys'"
    and p: "pidx < length (parts sc)"
    and top: "topIdx = firstSysStaffOfPart sc pidx"
    and visr: "topIdx < visible" "visible < topIdx + int (nstaves (parts sc ! pidx))"
    and vlen: "nat visible < length (staves sys)"
    and shown: "ss_show (staves sys ! nat visible)"
    and hidden: "\<forall>i. topIdx \<le> i \<and> i < visible \<longrightarrow> \<not> ss_show (staves sys ! nat i)"
  shows "instrumentNames (staves sys' ! nat topIdx) = []
       \<and> map (\<lambda>t. t\<lparr>in_ypos := 0\<rparr>) (instrumentNames (staves sys' ! nat visible))
           = map (\<lambda>t. t\<lparr>in_ypos := 0\<rparr>)
               (instrumentNames (staves sys ! nat visible) @
                map (\<lambda>t. t\<lparr>in_track := visible * VOICES k, in_sysStaff := visible\<rparr>)
                  (instrumentNames (staves sys ! nat topIdx)))"
proof -
  let ?n = "nstaves (parts sc ! pidx)"
  define rest where "rest = length (parts sc) - Suc pidx"
  from p have len: "length (parts sc) = pidx + Suc rest" by (simp add: rest_def)
  have st: "topIdx = partStart sc pidx" by (simp add: top firstSysStaffOfPart_partStart[OF p])
  have ps0: "partStart sc 0 = 0" by (simp add: partStart_def)
  from len have "0 + pidx + Suc rest \<le> length (parts sc)" by simp
  from loop_split[OF this, of k sys] run
  obtain s1 where s1: "layoutInstrumentNames_loop k sc pidx 0 (partStart sc 0) sys = Inr s1"
    and r1: "layoutInstrumentNames_loop k sc (Suc rest) pidx (partStart sc pidx) s1 = Inr sys'"
    by (auto simp: layoutInstrumentNames_def len ps0 split: sum.splits)
  from r1 obtain s2 where s2: "layoutInstrumentNames_part k sc pidx (partStart sc pidx) s1 = Inr s2"
    and r2: "layoutInstrumentNames_loop k sc rest (Suc pidx) (partStart sc (Suc pidx)) s2 = Inr sys'"
    by (auto simp: partStart_Suc[OF p] split: sum.splits)
  have nn: "0 \<le> topIdx" unfolding st by (rule partStart_nonneg)
  have f1: "staves s1 ! i = staves sys ! i" if "partStart sc pidx \<le> int i" for i
    by (rule loop_frame[OF s1]) (use that p in simp_all)
  have f2: "staves sys' ! i = staves s2 ! i" if "int i < partStart sc (Suc pidx)" for i
    by (rule loop_frame[OF r2]) (use that len in simp_all)
  have sn: "stripNames s1 = stripNames sys" by (rule stripNames_loop[OF s1])
  have "firstVisible_loop sys topIdx ?n = Inr visible"
    by (rule firstVisible_loop_first) (use nn visr vlen shown hidden in auto)
  then have fv: "firstVisible_loop s1 (partStart sc pidx) ?n = Inr visible"
    by (simp add: firstVisible_loop_cong[OF sn] st)
  from visr nn have v0: "0 \<le> visible" and vne: "visible \<noteq> partStart sc pidx"
    by (simp_all add: st)
  note pm = part_move[OF s2 p fv v0 vne]
  from visr nn have i1: "partStart sc pidx \<le> int (nat topIdx)" "partStart sc pidx \<le> int (nat visible)"
    by (simp_all add: st)
  from visr nn have i2: "int (nat topIdx) < partStart sc (Suc pidx)" "int (nat visible) < partStart sc (Suc pidx)"
    by (simp_all add: st partStart_Suc[OF p])
  from pm show ?thesis
    by (simp add: f1[OF i1(1)] f1[OF i1(2)] f2[OF i2(1)] f2[OF i2(2)] st[symmetric])
qed

theorem layoutInstrumentNames_moves_names_witness:
  "\<exists>sys'. layoutInstrumentNames ex_consts c7_score c7_system = Inr sys'
     \<and> instrumentNames (staves c7_system ! 1) = [ex_name ''Piano'' LONG 1 0, ex_name ''Pno.'' SHORT 1 1]
     \<and> instrumentNames (staves sys' ! 1) = []
     \<and> map (\<lambda>t. t\<lparr>in_ypos := 0\<rparr>) (instrumentNames (staves sys' ! 2))
         = [ex_name ''left hand'' LONG 2 1, ex_name ''Piano'' LONG 2 0, ex_name ''Pno.'' SHORT 2 1]"
proof -
  have "\<exists>sys'. layoutInstrumentNames ex_consts c7_score c7_system = Inr sys'"
    by (simp add: c7_defs ex_defs eval_defs lastShownFrom.simps nameSpan_def positionName_def
        eval_nat_numeral)
  then obtain sys' where run: "layoutInstrumentNames ex_consts c7_score c7_system = Inr sys'"
    by blast
  have p: "1 < length (parts c7_score)" by (simp add: c7_defs ex_defs)
  have top: "1 = firstSysStaffOfPart c7_score 1"
    by (simp add: firstSysStaffOfPart_def c7_defs ex_defs)
  have visr: "(1::int) < 2" "2 < 1 + int (nstaves (parts c7_score ! 1))"
    by (simp_all add: c7_defs ex_defs)
  have vlen: "nat 2 < length (staves c7_system)" by (simp add: c7_defs ex_defs)
  have shown: "ss_show (staves c7_system ! nat 2)" by (simp add: c7_defs ex_defs)
  have hidden: "\<forall>i. 1 \<le> i \<and> i < 2 \<longrightarrow> \<not> ss_show (staves c7_system ! nat i)"
  proof (intro allI impI)
    fix i :: int assume "1 \<le> i \<and> i < 2"
    then have "i = 1" by simp
    then show "\<not> ss_show (staves c7_system ! nat i)" by (simp add: c7_defs ex_defs)
  qed
  note t = layoutInstrumentNames_moves_names[OF run p top visr vlen shown hidden]
  have n1: "instrumentNames (staves c7_system ! 1) = [ex_name ''Piano'' LONG 1 0, ex_name ''Pno.'' SHORT 1 1]"
    by (simp add: c7_defs ex_defs)
  from t have a: "instrumentNames (staves sys' ! 1) = []" by simp
  from t have b: "map (\<lambda>t. t\<lparr>in_ypos := 0\<rparr>) (instrumentNames (staves sys' ! 2))
         = [ex_name ''left hand'' LONG 2 1, ex_name ''Piano'' LONG 2 0, ex_name ''Pno.'' SHORT 2 1]"
    by (simp add: c7_defs ex_defs)
  show ?thesis by (intro exI[of _ sys'] conjI run n1 a b)
qed

text \<open>
  C8 (as amended). \<open>setBracketsXPosition(x)\<close> places a bracket at \<open>x\<close> minus its own width
  minus an offset; the offset is the sum of width plus bracket distance over the brackets in
  lower-numbered columns whose staff range overlaps the range of the bracket being placed.
  A bracket placed so ends at least the bracket distance left of an overlapping bracket in a
  lower column, when that bracket is placed so as well, the brackets in lower columns that
  overlap it also overlap the bracket itself, and no width nor the bracket distance is
  negative. This is for a bracket that spans at least one staff and whose staff range does not
  strictly contain the range of a bracket in a lower column; of a bracket that does, nothing
  is said here. Only the horizontal positions of the brackets change.
\<close>

theorem setBracketsXPosition_offset:
  assumes "i < length (brackets sys)"
    and "br_firstStaff (brackets sys ! i) \<le> br_lastStaff (brackets sys ! i)"
    and "\<not> containsLowerColumn (brackets sys) (brackets sys ! i)"
  shows "br_xpos (brackets (setBracketsXPosition sc x sys) ! i)
           = x - br_width (brackets sys ! i)
               - lower_xOffset (bracketDistance sc) (brackets sys ! i) (brackets sys)
       \<and> (\<forall>j < length (brackets sys).
             br_column (brackets sys ! j) < br_column (brackets sys ! i)
             \<and> rangesOverlap (brackets sys ! i) (brackets sys ! j)
             \<and> br_firstStaff (brackets sys ! j) \<le> br_lastStaff (brackets sys ! j)
             \<and> \<not> containsLowerColumn (brackets sys) (brackets sys ! j)
             \<and> (\<forall>b3 \<in> set (brackets sys).
                    br_column b3 < br_column (brackets sys ! j) \<and> rangesOverlap (brackets sys ! j) b3
                    \<longrightarrow> rangesOverlap (brackets sys ! i) b3)
             \<and> (\<forall>b \<in> set (brackets sys). 0 \<le> br_width b) \<and> 0 \<le> bracketDistance sc
             \<longrightarrow> br_xpos (brackets (setBracketsXPosition sc x sys) ! i)
                   + br_width (brackets sys ! i) + bracketDistance sc
                 \<le> br_xpos (brackets (setBracketsXPosition sc x sys) ! j))
       \<and> length (brackets (setBracketsXPosition sc x sys)) = length (brackets sys)
       \<and> brackets (setBracketsXPosition sc x sys) ! i
           = (brackets sys ! i)\<lparr>br_xpos := br_xpos (brackets (setBracketsXPosition sc x sys) ! i)\<rparr>
       \<and> (setBracketsXPosition sc x sys)\<lparr>brackets := brackets sys\<rparr> = sys"
proof -
  let ?bs = "brackets sys"
  let ?bd = "bracketDistance sc"
  let ?P = "\<lambda>n. br_xpos (brackets (setBracketsXPosition sc x sys) ! n)"
  have pos: "?P n = x - fold (xOffsetStep ?bd (?bs ! n)) ?bs 0 - br_width (?bs ! n)"
    if "n < length ?bs" for n
    using that by (simp add: setBracketsXPosition_def)
  have pi: "?P i = x - br_width (?bs ! i) - lower_xOffset ?bd (?bs ! i) ?bs"
    by (simp add: pos[OF assms(1)] fold_xOffsetStep_lower[OF assms(2,3)])
  have clear: "?P i + br_width (?bs ! i) + ?bd \<le> ?P j"
    if j: "j < length ?bs"
      and c: "br_column (?bs ! j) < br_column (?bs ! i)"
      and o: "rangesOverlap (?bs ! i) (?bs ! j)"
      and ne: "br_firstStaff (?bs ! j) \<le> br_lastStaff (?bs ! j)"
      and nc: "\<not> containsLowerColumn ?bs (?bs ! j)"
      and nest: "\<forall>b3 \<in> set ?bs. br_column b3 < br_column (?bs ! j) \<and> rangesOverlap (?bs ! j) b3
                   \<longrightarrow> rangesOverlap (?bs ! i) b3"
      and w: "\<forall>b \<in> set ?bs. 0 \<le> br_width b" and d: "0 \<le> ?bd"
    for j
  proof -
    have pj: "?P j = x - br_width (?bs ! j) - lower_xOffset ?bd (?bs ! j) ?bs"
      by (simp add: pos[OF j] fold_xOffsetStep_lower[OF ne nc])
    from j have m: "?bs ! j \<in> set ?bs" by simp
    have "lower_xOffset ?bd (?bs ! j) ?bs + (br_width (?bs ! j) + ?bd)
            \<le> lower_xOffset ?bd (?bs ! i) ?bs"
      by (rule lower_xOffset_nested[OF m c o]) (use nest w d in auto)
    with pi pj show ?thesis by simp
  qed
  have frame: "length (brackets (setBracketsXPosition sc x sys)) = length ?bs"
    "brackets (setBracketsXPosition sc x sys) ! i = (?bs ! i)\<lparr>br_xpos := ?P i\<rparr>"
    "(setBracketsXPosition sc x sys)\<lparr>brackets := ?bs\<rparr> = sys"
    using assms(1) by (simp_all add: setBracketsXPosition_def)
  from pi clear frame show ?thesis by blast
qed

theorem setBracketsXPosition_offset_witness:
  "br_firstStaff (brackets c8_nested ! 2) \<le> br_lastStaff (brackets c8_nested ! 2)
   \<and> \<not> containsLowerColumn (brackets c8_nested) (brackets c8_nested ! 2)
   \<and> lower_xOffset (bracketDistance c8_score4) (brackets c8_nested ! 2) (brackets c8_nested) = 7
   \<and> br_xpos (brackets (setBracketsXPosition c8_score4 10 c8_nested) ! 2) = 2
   \<and> br_xpos (brackets (setBracketsXPosition c8_score4 10 c8_nested) ! 2)
         + br_width (brackets c8_nested ! 2) + bracketDistance c8_score4
       \<le> br_xpos (brackets (setBracketsXPosition c8_score4 10 c8_nested) ! 1)"
proof -
  have h: "2 < length (brackets c8_nested)"
    "br_firstStaff (brackets c8_nested ! 2) \<le> br_lastStaff (brackets c8_nested ! 2)"
    "\<not> containsLowerColumn (brackets c8_nested) (brackets c8_nested ! 2)"
    by (simp_all add: containsLowerColumn_def c8_defs ex_defs br_column_def)
  have off: "lower_xOffset (bracketDistance c8_score4) (brackets c8_nested ! 2) (brackets c8_nested) = 7"
    by (simp add: lower_xOffset_def rangesOverlap_def c8_defs ex_defs br_column_def)
  have j: "1 < length (brackets c8_nested)
      \<and> br_column (brackets c8_nested ! 1) < br_column (brackets c8_nested ! 2)
      \<and> rangesOverlap (brackets c8_nested ! 2) (brackets c8_nested ! 1)
      \<and> br_firstStaff (brackets c8_nested ! 1) \<le> br_lastStaff (brackets c8_nested ! 1)
      \<and> \<not> containsLowerColumn (brackets c8_nested) (brackets c8_nested ! 1)
      \<and> (\<forall>b3 \<in> set (brackets c8_nested).
             br_column b3 < br_column (brackets c8_nested ! 1) \<and> rangesOverlap (brackets c8_nested ! 1) b3
             \<longrightarrow> rangesOverlap (brackets c8_nested ! 2) b3)
      \<and> (\<forall>b \<in> set (brackets c8_nested). 0 \<le> br_width b) \<and> 0 \<le> bracketDistance c8_score4"
    by (simp add: containsLowerColumn_def rangesOverlap_def c8_defs ex_defs br_column_def)
  note t = setBracketsXPosition_offset[OF h, of c8_score4 10]
  from t off have p: "br_xpos (brackets (setBracketsXPosition c8_score4 10 c8_nested) ! 2) = 2"
    by (simp add: c8_defs ex_defs)
  from t j have c: "br_xpos (brackets (setBracketsXPosition c8_score4 10 c8_nested) ! 2)
         + br_width (brackets c8_nested ! 2) + bracketDistance c8_score4
       \<le> br_xpos (brackets (setBracketsXPosition c8_score4 10 c8_nested) ! 1)"
    by blast
  from h off p c show ?thesis by blast
qed

text \<open>
  C8 as stated fails, in the order of the columns and in what it concludes from the offsets.
  Of two brackets on the same staves, the one in column 0 (width 2) is placed at \<open>x - 2\<close> and
  the one in column 1 (width 3) at \<open>x - 3 - (2 + 1)\<close>; by the claim the bracket in column 0
  would be offset by the one in the higher column and the bracket in column 1 would not be
  offset at all. And offsets summed over the overlapping brackets do not keep overlapping
  brackets apart: of three brackets of width 1 in the columns 0, 1, 2 on the staves 0 to 1,
  1 to 2 and 2 to 3, none containing another, the brackets of the columns 1 and 2 overlap
  in staff 2 and are both placed from 7 to 8, each displaced by one bracket; by the offsets of
  the claim the brackets of the columns 0 and 1, which overlap in staff 1, would both be
  placed from 7 to 8.
\<close>

theorem setBracketsXPosition_claim_counterexample:
  "br_xpos (brackets (setBracketsXPosition c8_score 10 c8_system) ! 0) = 8
   \<and> 10 - br_width (brackets c8_system ! 0)
        - claimed_xOffset (bracketDistance c8_score) (brackets c8_system ! 0) (brackets c8_system) = 4
   \<and> br_xpos (brackets (setBracketsXPosition c8_score 10 c8_system) ! 1) = 4
   \<and> 10 - br_width (brackets c8_system ! 1)
        - claimed_xOffset (bracketDistance c8_score) (brackets c8_system ! 1) (brackets c8_system) = 7
   \<and> br_xpos (brackets (setBracketsXPosition c8_score 10 c8_system) ! 0)
        \<noteq> 10 - br_width (brackets c8_system ! 0)
            - claimed_xOffset (bracketDistance c8_score) (brackets c8_system ! 0) (brackets c8_system)
   \<and> rangesOverlap (brackets c8_chain ! 2) (brackets c8_chain ! 1)
   \<and> br_column (brackets c8_chain ! 1) = 1 \<and> br_column (brackets c8_chain ! 2) = 2
   \<and> \<not> containsLowerColumn (brackets c8_chain) (brackets c8_chain ! 1)
   \<and> \<not> containsLowerColumn (brackets c8_chain) (brackets c8_chain ! 2)
   \<and> br_xpos (brackets (setBracketsXPosition c8_score4 10 c8_chain) ! 1) = 7
   \<and> br_width (brackets c8_chain ! 1) = 1
   \<and> br_xpos (brackets (setBracketsXPosition c8_score4 10 c8_chain) ! 2) = 7
   \<and> br_width (brackets c8_chain ! 2) = 1
   \<and> rangesOverlap (brackets c8_chain ! 0) (brackets c8_chain ! 1)
   \<and> 10 - br_width (brackets c8_chain ! 0)
        - claimed_xOffset (bracketDistance c8_score4) (brackets c8_chain ! 0) (brackets c8_chain) = 7
   \<and> 10 - br_width (brackets c8_chain ! 1)
        - claimed_xOffset (bracketDistance c8_score4) (brackets c8_chain ! 1) (brackets c8_chain) = 7"
  by (simp add: setBracketsXPosition_def xOffsetStep_def claimed_xOffset_def rangesOverlap_def
      containsLowerColumn_def c8_defs ex_defs br_column_def Let_def)

text \<open>
  C9. For every integer \<open>staffIdx\<close>, \<open>System::staff(staffIdx)\<close> returns the layout record
  at that index when \<open>0 \<le> staffIdx < number of records\<close>, and null for every negative or
  too large index; the list is never read out of range.
\<close>

theorem staff_in_range_or_null:
  "(0 \<le> staffIdx \<and> staffIdx < int (length (staves sys))
      \<longrightarrow> staff sys staffIdx = Some (staves sys ! nat staffIdx) \<and> nat staffIdx < length (staves sys))
   \<and> (staffIdx < 0 \<or> int (length (staves sys)) \<le> staffIdx \<longrightarrow> staff sys staffIdx = None)"
  by (auto simp: staff_def)

theorem staff_in_range_or_null_witness:
  "staff c1_system 1 = Some (ex_sysStaff (0, 4) True)
   \<and> staff c1_system (- 1) = None
   \<and> staff c1_system 2 = None"
  using staff_in_range_or_null[of 1 c1_system] staff_in_range_or_null[of "- 1" c1_system]
    staff_in_range_or_null[of 2 c1_system]
  by (simp add: c1_system_def ex_system_def)

text \<open>
  C10. \<open>totalBracketOffset\<close> computes the bracket widths with the style \<open>hideEmptyStaves\<close>
  forced to false and restores the style before it returns: whenever the call returns, the
  score is the one it was given, and the offset is what \<open>layoutBrackets\<close> yields on the score
  with \<open>hideEmptyStaves\<close> false. The call returns whenever the system has no more layout
  records than the score has staves.
\<close>

theorem totalBracketOffset_restores_hideEmptyStaves:
  "(\<forall>offset sc' sys'. totalBracketOffset k ext sc sys = Inr (offset, sc', sys') \<longrightarrow>
       hideEmptyStaves sc' = hideEmptyStaves sc \<and> sc' = sc
       \<and> layoutBrackets k ext (sc\<lparr>hideEmptyStaves := False\<rparr>) sys = Inr (offset, sys'))
   \<and> (length (staves sys) \<le> length (sc_staves sc) \<longrightarrow>
       (\<exists>offset sys'. totalBracketOffset k ext sc sys = Inr (offset, sc, sys')))"
proof (intro conjI allI impI)
  fix offset sc' sys'
  assume a: "totalBracketOffset k ext sc sys = Inr (offset, sc', sys')"
  then show "sc' = sc" "layoutBrackets k ext (sc\<lparr>hideEmptyStaves := False\<rparr>) sys = Inr (offset, sys')"
    by (auto simp: totalBracketOffset_def Let_def split: sum.splits)
  then show "hideEmptyStaves sc' = hideEmptyStaves sc" by simp
next
  assume "length (staves sys) \<le> length (sc_staves sc)"
  then have "length (staves sys) \<le> length (sc_staves (sc\<lparr>hideEmptyStaves := False\<rparr>))" by simp
  from layoutBrackets_ok[OF this, of k ext]
  show "\<exists>offset sys'. totalBracketOffset k ext sc sys = Inr (offset, sc, sys')"
    by (auto simp: totalBracketOffset_def Let_def)
qed

theorem totalBracketOffset_restores_hideEmptyStaves_witness:
  "hideEmptyStaves c10_score
   \<and> length (staves c10_system) \<le> length (sc_staves c10_score)
   \<and> (\<exists>sys'. totalBracketOffset ex_consts ex_ext c10_score c10_system = Inr (1.25, c10_score, sys'))"
proof -
  have l: "length (staves c10_system) \<le> length (sc_staves c10_score)"
    by (simp add: c10_system_def c10_score_def ex_defs)
  with totalBracketOffset_restores_hideEmptyStaves[of ex_consts ex_ext c10_score c10_system]
  obtain offset sys' where
    r: "totalBracketOffset ex_consts ex_ext c10_score c10_system = Inr (offset, c10_score, sys')"
    by blast
  with totalBracketOffset_restores_hideEmptyStaves[of ex_consts ex_ext c10_score c10_system]
  have "layoutBrackets ex_consts ex_ext (c10_score\<lparr>hideEmptyStaves := False\<rparr>) c10_system
          = Inr (offset, sys')"
    by blast
  then have "offset = 1.25"
    by (simp add: c10_system_def c10_score_def ex_defs layoutBrackets_def getBracketsColumnsCount_def
        layoutBrackets_staff_def layoutBrackets_item_def createBracket_def wrap_int_def score_staff_def
        staff_def firstShown.simps lastShown.simps firstMeasure_def setStaffSpan_def toInt_def
        Let_def upt_rec)
  with r l show ?thesis by (simp add: c10_score_def ex_defs)
qed

end
